theory Spec2Isabelle
  imports Main "HOL-Library.Multiset" "HOL-Library.Sublist"
begin

section \<open>Workload optimisation of the organizer agent\<close>

text \<open>
  The development follows two source units: \<^verbatim>\<open>optimizeWorkload\<close> (candidate selection,
  prompt, extraction of recommendations from the model's reply) and the handler of
  \<^verbatim>\<open>POST /apply-workload-optimization\<close> (writing selected recommendations back to the
  task store).

  Conventions. A JavaScript string is a \<^typ>\<open>string\<close>, one \<^typ>\<open>char\<close> per code unit, so
  the texts covered are those whose code units lie below 256. A \<^verbatim>\<open>Date\<close> that is valid is
  its time value, an \<^typ>\<open>int\<close> of milliseconds since the epoch. A thrown exception is the
  left summand of a sum type. Logging through \<^verbatim>\<open>console\<close> is not represented, except where
  building the logged text can itself throw.
\<close>

subsection \<open>Exceptions\<close>

datatype js_error = SyntaxError | TypeError | RangeError | Error string

text \<open>\<^verbatim>\<open>e instanceof Error ? e.message : 'Unknown error'\<close>; the built-in errors carry a
  message fixed by the engine, which is not represented.\<close>

fun error_message :: "js_error \<Rightarrow> string" where
  "error_message (Error m) = m"
| "error_message SyntaxError = ''SyntaxError''"
| "error_message TypeError = ''TypeError''"
| "error_message RangeError = ''RangeError''"

definition bind_err :: "'e + 'a \<Rightarrow> ('a \<Rightarrow> 'e + 'b) \<Rightarrow> 'e + 'b" where
  "bind_err m f = (case m of Inl e \<Rightarrow> Inl e | Inr x \<Rightarrow> f x)"

subsection \<open>Text primitives\<close>

text \<open>The code units below 256 that \<^verbatim>\<open>\s\<close> and \<^verbatim>\<open>trim\<close> treat as white space:
  TAB, LF, VT, FF, CR, SPACE and NBSP.\<close>

definition is_space :: "char \<Rightarrow> bool" where
  "is_space c = (of_char c \<in> {9, 10, 11, 12, 13, 32, 160 :: nat})"

definition trim :: "string \<Rightarrow> string" where
  "trim s = rev (dropWhile is_space (rev (dropWhile is_space s)))"

definition starts_with :: "string \<Rightarrow> string \<Rightarrow> bool" where
  "starts_with p s = (take (length p) s = p)"

text \<open>\<^verbatim>\<open>toLowerCase\<close> on code units below 256: A-Z, and the Latin-1 capitals U+00C0-U+00DE
  without the multiplication sign U+00D7.\<close>

definition lower_char :: "char \<Rightarrow> char" where
  "lower_char c =
     (let n = (of_char c :: nat)
      in if (65 \<le> n \<and> n \<le> 90) \<or> (192 \<le> n \<and> n \<le> 222 \<and> n \<noteq> 215)
         then char_of (n + 32) else c)"

definition toLowerCase :: "string \<Rightarrow> string" where
  "toLowerCase s = map lower_char s"

text \<open>Decimal rendering of an integer, as \<^verbatim>\<open>String(n)\<close> gives it for an integral number
  of magnitude below \<open>10^21\<close>.\<close>

fun digits_of :: "nat \<Rightarrow> string" where
  "digits_of n =
     (if n < 10 then [char_of (48 + n)]
      else digits_of (n div 10) @ [char_of (48 + n mod 10)])"

definition int_to_string :: "int \<Rightarrow> string" where
  "int_to_string i = (if i < 0 then CHR ''-'' # digits_of (nat (- i)) else digits_of (nat i))"

text \<open>\<^verbatim>\<open>padStart(w, '0')\<close> of a decimal rendering.\<close>

definition pad_digits :: "nat \<Rightarrow> nat \<Rightarrow> string" where
  "pad_digits w n = (let d = digits_of n in replicate (w - length d) CHR ''0'' @ d)"

text \<open>\<^verbatim>\<open>xs.join(sep)\<close> on a list of strings.\<close>

fun join :: "string \<Rightarrow> string list \<Rightarrow> string" where
  "join sep [] = []"
| "join sep [x] = x"
| "join sep (x # y # ys) = x @ sep @ join sep (y # ys)"

subsection \<open>Dates\<close>

text \<open>\<^verbatim>\<open>Date.prototype.toISOString\<close> of a valid time value: the proleptic Gregorian
  calendar date of the day number, then the time of day. Years outside 0..9999 are
  written with a sign and six digits.\<close>

definition civil_from_days :: "int \<Rightarrow> int \<times> int \<times> int" where
  "civil_from_days z0 =
     (let z = z0 + 719468;
          era = z div 146097;
          doe = z - era * 146097;
          yoe = (doe - doe div 1460 + doe div 36524 - doe div 146096) div 365;
          y = yoe + era * 400;
          doy = doe - (365 * yoe + yoe div 4 - yoe div 100);
          mp = (5 * doy + 2) div 153;
          d = doy - (153 * mp + 2) div 5 + 1;
          m = (if mp < 10 then mp + 3 else mp - 9)
      in (if m \<le> 2 then y + 1 else y, m, d))"

definition iso_year :: "int \<Rightarrow> string" where
  "iso_year y =
     (if 0 \<le> y \<and> y \<le> 9999 then pad_digits 4 (nat y)
      else (if y < 0 then ''-'' else ''+'') @ pad_digits 6 (nat \<bar>y\<bar>))"

definition toISOString :: "int \<Rightarrow> string" where
  "toISOString t =
     (let (y, m, d) = civil_from_days (t div 86400000);
          ms = t mod 86400000
      in iso_year y @ ''-'' @ pad_digits 2 (nat m) @ ''-'' @ pad_digits 2 (nat d) @ ''T''
         @ pad_digits 2 (nat (ms div 3600000)) @ '':''
         @ pad_digits 2 (nat (ms mod 3600000 div 60000)) @ '':''
         @ pad_digits 2 (nat (ms mod 60000 div 1000)) @ ''.''
         @ pad_digits 3 (nat (ms mod 1000)) @ ''Z'')"

text \<open>\<^verbatim>\<open>d.toISOString().split('T')[0]\<close>: the text before the first \<^verbatim>\<open>T\<close>.\<close>

definition iso_date_part :: "int \<Rightarrow> string" where
  "iso_date_part t = takeWhile (\<lambda>c. c \<noteq> CHR ''T'') (toISOString t)"

subsection \<open>Tasks\<close>

text \<open>Modelled from the spec: the enumerations \<^verbatim>\<open>TaskPriority\<close> and \<^verbatim>\<open>TaskStatus\<close> are
  declared in \<^verbatim>\<open>models/Task\<close>, which is not among the sources. The spec gives priority
  as one of low/medium/high/urgent and status as pending/in-progress/completed; the
  string values of the priorities are the keys of \<^verbatim>\<open>priorityOrder\<close> below.\<close>

datatype TaskPriority = LOW | MEDIUM | HIGH | URGENT

datatype TaskStatus = PENDING | IN_PROGRESS | COMPLETED

fun priority_value :: "TaskPriority \<Rightarrow> string" where
  "priority_value LOW = ''low''"
| "priority_value MEDIUM = ''medium''"
| "priority_value HIGH = ''high''"
| "priority_value URGENT = ''urgent''"

record TaskContext =
  id' :: string
  title :: string
  description :: "string option"
  priority :: TaskPriority
  status :: TaskStatus
  taskTime :: "int option"
  dueDate :: "int option"
  completedAt :: "int option"
  points :: int
  tags :: "string list"
  createdAt :: int
  updatedAt :: int
  isOverdue :: "bool option"

subsection \<open>Candidate selection\<close>

text \<open>\<^verbatim>\<open>const priorityOrder = { urgent: 4, high: 3, medium: 2, low: 1 }\<close> and the lookup
  \<^verbatim>\<open>priorityOrder[p] || 0\<close>.\<close>

definition priorityOrder :: "(string \<times> int) list" where
  "priorityOrder = [(''urgent'', 4), (''high'', 3), (''medium'', 2), (''low'', 1)]"

definition priority_rank :: "TaskPriority \<Rightarrow> int" where
  "priority_rank p =
     (case map_of priorityOrder (priority_value p) of
        Some n \<Rightarrow> (if n = 0 then 0 else n)
      | None \<Rightarrow> 0)"

text \<open>The comparator handed to \<^verbatim>\<open>sort\<close>.\<close>

definition compareTasks :: "TaskContext \<Rightarrow> TaskContext \<Rightarrow> int" where
  "compareTasks a b =
     (let priorityDiff = priority_rank (priority b) - priority_rank (priority a)
      in if priorityDiff \<noteq> 0 then priorityDiff
         else (case (dueDate a, dueDate b) of
                 (Some x, Some y) \<Rightarrow> x - y
               | (Some x, None) \<Rightarrow> - 1
               | (None, Some y) \<Rightarrow> 1
               | (None, None) \<Rightarrow> 0))"

text \<open>\<^verbatim>\<open>Array.prototype.sort\<close> is stable; with a comparator that is a consistent
  ordering its result is the one stable arrangement, computed here by insertion: an
  element goes in front of the first later element that does not have to precede it.\<close>

fun insert_by :: "('a \<Rightarrow> 'a \<Rightarrow> int) \<Rightarrow> 'a \<Rightarrow> 'a list \<Rightarrow> 'a list" where
  "insert_by cmp x [] = [x]"
| "insert_by cmp x (y # ys) =
     (if cmp x y \<le> 0 then x # y # ys else y # insert_by cmp x ys)"

fun sort_by :: "('a \<Rightarrow> 'a \<Rightarrow> int) \<Rightarrow> 'a list \<Rightarrow> 'a list" where
  "sort_by cmp [] = []"
| "sort_by cmp (x # xs) = insert_by cmp x (sort_by cmp xs)"

text \<open>\<^verbatim>\<open>xs.slice(0, e)\<close>: a negative end counts from the back.\<close>

definition slice0 :: "int \<Rightarrow> 'a list \<Rightarrow> 'a list" where
  "slice0 e xs =
     (let len = int (length xs);
          final = (if e < 0 then max (len + e) 0 else min e len)
      in take (nat final) xs)"

datatype AIProvider = Langchain | Openrouter

text \<open>The options of \<^verbatim>\<open>optimizeWorkload\<close>. A number option that is absent or \<^verbatim>\<open>NaN\<close>
  (what \<^verbatim>\<open>parseInt\<close> gives the route for a malformed query value) is \<open>None\<close>.\<close>

record Options =
  provider :: "AIProvider option"
  days :: "int option"
  maxTasks :: "int option"

text \<open>\<^verbatim>\<open>n || dflt\<close> for a number: zero and \<^verbatim>\<open>NaN\<close> give the default.\<close>

definition num_or :: "int option \<Rightarrow> int \<Rightarrow> int" where
  "num_or n dflt = (case n of Some v \<Rightarrow> (if v = 0 then dflt else v) | None \<Rightarrow> dflt)"

definition days_of :: "Options option \<Rightarrow> int" where
  "days_of options = num_or (case options of Some opts \<Rightarrow> days opts | None \<Rightarrow> None) 7"

definition maxTasks_of :: "Options option \<Rightarrow> int" where
  "maxTasks_of options = num_or (case options of Some opts \<Rightarrow> maxTasks opts | None \<Rightarrow> None) 15"

definition is_open :: "TaskContext \<Rightarrow> bool" where
  "is_open t = (status t = PENDING \<or> status t = IN_PROGRESS)"

definition pendingTasks_of :: "Options option \<Rightarrow> TaskContext list \<Rightarrow> TaskContext list" where
  "pendingTasks_of options tasks =
     slice0 (maxTasks_of options) (sort_by compareTasks (filter is_open tasks))"

subsection \<open>JavaScript values\<close>

text \<open>The values \<^verbatim>\<open>JSON.parse\<close> produces, and \<^verbatim>\<open>undefined\<close> for a property that is not
  there. A number is carried as the numeric literal that denotes it: its truth value
  and its rendering as a string depend on floating point and are left to the host. The
  members of an object are kept in source order; a later duplicate of a key wins.\<close>

datatype jsval =
    JUndefined
  | JNull
  | JBool bool
  | JNum string
  | JStr string
  | JArr "jsval list"
  | JObj "(string \<times> jsval) list"

text \<open>What the engine, not this repository, defines: \<^verbatim>\<open>JSON.parse\<close> (an error is the
  \<^verbatim>\<open>SyntaxError\<close> it throws), \<^verbatim>\<open>new Date(v)\<close> for a value read from JSON (\<open>None\<close> is an
  Invalid Date; parsing of date strings is implementation-defined beyond the ISO format),
  and the conversions of numbers.\<close>

record js_host =
  JSON_parse :: "string \<Rightarrow> js_error + jsval"
  Date_new :: "jsval \<Rightarrow> js_error + int option"
  Number_truthy :: "string \<Rightarrow> bool"
  Number_toString :: "string \<Rightarrow> string"

text \<open>\<^verbatim>\<open>ToBoolean\<close>.\<close>

fun truthy :: "js_host \<Rightarrow> jsval \<Rightarrow> bool" where
  "truthy h JUndefined = False"
| "truthy h JNull = False"
| "truthy h (JBool b) = b"
| "truthy h (JNum n) = Number_truthy h n"
| "truthy h (JStr s) = (s \<noteq> [])"
| "truthy h (JArr xs) = True"
| "truthy h (JObj kvs) = True"

text \<open>\<^verbatim>\<open>a || b\<close>.\<close>

definition js_or :: "js_host \<Rightarrow> jsval \<Rightarrow> jsval \<Rightarrow> jsval" where
  "js_or h a b = (if truthy h a then a else b)"

fun map_err :: "('a \<Rightarrow> 'e + 'b) \<Rightarrow> 'a list \<Rightarrow> 'e + 'b list" where
  "map_err f [] = Inr []"
| "map_err f (x # xs) =
     (case f x of
        Inl e \<Rightarrow> Inl e
      | Inr y \<Rightarrow> (case map_err f xs of Inl e \<Rightarrow> Inl e | Inr ys \<Rightarrow> Inr (y # ys)))"

fun filter_err :: "('a \<Rightarrow> 'e + bool) \<Rightarrow> 'a list \<Rightarrow> 'e + 'a list" where
  "filter_err p [] = Inr []"
| "filter_err p (x # xs) =
     (case p x of
        Inl e \<Rightarrow> Inl e
      | Inr b \<Rightarrow> (case filter_err p xs of
                   Inl e \<Rightarrow> Inl e
                 | Inr ys \<Rightarrow> Inr (if b then x # ys else ys)))"

text \<open>\<^verbatim>\<open>String(v)\<close>. An array joins its elements with commas, \<^verbatim>\<open>null\<close> and
  \<^verbatim>\<open>undefined\<close> elements giving the empty string. An object from JSON converts through
  \<^verbatim>\<open>Object.prototype.toString\<close>, unless it has a member named \<^verbatim>\<open>toString\<close> of its own:
  that member is not callable, \<^verbatim>\<open>valueOf\<close> yields no primitive, and a \<^verbatim>\<open>TypeError\<close> is
  thrown.\<close>

fun ToString :: "js_host \<Rightarrow> jsval \<Rightarrow> js_error + string"
  and ToString_elements :: "js_host \<Rightarrow> jsval list \<Rightarrow> js_error + string list" where
  "ToString h JUndefined = Inr ''undefined''"
| "ToString h JNull = Inr ''null''"
| "ToString h (JBool b) = Inr (if b then ''true'' else ''false'')"
| "ToString h (JNum n) = Inr (Number_toString h n)"
| "ToString h (JStr s) = Inr s"
| "ToString h (JArr xs) =
     (case ToString_elements h xs of Inl e \<Rightarrow> Inl e | Inr ss \<Rightarrow> Inr (join '','' ss))"
| "ToString h (JObj kvs) =
     (if ''toString'' \<in> fst ` set kvs then Inl TypeError else Inr ''[object Object]'')"
| "ToString_elements h [] = Inr []"
| "ToString_elements h (x # xs) =
     (case (if x = JUndefined \<or> x = JNull then Inr [] else ToString h x) of
        Inl e \<Rightarrow> Inl e
      | Inr s \<Rightarrow> (case ToString_elements h xs of Inl e \<Rightarrow> Inl e | Inr ss \<Rightarrow> Inr (s # ss)))"

text \<open>Reading a property whose name is none of the built-in ones (the names read here
  are \<^verbatim>\<open>recommendations\<close>, \<^verbatim>\<open>taskId\<close>, \<^verbatim>\<open>taskTitle\<close>, \<^verbatim>\<open>currentPriority\<close>,
  \<^verbatim>\<open>suggestedDueDate\<close>, \<^verbatim>\<open>suggestedPriority\<close> and \<^verbatim>\<open>reason\<close>): on \<^verbatim>\<open>null\<close> and
  \<^verbatim>\<open>undefined\<close> it throws, on a primitive or an array it gives \<^verbatim>\<open>undefined\<close>.\<close>

fun get_prop :: "jsval \<Rightarrow> string \<Rightarrow> js_error + jsval" where
  "get_prop JUndefined k = Inl TypeError"
| "get_prop JNull k = Inl TypeError"
| "get_prop (JObj kvs) k =
     Inr (case map_of (rev kvs) k of Some v \<Rightarrow> v | None \<Rightarrow> JUndefined)"
| "get_prop v k = Inr JUndefined"

subsection \<open>The three patterns\<close>

definition fence :: string where
  "fence = ''```''"

definition recommendations_key :: string where
  \<open>recommendations_key = ''"recommendations"''\<close>

text \<open>\<^verbatim>\<open>s.match(re)\<close> for a pattern without the global flag: the match at the leftmost
  position where one exists. \<open>m\<close> attempts the pattern at the front of its argument.\<close>

fun first_match :: "(string \<Rightarrow> 'a option) \<Rightarrow> string \<Rightarrow> 'a option" where
  "first_match m [] = m []"
| "first_match m (c # cs) =
     (case m (c # cs) of Some r \<Rightarrow> Some r | None \<Rightarrow> first_match m cs)"

text \<open>The tail \<^verbatim>\<open>[\s\S]*?\}\s*```\<close> of the first pattern: the lazy star stops at the
  first closing brace that is followed by optional white space and a fence. \<open>acc\<close>
  holds, reversed, what the star has consumed. The result is the text up to and
  including the brace, and the white space and fence after it.\<close>

fun lazy_to_fenced_brace :: "string \<Rightarrow> string \<Rightarrow> (string \<times> string) option" where
  "lazy_to_fenced_brace acc [] = None"
| "lazy_to_fenced_brace acc (c # cs) =
     (if c = CHR ''}'' \<and> starts_with fence (dropWhile is_space cs)
      then Some (rev (c # acc), takeWhile is_space cs @ fence)
      else lazy_to_fenced_brace (c # acc) cs)"

text \<open>\<^verbatim>\<open>\s*(\{[\s\S]*?\})\s*```\<close> at the front of \<open>r\<close>; \<open>pre\<close> is what the match has
  consumed before. White space is not a brace, so only the longest run of \<^verbatim>\<open>\s*\<close> can
  be followed by one. The result is \<^verbatim>\<open>match[0]\<close> and \<^verbatim>\<open>match[1]\<close>.\<close>

definition codeBlock_body :: "string \<Rightarrow> string \<Rightarrow> (string \<times> string) option" where
  "codeBlock_body pre r =
     (let ws = takeWhile is_space r; r' = dropWhile is_space r
      in if r' \<noteq> [] \<and> hd r' = CHR ''{''
         then (case lazy_to_fenced_brace [] (tl r') of
                 Some (body, closing) \<Rightarrow>
                   Some (pre @ ws @ CHR ''{'' # body @ closing, CHR ''{'' # body)
               | None \<Rightarrow> None)
         else None)"

text \<open>\<^verbatim>\<open>/```(?:json)?\s*(\{[\s\S]*?\})\s*```/\<close> at the front of \<open>s\<close>: the optional group
  is greedy, so the attempt with \<^verbatim>\<open>json\<close> comes first and the attempt without it
  second.\<close>

definition codeBlock_at :: "string \<Rightarrow> (string \<times> string) option" where
  "codeBlock_at s =
     (if starts_with fence s
      then (let r = drop 3 s
            in if starts_with ''json'' r
               then (case codeBlock_body (fence @ ''json'') (drop 4 r) of
                       Some m \<Rightarrow> Some m
                     | None \<Rightarrow> codeBlock_body fence r)
               else codeBlock_body fence r)
      else None)"

definition codeBlockPattern :: "string \<Rightarrow> (string \<times> string) option" where
  "codeBlockPattern s = first_match codeBlock_at s"

text \<open>\<^verbatim>\<open>[\s\S]*?\}\<close>: up to the first closing brace.\<close>

fun lazy_to_brace :: "string \<Rightarrow> string \<Rightarrow> string option" where
  "lazy_to_brace acc [] = None"
| "lazy_to_brace acc (c # cs) =
     (if c = CHR ''}'' then Some (rev (c # acc)) else lazy_to_brace (c # acc) cs)"

text \<open>\<^verbatim>\<open>[\s\S]*?"recommendations"[\s\S]*?\}\<close>: the first occurrence of the quoted key
  after which the rest of the pattern matches.\<close>

fun lazy_to_key :: "string \<Rightarrow> string \<Rightarrow> string option" where
  "lazy_to_key acc [] = None"
| "lazy_to_key acc (c # cs) =
     (if starts_with recommendations_key (c # cs)
      then (case lazy_to_brace [] (drop (length recommendations_key) (c # cs)) of
              Some t \<Rightarrow> Some (rev acc @ recommendations_key @ t)
            | None \<Rightarrow> lazy_to_key (c # acc) cs)
      else lazy_to_key (c # acc) cs)"

text \<open>\<^verbatim>\<open>/\{[\s\S]*?"recommendations"[\s\S]*?\}/\<close> at the front of \<open>s\<close>.\<close>

definition jsonObject_at :: "string \<Rightarrow> string option" where
  "jsonObject_at s =
     (if s \<noteq> [] \<and> hd s = CHR ''{''
      then (case lazy_to_key [] (tl s) of Some t \<Rightarrow> Some (CHR ''{'' # t) | None \<Rightarrow> None)
      else None)"

definition jsonObjectPattern :: "string \<Rightarrow> string option" where
  "jsonObjectPattern s = first_match jsonObject_at s"

text \<open>\<^verbatim>\<open>/\{[\s\S]*\}/\<close> at the front of \<open>s\<close>: the greedy star runs to the last closing
  brace.\<close>

definition anyJson_at :: "string \<Rightarrow> string option" where
  "anyJson_at s =
     (if s \<noteq> [] \<and> hd s = CHR ''{'' \<and> CHR ''}'' \<in> set (tl s)
      then Some (CHR ''{'' # rev (dropWhile (\<lambda>c. c \<noteq> CHR ''}'') (rev (tl s))))
      else None)"

definition anyJsonPattern :: "string \<Rightarrow> string option" where
  "anyJsonPattern s = first_match anyJson_at s"

text \<open>The sequence of the three attempts, with the two variables \<^verbatim>\<open>jsonString\<close> and
  \<^verbatim>\<open>jsonMatch\<close> (\<open>None\<close> is \<^verbatim>\<open>null\<close>) that they assign.\<close>

definition find_json :: "string \<Rightarrow> string \<times> string option" where
  "find_json aiResponse =
     (let v0 = ([], None);
          v1 = (case codeBlockPattern aiResponse of
                  Some (m0, m1) \<Rightarrow> if m1 \<noteq> [] then (m1, Some m0) else v0
                | None \<Rightarrow> v0);
          v2 = (if fst v1 = []
                then (case jsonObjectPattern aiResponse of
                        Some m \<Rightarrow> (m, Some m)
                      | None \<Rightarrow> v1)
                else v1);
          v3 = (if fst v2 = []
                then (case anyJsonPattern aiResponse of
                        Some m \<Rightarrow> (m, Some m)
                      | None \<Rightarrow> v2)
                else v2)
      in v3)"

subsection \<open>Cleaning the candidate\<close>

text \<open>\<^verbatim>\<open>replace(/^```json\s*/i, '')\<close>.\<close>

definition strip_json_fence :: "string \<Rightarrow> string" where
  "strip_json_fence s =
     (if starts_with fence s \<and> toLowerCase (take 4 (drop 3 s)) = ''json''
      then dropWhile is_space (drop 7 s) else s)"

text \<open>\<^verbatim>\<open>replace(/^```\s*/, '')\<close>.\<close>

definition strip_fence :: "string \<Rightarrow> string" where
  "strip_fence s = (if starts_with fence s then dropWhile is_space (drop 3 s) else s)"

text \<open>\<^verbatim>\<open>replace(/\s*```$/, '')\<close>: the leftmost match is the closing fence together with
  the whole run of white space before it.\<close>

definition strip_closing_fence :: "string \<Rightarrow> string" where
  "strip_closing_fence s =
     (if starts_with fence (rev s) then rev (dropWhile is_space (drop 3 (rev s))) else s)"

definition cleanJson :: "string \<Rightarrow> string" where
  "cleanJson jsonString = strip_closing_fence (strip_fence (strip_json_fence (trim jsonString)))"

subsection \<open>From a reply entry to a recommendation\<close>

record TaskRecommendation =
  taskId :: string
  taskTitle :: jsval
  currentDueDate :: "int option"
  suggestedDueDate :: "int option"
  currentPriority :: string
  suggestedPriority :: "string option"
  reason :: jsval

record WorkloadOptimizationResult =
  analysis :: string
  recommendations :: "TaskRecommendation list"
  summary :: string

text \<open>The callback of the first \<^verbatim>\<open>filter\<close>:
  \<^verbatim>\<open>validTaskIds.has(String(rec.taskId || ''))\<close>.\<close>

definition isValid :: "js_host \<Rightarrow> TaskContext list \<Rightarrow> jsval \<Rightarrow> js_error + bool" where
  "isValid h pendingTasks rec =
     bind_err (get_prop rec ''taskId'') (\<lambda>v.
     bind_err (ToString h (js_or h v (JStr []))) (\<lambda>taskId.
     Inr (taskId \<in> set (map id' pendingTasks))))"

text \<open>The parsing of \<^verbatim>\<open>rec.suggestedDueDate\<close>, with its own \<^verbatim>\<open>try\<close>: an Invalid Date
  and a throwing constructor both give \<^verbatim>\<open>null\<close>. Either branch logs a template
  literal that converts the value to a string, which can throw in its turn.\<close>

definition parse_suggested :: "js_host \<Rightarrow> jsval \<Rightarrow> js_error + int option" where
  "parse_suggested h v =
     (if truthy h v
      then (case Date_new h v of
              Inr (Some t) \<Rightarrow> Inr (Some t)
            | Inr None \<Rightarrow> bind_err (ToString h v) (\<lambda>_. Inr None)
            | Inl e \<Rightarrow> bind_err (ToString h v) (\<lambda>_. Inr None))
      else Inr None)"

text \<open>\<^verbatim>\<open>rec.suggestedPriority &&
  String(rec.currentPriority || originalTask.priority).toLowerCase() !==
  String(rec.suggestedPriority).toLowerCase()\<close>.\<close>

definition hasPriorityChange_of ::
  "js_host \<Rightarrow> TaskContext \<Rightarrow> jsval \<Rightarrow> jsval \<Rightarrow> js_error + bool" where
  "hasPriorityChange_of h originalTask cur sug =
     (if truthy h sug
      then bind_err (ToString h (js_or h cur (JStr (priority_value (priority originalTask))))) (\<lambda>a.
           bind_err (ToString h sug) (\<lambda>b.
           Inr (toLowerCase a \<noteq> toLowerCase b)))
      else Inr False)"

text \<open>The comparison of the dates normalised to \<^verbatim>\<open>YYYY-MM-DD\<close>, \<open>None\<close> being the
  \<^verbatim>\<open>null\<close> that stands for no date.\<close>

definition hasDateChange_of :: "int option \<Rightarrow> int option \<Rightarrow> bool" where
  "hasDateChange_of current suggested =
     (let currentDateStr = map_option iso_date_part current;
          suggestedDateStr = map_option iso_date_part suggested
      in currentDateStr \<noteq> suggestedDateStr)"

text \<open>The object that the callback of \<^verbatim>\<open>map\<close> returns for an entry it keeps.\<close>

definition makeRecommendation ::
  "js_host \<Rightarrow> TaskContext \<Rightarrow> jsval \<Rightarrow> int option \<Rightarrow> js_error + TaskRecommendation" where
  "makeRecommendation h originalTask rec suggested =
     bind_err (get_prop rec ''taskId'') (\<lambda>recTaskId.
     bind_err (ToString h (js_or h recTaskId (JStr (id' originalTask)))) (\<lambda>tid.
     bind_err (get_prop rec ''taskTitle'') (\<lambda>recTaskTitle.
     bind_err (get_prop rec ''currentPriority'') (\<lambda>recCurrentPriority.
     bind_err (ToString h
                 (js_or h (js_or h recCurrentPriority
                             (JStr (priority_value (priority originalTask))))
                    (JStr ''medium''))) (\<lambda>cp.
     bind_err (get_prop rec ''suggestedPriority'') (\<lambda>recSuggestedPriority.
     bind_err (if truthy h recSuggestedPriority
               then bind_err (ToString h recSuggestedPriority) (\<lambda>p. Inr (Some p))
               else Inr None) (\<lambda>sp.
     bind_err (get_prop rec ''reason'') (\<lambda>recReason.
     Inr \<lparr> taskId = tid,
           taskTitle = js_or h (js_or h recTaskTitle (JStr (title originalTask))) (JStr []),
           currentDueDate = dueDate originalTask,
           suggestedDueDate = suggested,
           currentPriority = cp,
           suggestedPriority = sp,
           reason = js_or h recReason (JStr ''Balance workload distribution'') \<rparr>))))))))"

text \<open>The callback of \<^verbatim>\<open>map\<close> once the original task is found; \<open>None\<close> is the
  \<^verbatim>\<open>null\<close> it returns for an entry without a change.\<close>

definition reconcile ::
  "js_host \<Rightarrow> TaskContext \<Rightarrow> jsval \<Rightarrow> js_error + TaskRecommendation option" where
  "reconcile h originalTask rec =
     bind_err (get_prop rec ''suggestedDueDate'') (\<lambda>recSuggestedDueDate.
     bind_err (parse_suggested h recSuggestedDueDate) (\<lambda>suggested.
     bind_err (get_prop rec ''suggestedPriority'') (\<lambda>recSuggestedPriority.
     bind_err (get_prop rec ''currentPriority'') (\<lambda>recCurrentPriority.
     bind_err (hasPriorityChange_of h originalTask recCurrentPriority recSuggestedPriority)
       (\<lambda>hasPriorityChange.
     if \<not> hasDateChange_of (dueDate originalTask) suggested \<and> \<not> hasPriorityChange
     then Inr None
     else bind_err (makeRecommendation h originalTask rec suggested) (\<lambda>r. Inr (Some r)))))))"

text \<open>The callback of \<^verbatim>\<open>map\<close>. \<^verbatim>\<open>find\<close> converts \<^verbatim>\<open>rec.taskId\<close> once for every task
  it inspects, so not at all when there is no task.\<close>

definition toRecommendation ::
  "js_host \<Rightarrow> TaskContext list \<Rightarrow> jsval \<Rightarrow> js_error + TaskRecommendation option" where
  "toRecommendation h pendingTasks rec =
     bind_err (get_prop rec ''taskId'') (\<lambda>recTaskId.
     bind_err (if pendingTasks = [] then Inr None
               else bind_err (ToString h recTaskId) (\<lambda>s.
                    Inr (find (\<lambda>t. id' t = s) pendingTasks))) (\<lambda>found.
     case found of
       None \<Rightarrow> Inr None
     | Some originalTask \<Rightarrow> reconcile h originalTask rec))"

text \<open>\<^verbatim>\<open>jsonData.recommendations.filter(...).map(...).filter(rec => rec !== null)\<close>.\<close>

definition mapRecommendations ::
  "js_host \<Rightarrow> TaskContext list \<Rightarrow> jsval list \<Rightarrow> js_error + TaskRecommendation list" where
  "mapRecommendations h pendingTasks recs =
     bind_err (filter_err (isValid h pendingTasks) recs) (\<lambda>valid.
     bind_err (map_err (toRecommendation h pendingTasks) valid) (\<lambda>mapped.
     Inr (List.map_filter (\<lambda>r. r) mapped)))"

subsection \<open>Extraction\<close>

text \<open>\<^verbatim>\<open>s.split(c)\<close> for a separator of one code unit.\<close>

fun split_on :: "char \<Rightarrow> string \<Rightarrow> string list" where
  "split_on c [] = [] # []"
| "split_on c (x # xs) =
     (if x = c then [] # split_on c xs
      else (case split_on c xs of p # ps \<Rightarrow> (x # p) # ps | [] \<Rightarrow> (x # []) # []))"

text \<open>\<^verbatim>\<open>parts[i]?.trim() || ''\<close>.\<close>

definition part_or_empty :: "string list \<Rightarrow> nat \<Rightarrow> string" where
  "part_or_empty parts i = (if i < length parts then trim (parts ! i) else [])"

definition degraded :: "string \<Rightarrow> WorkloadOptimizationResult" where
  "degraded aiResponse = \<lparr> analysis = aiResponse, recommendations = [], summary = [] \<rparr>"

text \<open>The assignments to \<^verbatim>\<open>analysis\<close> and \<^verbatim>\<open>summary\<close> after the recommendations are
  computed. \<^verbatim>\<open>jsonMatch\<close> holds a string, so \<^verbatim>\<open>jsonMatch[0]\<close> is its first code unit,
  and that is the separator of the \<^verbatim>\<open>split\<close>.\<close>

definition split_result ::
  "string \<Rightarrow> string option \<Rightarrow> TaskRecommendation list \<Rightarrow> WorkloadOptimizationResult" where
  "split_result aiResponse jsonMatch recs =
     (case jsonMatch of
        Some (c # m) \<Rightarrow>
          (let parts = split_on c aiResponse
           in \<lparr> analysis = part_or_empty parts 0,
                recommendations = recs,
                summary = part_or_empty parts 1 \<rparr>)
      | _ \<Rightarrow> \<lparr> analysis = aiResponse, recommendations = recs, summary = [] \<rparr>)"

text \<open>What follows \<^verbatim>\<open>JSON.parse\<close> in the \<^verbatim>\<open>try\<close> block.\<close>

definition from_jsonData ::
  "js_host \<Rightarrow> string \<Rightarrow> string option \<Rightarrow> TaskContext list \<Rightarrow> jsval
     \<Rightarrow> js_error + WorkloadOptimizationResult" where
  "from_jsonData h aiResponse jsonMatch pendingTasks jsonData =
     bind_err (get_prop jsonData ''recommendations'') (\<lambda>rs.
     case rs of
       JArr recs \<Rightarrow>
         bind_err (mapRecommendations h pendingTasks recs) (\<lambda>recs'.
         Inr (split_result aiResponse jsonMatch recs'))
     | _ \<Rightarrow> Inr (degraded aiResponse))"

text \<open>The body of the \<^verbatim>\<open>try\<close> block.\<close>

definition extract_try ::
  "js_host \<Rightarrow> string \<Rightarrow> TaskContext list \<Rightarrow> js_error + WorkloadOptimizationResult" where
  "extract_try h aiResponse pendingTasks =
     (let (jsonString, jsonMatch) = find_json aiResponse
      in if jsonString \<noteq> []
         then bind_err (JSON_parse h (cleanJson jsonString))
                (from_jsonData h aiResponse jsonMatch pendingTasks)
         else Inr (degraded aiResponse))"

text \<open>The \<^verbatim>\<open>try\<close> with its \<^verbatim>\<open>catch\<close>: nothing is assigned before the last statements of
  the block, which do not throw, so the handler starts from the initial values.\<close>

definition extractRecommendations ::
  "js_host \<Rightarrow> string \<Rightarrow> TaskContext list \<Rightarrow> WorkloadOptimizationResult" where
  "extractRecommendations h aiResponse pendingTasks =
     (case extract_try h aiResponse pendingTasks of
        Inr r \<Rightarrow> r
      | Inl parseError \<Rightarrow> degraded aiResponse)"

subsection \<open>The prompt and the whole operation\<close>

definition newline :: string where
  "newline = [CHR 0x0A]"

text \<open>One line of \<^verbatim>\<open>taskList\<close>; \<open>idx\<close> is the index of the task.\<close>

definition task_line :: "nat \<Rightarrow> TaskContext \<Rightarrow> string" where
  \<open>task_line idx task =
     (let dueDateStr = (case dueDate task of
                          Some d \<Rightarrow> iso_date_part d
                        | None \<Rightarrow> ''No due date'');
          taskId = id' task
      in int_to_string (int idx + 1) @ ''. [ID: '' @ taskId @ ''] "'' @ title task
         @ ''" - Priority: '' @ priority_value (priority task) @ '', Due: '' @ dueDateStr)\<close>

definition taskList_of :: "TaskContext list \<Rightarrow> string" where
  "taskList_of pendingTasks =
     join newline (map (\<lambda>(idx, task). task_line idx task)
                       (zip [0 ..< length pendingTasks] pendingTasks))"

definition prompt_of :: "TaskContext list \<Rightarrow> int \<Rightarrow> string" where
  \<open>prompt_of pendingTasks days' =
     join newline
       [''Analyze these '' @ int_to_string (int (length pendingTasks))
          @ '' tasks and redistribute them to balance workload over the next ''
          @ int_to_string days' @ '' days.'',
        [],
        ''TASKS:'',
        taskList_of pendingTasks,
        [],
        ''You MUST respond with ONLY this JSON format (no other text):'',
        ''{'',
        ''  "recommendations": ['',
        ''    {'',
        ''      "taskId": "exact_id_from_list",'',
        ''      "taskTitle": "exact title",'',
        ''      "currentDueDate": "YYYY-MM-DD or null",'',
        ''      "suggestedDueDate": "YYYY-MM-DD",'',
        ''      "currentPriority": "low/medium/high/urgent",'',
        ''      "suggestedPriority": "low/medium/high/urgent",'',
        ''      "reason": "reason"'',
        ''    }'',
        ''  ]'',
        ''}'',
        [],
        ''CRITICAL RULES:'',
        ''- Find tasks on overloaded days (5+ tasks) and move some to lighter days (1-2 tasks)'',
        ''- Schedule tasks with "No due date" to balance workload'',
        ''- Prioritize overdue tasks (negative days)'',
        ''- Suggested dates must be YYYY-MM-DD format within next '' @ int_to_string days'
          @ '' days'',
        ''- Include at least 5-10 recommendations if there are imbalances'',
        ''- Return ONLY the JSON, no markdown, no code blocks, no explanations'']\<close>

text \<open>A call of \<^verbatim>\<open>chatWithOrganizer\<close>, the Model Gateway: the user, the prompt and the
  provider if one was asked for. The temperature and the token limit are the same in
  every call and are left out. The gateway is a parameter: it answers with the reply
  text or throws.\<close>

record GatewayCall =
  call_userId :: string
  call_prompt :: string
  call_provider :: "AIProvider option"

type_synonym gateway = "GatewayCall \<Rightarrow> js_error + string"

definition no_pending :: WorkloadOptimizationResult where
  "no_pending = \<lparr> analysis = ''No pending tasks found to optimize.'',
                   recommendations = [], summary = [] \<rparr>"

text \<open>\<^verbatim>\<open>optimizeWorkload\<close>. \<open>retrieved\<close> is the outcome of \<^verbatim>\<open>retrieveUserTasks(userId)\<close>.
  The result comes with the list of the calls made to the gateway.\<close>

definition optimizeWorkload ::
  "js_host \<Rightarrow> gateway \<Rightarrow> (js_error + TaskContext list) \<Rightarrow> string \<Rightarrow> Options option
     \<Rightarrow> (js_error + WorkloadOptimizationResult) \<times> GatewayCall list" where
  "optimizeWorkload h chatWithOrganizer retrieved userId options =
     (case retrieved of
        Inl e \<Rightarrow> (Inl e, [])
      | Inr tasks \<Rightarrow>
          (let pendingTasks = pendingTasks_of options tasks
           in if length pendingTasks = 0 then (Inr no_pending, [])
              else
                (let call = \<lparr> call_userId = userId,
                               call_prompt = prompt_of pendingTasks (days_of options),
                               call_provider = (case options of
                                                  Some opts \<Rightarrow> provider opts
                                                | None \<Rightarrow> None) \<rparr>
                 in case chatWithOrganizer call of
                      Inl e \<Rightarrow> (Inl e, [call])
                    | Inr aiResponse \<Rightarrow>
                        (Inr (extractRecommendations h aiResponse pendingTasks), [call]))))"

subsection \<open>An example host\<close>

text \<open>A host to run the operation on concrete replies. Its \<^verbatim>\<open>JSON.parse\<close> follows the
  JSON grammar; a \<^verbatim>\<open>\u\<close> escape that denotes a code unit of 256 or more has no
  counterpart among the code units represented and is rejected. Its \<^verbatim>\<open>Date\<close> accepts the
  date-only ISO form \<^verbatim>\<open>YYYY-MM-DD\<close> of a calendar day and nothing else. The general
  results below hold for every host.\<close>

datatype token =
    TLBrace | TRBrace | TLBracket | TRBracket | TColon | TComma
  | TString string | TNumber string | TTrue | TFalse | TNull

definition is_digit :: "char \<Rightarrow> bool" where
  "is_digit c = (48 \<le> (of_char c :: nat) \<and> (of_char c :: nat) \<le> 57)"

definition hex_value :: "char \<Rightarrow> nat option" where
  "hex_value c =
     (let n = (of_char c :: nat)
      in if 48 \<le> n \<and> n \<le> 57 then Some (n - 48)
         else if 65 \<le> n \<and> n \<le> 70 then Some (n - 55)
         else if 97 \<le> n \<and> n \<le> 102 then Some (n - 87)
         else None)"

fun hex_number :: "nat \<Rightarrow> string \<Rightarrow> nat option" where
  "hex_number acc [] = Some acc"
| "hex_number acc (c # cs) =
     (case hex_value c of Some v \<Rightarrow> hex_number (16 * acc + v) cs | None \<Rightarrow> None)"

text \<open>The code unit of a \<^verbatim>\<open>\uXXXX\<close> escape, given the four digits.\<close>

definition unicode_escape :: "string \<Rightarrow> char option" where
  "unicode_escape ds =
     (if length ds = 4
      then (case hex_number 0 ds of
              Some n \<Rightarrow> (if n < 256 then Some (char_of n) else None)
            | None \<Rightarrow> None)
      else None)"

definition simple_escape :: "char \<Rightarrow> char option" where
  "simple_escape e =
     (if e = CHR 0x22 then Some (CHR 0x22)
      else if e = CHR 0x5C then Some (CHR 0x5C)
      else if e = CHR ''/'' then Some (CHR ''/'')
      else if e = CHR ''b'' then Some (CHR 0x08)
      else if e = CHR ''f'' then Some (CHR 0x0C)
      else if e = CHR ''n'' then Some (CHR 0x0A)
      else if e = CHR ''r'' then Some (CHR 0x0D)
      else if e = CHR ''t'' then Some (CHR 0x09)
      else None)"

text \<open>A string literal after its opening quote: the text it denotes and what follows
  the closing quote.\<close>

fun lex_string :: "string \<Rightarrow> string \<Rightarrow> (string \<times> string) option" where
  "lex_string acc [] = None"
| "lex_string acc (c # cs) =
     (if c = CHR 0x22 then Some (rev acc, cs)
      else if c = CHR 0x5C
      then (case cs of
              [] \<Rightarrow> None
            | e # cs' \<Rightarrow>
                if e = CHR ''u''
                then (case unicode_escape (take 4 cs') of
                        Some u \<Rightarrow> lex_string (u # acc) (drop 4 cs')
                      | None \<Rightarrow> None)
                else (case simple_escape e of
                        Some u \<Rightarrow> lex_string (u # acc) cs'
                      | None \<Rightarrow> None))
      else if (of_char c :: nat) < 32 then None
      else lex_string (c # acc) cs)"

text \<open>A number literal at the front of the text:
  \<^verbatim>\<open>-?(0|[1-9][0-9]*)(\.[0-9]+)?([eE][+-]?[0-9]+)?\<close>.\<close>

definition lex_number :: "string \<Rightarrow> (string \<times> string) option" where
  "lex_number s =
     (let sign = (if starts_with ''-'' s then ''-'' else []);
          r0 = drop (length sign) s;
          ip = (if starts_with ''0'' r0 then ''0'' else takeWhile is_digit r0);
          r1 = drop (length ip) r0;
          fd = (if starts_with ''.'' r1 then takeWhile is_digit (tl r1) else []);
          fp = (if starts_with ''.'' r1 then CHR ''.'' # fd else []);
          r2 = drop (length fp) r1;
          has_exp = (r2 \<noteq> [] \<and> (hd r2 = CHR ''e'' \<or> hd r2 = CHR ''E''));
          r3 = (if has_exp then tl r2 else r2);
          es = (if has_exp \<and> r3 \<noteq> [] \<and> (hd r3 = CHR ''+'' \<or> hd r3 = CHR ''-'')
                then [hd r3] else []);
          ed = (if has_exp then takeWhile is_digit (drop (length es) r3) else []);
          ep = (if has_exp then hd r2 # es @ ed else []);
          r4 = drop (length ep) r2
      in if ip = [] \<or> (starts_with ''.'' r1 \<and> fd = []) \<or> (has_exp \<and> ed = []) then None
         else Some (sign @ ip @ fp @ ep, r4))"

definition json_ws :: "char \<Rightarrow> bool" where
  "json_ws c = (of_char c \<in> {9, 10, 13, 32 :: nat})"

fun lex :: "string \<Rightarrow> token list option" where
  "lex [] = Some []"
| "lex (c # cs) =
     (if json_ws c then lex cs
      else if c = CHR ''{'' then map_option (Cons TLBrace) (lex cs)
      else if c = CHR ''}'' then map_option (Cons TRBrace) (lex cs)
      else if c = CHR ''['' then map_option (Cons TLBracket) (lex cs)
      else if c = CHR '']'' then map_option (Cons TRBracket) (lex cs)
      else if c = CHR '':'' then map_option (Cons TColon) (lex cs)
      else if c = CHR '','' then map_option (Cons TComma) (lex cs)
      else if c = CHR 0x22
      then (case lex_string [] cs of
              Some (s, rest) \<Rightarrow>
                if length rest \<le> length cs then map_option (Cons (TString s)) (lex rest)
                else None
            | None \<Rightarrow> None)
      else if c = CHR ''-'' \<or> is_digit c
      then (case lex_number (c # cs) of
              Some (n, rest) \<Rightarrow>
                if length rest \<le> length cs then map_option (Cons (TNumber n)) (lex rest)
                else None
            | None \<Rightarrow> None)
      else if starts_with ''true'' (c # cs) then map_option (Cons TTrue) (lex (drop 3 cs))
      else if starts_with ''false'' (c # cs) then map_option (Cons TFalse) (lex (drop 4 cs))
      else if starts_with ''null'' (c # cs) then map_option (Cons TNull) (lex (drop 3 cs))
      else None)"

fun parse_value :: "token list \<Rightarrow> (jsval \<times> token list) option"
  and parse_elements :: "jsval list \<Rightarrow> token list \<Rightarrow> (jsval \<times> token list) option"
  and parse_members :: "(string \<times> jsval) list \<Rightarrow> token list \<Rightarrow> (jsval \<times> token list) option"
  where
  "parse_value [] = None"
| "parse_value (t # ts) =
     (case t of
        TString s \<Rightarrow> Some (JStr s, ts)
      | TNumber n \<Rightarrow> Some (JNum n, ts)
      | TTrue \<Rightarrow> Some (JBool True, ts)
      | TFalse \<Rightarrow> Some (JBool False, ts)
      | TNull \<Rightarrow> Some (JNull, ts)
      | TLBracket \<Rightarrow>
          (case ts of
             TRBracket # ts' \<Rightarrow> Some (JArr [], ts')
           | _ \<Rightarrow> parse_elements [] ts)
      | TLBrace \<Rightarrow>
          (case ts of
             TRBrace # ts' \<Rightarrow> Some (JObj [], ts')
           | _ \<Rightarrow> parse_members [] ts)
      | _ \<Rightarrow> None)"
| "parse_elements acc ts =
     (case parse_value ts of
        None \<Rightarrow> None
      | Some (v, rest) \<Rightarrow>
          if length rest < length ts
          then (case rest of
                  TComma # rest' \<Rightarrow> parse_elements (v # acc) rest'
                | TRBracket # rest' \<Rightarrow> Some (JArr (rev (v # acc)), rest')
                | _ \<Rightarrow> None)
          else None)"
| "parse_members acc ts =
     (case ts of
        TString k # TColon # ts' \<Rightarrow>
          (case parse_value ts' of
             None \<Rightarrow> None
           | Some (v, rest) \<Rightarrow>
               if length rest < length ts'
               then (case rest of
                       TComma # rest' \<Rightarrow> parse_members ((k, v) # acc) rest'
                     | TRBrace # rest' \<Rightarrow> Some (JObj (rev ((k, v) # acc)), rest')
                     | _ \<Rightarrow> None)
               else None)
      | _ \<Rightarrow> None)"

definition json_parse :: "string \<Rightarrow> js_error + jsval" where
  "json_parse s =
     (case lex s of
        None \<Rightarrow> Inl SyntaxError
      | Some ts \<Rightarrow>
          (case parse_value ts of
             Some (v, []) \<Rightarrow> Inr v
           | _ \<Rightarrow> Inl SyntaxError))"

definition days_from_civil :: "int \<Rightarrow> int \<Rightarrow> int \<Rightarrow> int" where
  "days_from_civil y0 m d =
     (let y = (if m \<le> 2 then y0 - 1 else y0);
          era = y div 400;
          yoe = y - era * 400;
          doy = (153 * (if m > 2 then m - 3 else m + 9) + 2) div 5 + d - 1;
          doe = yoe * 365 + yoe div 4 - yoe div 100 + doy
      in era * 146097 + doe - 719468)"

definition decimal_value :: "string \<Rightarrow> int" where
  "decimal_value ds = foldl (\<lambda>n c. 10 * n + (int (of_char c) - 48)) 0 ds"

text \<open>\<^verbatim>\<open>new Date(v)\<close> of the example host: UTC midnight of the day for a string
  \<^verbatim>\<open>YYYY-MM-DD\<close> that names a calendar day, an Invalid Date otherwise.\<close>

definition iso_date :: "jsval \<Rightarrow> js_error + int option" where
  "iso_date v =
     (case v of
        JStr s \<Rightarrow>
          (if length s = 10 \<and> s ! 4 = CHR ''-'' \<and> s ! 7 = CHR ''-''
              \<and> list_all is_digit (take 4 s) \<and> list_all is_digit (take 2 (drop 5 s))
              \<and> list_all is_digit (drop 8 s)
           then (let y = decimal_value (take 4 s);
                     m = decimal_value (take 2 (drop 5 s));
                     d = decimal_value (drop 8 s)
                 in if 1 \<le> m \<and> m \<le> 12 \<and> 1 \<le> d
                       \<and> civil_from_days (days_from_civil y m d) = (y, m, d)
                    then Inr (Some (days_from_civil y m d * 86400000))
                    else Inr None)
           else Inr None)
      | _ \<Rightarrow> Inr None)"

definition example_host :: js_host where
  "example_host =
     \<lparr> JSON_parse = json_parse,
       Date_new = iso_date,
       Number_truthy = (\<lambda>n. \<exists>c \<in> set (takeWhile (\<lambda>c. c \<noteq> CHR ''e'' \<and> c \<noteq> CHR ''E'') n).
                              is_digit c \<and> c \<noteq> CHR ''0''),
       Number_toString = (\<lambda>n. n) \<rparr>"

subsection \<open>The task store\<close>

text \<open>Modelled from the spec: the Task Store. The Mongoose model \<^verbatim>\<open>Task\<close> is declared in
  \<^verbatim>\<open>models/Task\<close>, which is not among the sources; the spec describes it as persisting
  task records and offering find and update by identifier, scoped to the owning user, a
  due date being a calendar date when present. A document has the fields the spec
  lists. There is one document per identifier, and an identifier is a text. The handler
  passes whatever value the request holds as \<^verbatim>\<open>taskId\<close>: \<open>query_error\<close> says on which
  values the driver throws (an identifier it cannot cast, a lost connection) and gives
  the message of the error; a value that is no text and on which the driver does not
  throw names no document. \<open>cast_priority\<close> is the driver's conversion of a priority that
  is no text.\<close>

record TaskDoc =
  doc_id :: string
  doc_userId :: string
  doc_title :: string
  doc_description :: "string option"
  doc_priority :: string
  doc_status :: TaskStatus
  doc_dueDate :: "int option"
  doc_completedAt :: "int option"
  doc_points :: int
  doc_tags :: "string list"
  doc_createdAt :: int
  doc_updatedAt :: int

record TaskStore =
  docs :: "string \<rightharpoonup> TaskDoc"
  query_error :: "jsval \<Rightarrow> string option"
  cast_priority :: "jsval \<Rightarrow> js_error + string"

text \<open>\<^verbatim>\<open>updateData\<close>: the keys that are set. A due date that is set is a \<^verbatim>\<open>Date\<close>
  object, which may be an Invalid Date (\<open>Some None\<close>); a priority that is set is the
  value of the request.\<close>

record UpdateData =
  upd_dueDate :: "int option option"
  upd_priority :: "jsval option"

text \<open>The document a value names.\<close>

definition document_of :: "TaskStore \<Rightarrow> jsval \<Rightarrow> TaskDoc option" where
  "document_of st v = (case v of JStr tid \<Rightarrow> docs st tid | _ \<Rightarrow> None)"

text \<open>\<^verbatim>\<open>Task.findOne({ _id: taskId, userId: userId })\<close>.\<close>

definition Task_findOne :: "TaskStore \<Rightarrow> jsval \<Rightarrow> string \<Rightarrow> js_error + TaskDoc option" where
  "Task_findOne st v uid =
     (case query_error st v of
        Some msg \<Rightarrow> Inl (Error msg)
      | None \<Rightarrow>
          Inr (case document_of st v of
                 Some t \<Rightarrow> if doc_userId t = uid then Some t else None
               | None \<Rightarrow> None))"

text \<open>The fields an update sets, once the store has accepted them.\<close>

definition apply_update :: "int option \<Rightarrow> string option \<Rightarrow> TaskDoc \<Rightarrow> TaskDoc" where
  "apply_update due p t =
     (let t1 = (case due of Some ms \<Rightarrow> t\<lparr> doc_dueDate := Some ms \<rparr> | None \<Rightarrow> t)
      in case p of Some q \<Rightarrow> t1\<lparr> doc_priority := q \<rparr> | None \<Rightarrow> t1)"

text \<open>An Invalid Date is not a calendar date and the update is refused with an error.\<close>

definition accepted_dueDate :: "UpdateData \<Rightarrow> js_error + int option" where
  "accepted_dueDate u =
     (case upd_dueDate u of
        Some None \<Rightarrow> Inl (Error ''Cast to date failed'')
      | Some (Some ms) \<Rightarrow> Inr (Some ms)
      | None \<Rightarrow> Inr None)"

definition accepted_priority :: "TaskStore \<Rightarrow> UpdateData \<Rightarrow> js_error + string option" where
  "accepted_priority st u =
     (case upd_priority u of
        Some (JStr p) \<Rightarrow> Inr (Some p)
      | Some v \<Rightarrow> bind_err (cast_priority st v) (\<lambda>p. Inr (Some p))
      | None \<Rightarrow> Inr None)"

text \<open>\<^verbatim>\<open>Task.findByIdAndUpdate(taskId, updateData, { new: true })\<close>: the fields that
  are set replace those of the document, which is returned as updated; there is no
  document to return when the identifier names none.\<close>

definition Task_findByIdAndUpdate ::
  "TaskStore \<Rightarrow> jsval \<Rightarrow> UpdateData \<Rightarrow> js_error + (TaskStore \<times> TaskDoc option)" where
  "Task_findByIdAndUpdate st v u =
     (case query_error st v of
        Some msg \<Rightarrow> Inl (Error msg)
      | None \<Rightarrow>
          bind_err (accepted_dueDate u) (\<lambda>due.
          bind_err (accepted_priority st u) (\<lambda>p.
          Inr (case v of
                 JStr tid \<Rightarrow>
                   (case docs st tid of
                      Some t \<Rightarrow> (st\<lparr> docs := (docs st)(tid \<mapsto> apply_update due p t) \<rparr>,
                                 Some (apply_update due p t))
                    | None \<Rightarrow> (st, None))
               | _ \<Rightarrow> (st, None)))))"

subsection \<open>The Apply Endpoint\<close>

text \<open>An entry of \<^verbatim>\<open>req.body.recommendations\<close> is whatever value the request holds at
  that place. \<^verbatim>\<open>rec.taskId\<close>, \<^verbatim>\<open>rec.suggestedDueDate\<close> and \<^verbatim>\<open>rec.suggestedPriority\<close> are
  property reads, and \<^verbatim>\<open>${rec.taskId}\<close> in a template is the conversion to a string.
  An entry has no getters, so reading a property twice gives the same value.\<close>

text \<open>The construction of \<^verbatim>\<open>updateData\<close>.\<close>

definition build_updateData :: "js_host \<Rightarrow> jsval \<Rightarrow> js_error + UpdateData" where
  "build_updateData h rec =
     bind_err (get_prop rec ''suggestedDueDate'') (\<lambda>sd.
     bind_err (if truthy h sd
               then bind_err (Date_new h sd) (\<lambda>d. Inr (Some d))
               else Inr None) (\<lambda>due.
     bind_err (get_prop rec ''suggestedPriority'') (\<lambda>sp.
     Inr \<lparr> upd_dueDate = due,
           upd_priority = (if truthy h sp then Some sp
                           else None) \<rparr>)))"

text \<open>\<^verbatim>\<open>Object.keys(updateData).length > 0\<close>.\<close>

definition has_keys :: "UpdateData \<Rightarrow> bool" where
  "has_keys u = (upd_dueDate u \<noteq> None \<or> upd_priority u \<noteq> None)"

text \<open>The state of the loop: the store, \<^verbatim>\<open>updatedTasks\<close> and \<^verbatim>\<open>errors_list\<close>.\<close>

record ApplyState =
  store :: TaskStore
  updatedTasks :: "TaskDoc option list"
  errors_list :: "string list"

text \<open>The body of the inner \<^verbatim>\<open>try\<close> block for one entry.\<close>

definition apply_try :: "js_host \<Rightarrow> string \<Rightarrow> ApplyState \<Rightarrow> jsval \<Rightarrow> js_error + ApplyState" where
  "apply_try h userId s rec =
     bind_err (get_prop rec ''taskId'') (\<lambda>v.
     bind_err (Task_findOne (store s) v userId) (\<lambda>task.
     case task of
       None \<Rightarrow>
         bind_err (ToString h v) (\<lambda>shown.
         Inr (s\<lparr> errors_list := errors_list s @ [''Task '' @ shown @ '' not found''] \<rparr>))
     | Some t \<Rightarrow>
         bind_err (build_updateData h rec) (\<lambda>updateData.
         if has_keys updateData
         then bind_err (Task_findByIdAndUpdate (store s) v updateData)
                (\<lambda>(st', updatedTask).
                   Inr (s\<lparr> store := st', updatedTasks := updatedTasks s @ [updatedTask] \<rparr>))
         else Inr s)))"

text \<open>The text that the inner \<^verbatim>\<open>catch\<close> pushes. Building it reads \<^verbatim>\<open>rec.taskId\<close> and
  converts it to a string, and either can throw.\<close>

definition failure_text :: "js_host \<Rightarrow> jsval \<Rightarrow> js_error \<Rightarrow> js_error + string" where
  "failure_text h rec taskError =
     bind_err (get_prop rec ''taskId'') (\<lambda>v.
     bind_err (ToString h v) (\<lambda>shown.
     Inr (''Failed to update task '' @ shown @ '': '' @ error_message taskError)))"

text \<open>One turn of the loop, with the inner \<^verbatim>\<open>catch\<close>. The state the handler sees is the
  one before the entry: the pushes are the last statements of their paths, and the
  store call is the last one that can throw. The result is the state after the turn
  and the exception that leaves the loop, if the handler itself throws.\<close>

definition apply_one ::
  "js_host \<Rightarrow> string \<Rightarrow> ApplyState \<Rightarrow> jsval \<Rightarrow> ApplyState \<times> js_error option" where
  "apply_one h userId s rec =
     (case apply_try h userId s rec of
        Inr s' \<Rightarrow> (s', None)
      | Inl taskError \<Rightarrow>
          (case failure_text h rec taskError of
             Inr line \<Rightarrow> (s\<lparr> errors_list := errors_list s @ [line] \<rparr>, None)
           | Inl e \<Rightarrow> (s, Some e)))"

text \<open>The \<^verbatim>\<open>for\<close> loop: an exception that leaves a turn ends it.\<close>

fun apply_loop ::
  "js_host \<Rightarrow> string \<Rightarrow> ApplyState \<Rightarrow> jsval list \<Rightarrow> ApplyState \<times> js_error option" where
  "apply_loop h userId s [] = (s, None)"
| "apply_loop h userId s (rec # recs) =
     (case apply_one h userId s rec of
        (s', None) \<Rightarrow> apply_loop h userId s' recs
      | (s', Some e) \<Rightarrow> (s', Some e))"

text \<open>The responses of the handler: 400 when validation fails, 401 without a user, the
  report with \<^verbatim>\<open>success: true\<close>, and 500 with the message of the exception from the
  outer \<^verbatim>\<open>catch\<close>.\<close>

datatype apply_response =
    BadRequest
  | Unauthorized
  | Applied (updated: nat) (errors: "string list option") (message: string)
  | ServerError string

text \<open>The handler. \<open>body\<close> is the value of \<^verbatim>\<open>req.body.recommendations\<close>
  (\<^verbatim>\<open>undefined\<close> when the body has none) and \<open>user\<close> the identifier of the authenticated
  user. The first validation chain is \<^verbatim>\<open>isArray()\<close>. The second,
  \<^verbatim>\<open>body('recommendations.*.taskId').notEmpty()\<close>, is evaluated by the validation
  library: \<open>taskIds_given\<close> is its verdict on the elements of the array. The result is
  the response and the store after the request.\<close>

definition applyWorkloadOptimization ::
  "js_host \<Rightarrow> (jsval list \<Rightarrow> bool) \<Rightarrow> TaskStore \<Rightarrow> string option \<Rightarrow> jsval
     \<Rightarrow> apply_response \<times> TaskStore" where
  "applyWorkloadOptimization h taskIds_given st user body =
     (case body of
        JArr recs \<Rightarrow>
          if \<not> taskIds_given recs then (BadRequest, st)
          else (case user of
                  None \<Rightarrow> (Unauthorized, st)
                | Some userId \<Rightarrow>
                    (case apply_loop h userId
                            \<lparr> store = st, updatedTasks = [], errors_list = [] \<rparr> recs of
                       (s, None) \<Rightarrow>
                         (Applied (length (updatedTasks s))
                            (if length (errors_list s) > 0 then Some (errors_list s) else None)
                            (''Successfully updated ''
                               @ int_to_string (int (length (updatedTasks s))) @ '' task(s)''),
                          store s)
                     | (s, Some e) \<Rightarrow> (ServerError (error_message e), store s)))
      | _ \<Rightarrow> (BadRequest, st))"

text \<open>The elements of the array of a request, none when it holds no array.\<close>

definition entries :: "jsval \<Rightarrow> jsval list" where
  "entries body = (case body of JArr recs \<Rightarrow> recs | _ \<Rightarrow> [])"

text \<open>An entry supplies a member when reading it gives a truthy value.\<close>

definition supplies :: "js_host \<Rightarrow> jsval \<Rightarrow> string \<Rightarrow> bool" where
  "supplies h rec k = (case get_prop rec k of Inr v \<Rightarrow> truthy h v | Inl e \<Rightarrow> False)"

text \<open>An entry names the task \<open>tid\<close> when its \<^verbatim>\<open>taskId\<close> is that text.\<close>

definition names :: "jsval \<Rightarrow> string \<Rightarrow> bool" where
  "names rec tid = (get_prop rec ''taskId'' = Inr (JStr tid))"

text \<open>The \<^verbatim>\<open>taskId\<close> of an entry has a string form: the texts of the per-item errors
  can be built.\<close>

definition printable :: "js_host \<Rightarrow> jsval \<Rightarrow> bool" where
  "printable h rec =
     (case get_prop rec ''taskId'' of
        Inr v \<Rightarrow> (case ToString h v of Inr shown \<Rightarrow> True | Inl e \<Rightarrow> False)
      | Inl e \<Rightarrow> False)"

text \<open>An entry processed on its own against a store: one turn of the loop from the
  initial state. It is applied when that turn writes to the store, which is when it
  adds to \<^verbatim>\<open>updatedTasks\<close>.\<close>

definition alone :: "js_host \<Rightarrow> string \<Rightarrow> TaskStore \<Rightarrow> jsval \<Rightarrow> ApplyState" where
  "alone h userId st rec =
     fst (apply_one h userId \<lparr> store = st, updatedTasks = [], errors_list = [] \<rparr> rec)"

definition applied :: "js_host \<Rightarrow> string \<Rightarrow> TaskStore \<Rightarrow> jsval \<Rightarrow> bool" where
  "applied h userId st rec = (updatedTasks (alone h userId st rec) \<noteq> [])"

text \<open>Two stores that treat identifiers and priorities alike and give every identifier
  the same owner.\<close>

definition same_owners :: "TaskStore \<Rightarrow> TaskStore \<Rightarrow> bool" where
  "same_owners st st' =
     (query_error st' = query_error st \<and> cast_priority st' = cast_priority st
      \<and> (\<forall>tid. map_option doc_userId (docs st' tid) = map_option doc_userId (docs st tid)))"

subsection \<open>The order the spec describes\<close>




subsection \<open>Example data\<close>

text \<open>The tasks of the scenario of the spec: A and B urgent and due on 2024-01-01
  (time value 1704067200000), C low without a due date; and a completed task D.\<close>

definition task_A :: TaskContext where
  "task_A = \<lparr> id' = ''A'', title = ''Task A'', description = None, priority = URGENT,
     status = PENDING, taskTime = None, dueDate = Some 1704067200000, completedAt = None,
     points = 25, tags = [], createdAt = 0, updatedAt = 0, isOverdue = None \<rparr>"

definition task_B :: TaskContext where
  "task_B = \<lparr> id' = ''B'', title = ''Task B'', description = None, priority = URGENT,
     status = IN_PROGRESS, taskTime = None, dueDate = Some 1704067200000, completedAt = None,
     points = 25, tags = [], createdAt = 0, updatedAt = 0, isOverdue = None \<rparr>"

definition task_C :: TaskContext where
  "task_C = \<lparr> id' = ''C'', title = ''Task C'', description = None, priority = LOW,
     status = PENDING, taskTime = None, dueDate = None, completedAt = None,
     points = 10, tags = [], createdAt = 0, updatedAt = 0, isOverdue = None \<rparr>"

definition task_D :: TaskContext where
  "task_D = \<lparr> id' = ''D'', title = ''Task D'', description = None, priority = HIGH,
     status = COMPLETED, taskTime = None, dueDate = None, completedAt = Some 1704067200000,
     points = 20, tags = [], createdAt = 0, updatedAt = 0, isOverdue = None \<rparr>"


text \<open>A gateway that is out of service.\<close>

definition failing_gateway :: gateway where
  "failing_gateway call = Inl (Error ''No response from OpenRouter AI model'')"

text \<open>Replies of the model: one without JSON, one that is the bare JSON object the
  prompt asks for, and one with the object in a fenced block, naming a task C of the
  candidates and a task Z that is not among them.\<close>

definition reply_none :: string where
  "reply_none = ''Sorry, I cannot produce a plan today.''"

definition reply_plain :: string where
  \<open>reply_plain = ''{"recommendations":[{"taskId":"C","suggestedPriority":"high"}]}''\<close>



definition rec_C :: TaskRecommendation where
  "rec_C = \<lparr> taskId = ''C'', taskTitle = JStr ''Task C'', currentDueDate = None,
     suggestedDueDate = None, currentPriority = ''low'', suggestedPriority = Some ''high'',
     reason = JStr ''Balance workload distribution'' \<rparr>"

definition entry_C :: jsval where
  "entry_C = JObj [(''taskId'', JStr ''C''), (''suggestedPriority'', JStr ''high'')]"


text \<open>A store with a task T1 of user u1 and a task T2 of user u2, whose driver throws
  on an identifier that is no text and on a priority that is no text. Entries of a
  request of u1: a priority for T1, a date for T1, an unknown identifier, the task of
  the other user, an entry for T1 with nothing to apply, an entry with an empty
  identifier, one whose identifier is a number, and one whose identifier is an object
  with a member \<^verbatim>\<open>toString\<close>.\<close>

definition doc_T1 :: TaskDoc where
  "doc_T1 = \<lparr> doc_id = ''T1'', doc_userId = ''u1'', doc_title = ''Write report'',
     doc_description = None, doc_priority = ''medium'', doc_status = PENDING,
     doc_dueDate = Some 1704067200000, doc_completedAt = None, doc_points = 15,
     doc_tags = [''work''], doc_createdAt = 0, doc_updatedAt = 0 \<rparr>"

definition doc_T2 :: TaskDoc where
  "doc_T2 = \<lparr> doc_id = ''T2'', doc_userId = ''u2'', doc_title = ''Book flight'',
     doc_description = None, doc_priority = ''low'', doc_status = PENDING,
     doc_dueDate = None, doc_completedAt = None, doc_points = 10,
     doc_tags = [], doc_createdAt = 0, doc_updatedAt = 0 \<rparr>"

fun text_only :: "jsval \<Rightarrow> string option" where
  "text_only (JStr s) = None"
| "text_only v = Some ''Cast to ObjectId failed''"

definition example_store :: TaskStore where
  "example_store =
     \<lparr> docs = [''T1'' \<mapsto> doc_T1, ''T2'' \<mapsto> doc_T2],
       query_error = text_only,
       cast_priority = (\<lambda>v. Inl (Error ''Cast to string failed'')) \<rparr>"

definition item_priority :: jsval where
  "item_priority = JObj [(''taskId'', JStr ''T1''), (''suggestedPriority'', JStr ''high'')]"

definition item_date :: jsval where
  "item_date = JObj [(''taskId'', JStr ''T1''), (''suggestedDueDate'', JStr ''2024-01-05'')]"

definition item_missing :: jsval where
  "item_missing = JObj [(''taskId'', JStr ''T9''), (''suggestedPriority'', JStr ''low'')]"

definition item_foreign :: jsval where
  "item_foreign = JObj [(''taskId'', JStr ''T2''), (''suggestedDueDate'', JStr ''2024-01-05'')]"

definition item_nothing :: jsval where
  "item_nothing = JObj [(''taskId'', JStr ''T1''), (''suggestedDueDate'', JStr [])]"

definition item_no_id :: jsval where
  "item_no_id = JObj [(''taskId'', JStr []), (''suggestedPriority'', JStr ''high'')]"

definition item_number :: jsval where
  "item_number = JObj [(''taskId'', JNum ''5''), (''suggestedPriority'', JStr ''high'')]"

definition item_odd_id :: jsval where
  "item_odd_id = JObj [(''taskId'', JObj [(''toString'', JNum ''1'')]),
     (''suggestedPriority'', JStr ''high'')]"

definition start :: ApplyState where
  "start = \<lparr> store = example_store, updatedTasks = [], errors_list = [] \<rparr>"

text \<open>A verdict of the second validation chain, for the examples. \<^verbatim>\<open>notEmpty\<close> tests
  the string form that the validation library gives a value: it rejects a \<^verbatim>\<open>taskId\<close>
  that is absent, \<^verbatim>\<open>null\<close> or the empty string, and accepts a text that is not
  empty, a number and a boolean. For an object the library takes \<^verbatim>\<open>[object Object]\<close>
  or, when the object has a truthy member \<^verbatim>\<open>toString\<close> that is no function, the list
  of its member names, neither of which is empty. The other values are rejected
  here.\<close>

fun taskId_notEmpty :: "jsval \<Rightarrow> bool" where
  "taskId_notEmpty (JObj kvs) =
     (case map_of (rev kvs) ''taskId'' of
        Some (JStr s) \<Rightarrow> s \<noteq> []
      | Some (JNum n) \<Rightarrow> True
      | Some (JBool b) \<Rightarrow> True
      | Some (JObj ms) \<Rightarrow>
          (case map_of (rev ms) ''toString'' of
             Some v \<Rightarrow> truthy example_host v
           | None \<Rightarrow> True)
      | _ \<Rightarrow> False)"
| "taskId_notEmpty v = False"

definition example_validator :: "jsval list \<Rightarrow> bool" where
  "example_validator recs = list_all taskId_notEmpty recs"

text \<open>Replies in a fenced block about task A (urgent, due 2024-01-01) and task C (low,
  no due date), with and without an echoed \<^verbatim>\<open>currentPriority\<close>.\<close>

definition reply_echo_low :: string where
  \<open>reply_echo_low = ''```{"recommendations":[{"taskId":"A","suggestedDueDate":"2024-01-01","currentPriority":"low","suggestedPriority":"urgent"}]}```''\<close>

definition reply_no_echo :: string where
  \<open>reply_no_echo = ''```{"recommendations":[{"taskId":"A","suggestedDueDate":"2024-01-01","suggestedPriority":"urgent"}]}```''\<close>

definition reply_echo_urgent :: string where
  \<open>reply_echo_urgent = ''```{"recommendations":[{"taskId":"C","currentPriority":"urgent","suggestedDueDate":"2024-01-05"}]}```''\<close>

definition reply_echo_high :: string where
  \<open>reply_echo_high = ''```{"recommendations":[{"taskId":"C","currentPriority":"high","suggestedPriority":"high"}]}```''\<close>

section \<open>Candidate selection and the empty case\<close>



















lemma example_open:
  "is_open task_A" "is_open task_B" "is_open task_C" "\<not> is_open task_D"
  by (simp_all add: is_open_def task_A_def task_B_def task_C_def task_D_def)








text \<open>Claim C7. When no candidate is left after filtering and truncation, the result is
  the fixed "nothing to optimize" value and the list of gateway calls is empty: the
  Model Gateway is not invoked, whatever it would have answered.\<close>

theorem C7_empty_short_circuit:
  "pendingTasks_of options tasks = [] \<Longrightarrow>
   optimizeWorkload h chatWithOrganizer (Inr tasks) userId options =
     (Inr \<lparr> analysis = ''No pending tasks found to optimize.'',
            recommendations = [], summary = [] \<rparr>, [])"
  by (simp add: optimizeWorkload_def no_pending_def)

theorem C7_witness:
  "pendingTasks_of None [task_D] = []
   \<and> optimizeWorkload example_host failing_gateway (Inr [task_D]) ''u1'' None =
       (Inr \<lparr> analysis = ''No pending tasks found to optimize.'',
              recommendations = [], summary = [] \<rparr>, [])"
proof -
  have e: "pendingTasks_of None [task_D] = []"
    by (simp add: pendingTasks_of_def example_open slice0_def)
  show ?thesis
    using C7_empty_short_circuit [OF e, of example_host failing_gateway "''u1''"] e by simp
qed

section \<open>Extraction of recommendations\<close>

lemma bind_err_simps [simp]:
  "bind_err (Inl e) f = Inl e" "bind_err (Inr x) f = f x"
  by (simp_all add: bind_err_def)

lemma bind_err_Inr: "(bind_err m f = Inr y) = (\<exists>x. m = Inr x \<and> f x = Inr y)"
  by (cases m) simp_all

lemma first_match_Some: "first_match m s = Some r \<Longrightarrow> \<exists>t. suffix t s \<and> m t = Some r"
proof (induction s)
  case Nil
  then show ?case by auto
next
  case (Cons c cs)
  show ?case
  proof (cases "m (c # cs)")
    case None
    with Cons obtain t where "suffix t cs" "m t = Some r" by auto
    then show ?thesis by (auto intro: suffix_ConsI)
  next
    case (Some a)
    with Cons.prems show ?thesis by auto
  qed
qed

lemma first_match_None: "first_match m s = None \<Longrightarrow> suffix t s \<Longrightarrow> m t = None"
proof (induction s)
  case Nil
  then show ?case by simp
next
  case (Cons c cs)
  then show ?case by (auto simp: suffix_Cons split: option.splits)
qed

lemma codeBlock_body_group:
  "codeBlock_body pre r = Some (m0, m1) \<Longrightarrow> m1 \<noteq> []"
  by (auto simp: codeBlock_body_def Let_def split: if_splits option.splits)

lemma codeBlockPattern_group: "codeBlockPattern ai = Some (m0, m1) \<Longrightarrow> m1 \<noteq> []"
  by (auto simp: codeBlockPattern_def codeBlock_at_def Let_def
      dest!: first_match_Some dest: codeBlock_body_group split: if_splits option.splits)

lemma jsonObjectPattern_nonempty: "jsonObjectPattern ai = Some m \<Longrightarrow> m \<noteq> []"
  by (auto simp: jsonObjectPattern_def jsonObject_at_def
      dest!: first_match_Some split: if_splits option.splits)

lemma anyJsonPattern_nonempty: "anyJsonPattern ai = Some m \<Longrightarrow> m \<noteq> []"
  by (auto simp: anyJsonPattern_def anyJson_at_def dest!: first_match_Some split: if_splits)

text \<open>The order of the attempts: a pattern is tried only when those before it found no
  match, and the first match is the candidate.\<close>

lemma find_json_order:
  "find_json ai =
     (case codeBlockPattern ai of
        Some (m0, m1) \<Rightarrow> (m1, Some m0)
      | None \<Rightarrow>
          (case jsonObjectPattern ai of
             Some m \<Rightarrow> (m, Some m)
           | None \<Rightarrow>
               (case anyJsonPattern ai of
                  Some m \<Rightarrow> (m, Some m)
                | None \<Rightarrow> ([], None))))"
  by (auto simp: find_json_def Let_def split: option.splits
      dest: codeBlockPattern_group jsonObjectPattern_nonempty anyJsonPattern_nonempty)

lemma extract_try_no_match:
  "fst (find_json ai) = [] \<Longrightarrow> extract_try h ai ts = Inr (degraded ai)"
  by (cases "find_json ai") (simp add: extract_try_def)

lemma extract_try_parse_error:
  "fst (find_json ai) \<noteq> [] \<Longrightarrow> JSON_parse h (cleanJson (fst (find_json ai))) = Inl e \<Longrightarrow>
   extract_try h ai ts = Inl e"
  by (cases "find_json ai") (simp add: extract_try_def)

lemma extractRecommendations_error:
  "extract_try h ai ts = Inl e \<Longrightarrow> extractRecommendations h ai ts = degraded ai"
  by (simp add: extractRecommendations_def)

lemma sublist_trans: "sublist xs ys \<Longrightarrow> sublist ys zs \<Longrightarrow> sublist xs zs"
  by (rule sublist_order.order.trans)

lemma sublist_rev_dropWhile_rev: "sublist (rev (dropWhile P (rev xs))) xs"
  by (simp add: sublist_rev_left)

lemma sublist_trim: "sublist (trim s) s"
  unfolding trim_def
  by (rule sublist_trans [OF sublist_rev_dropWhile_rev]) simp

lemma sublist_strip_json_fence: "sublist (strip_json_fence s) s"
  by (auto simp: strip_json_fence_def intro: sublist_trans [OF sublist_dropWhile])

lemma sublist_strip_fence: "sublist (strip_fence s) s"
  by (auto simp: strip_fence_def intro: sublist_trans [OF sublist_dropWhile])

lemma sublist_strip_closing_fence: "sublist (strip_closing_fence s) s"
proof -
  have "sublist (dropWhile is_space (drop 3 (rev s))) (rev s)"
    by (rule sublist_trans [OF sublist_dropWhile]) simp
  then show ?thesis
    by (simp add: strip_closing_fence_def sublist_rev_left)
qed

lemma sublist_cleanJson: "sublist (cleanJson s) s"
  unfolding cleanJson_def
  by (blast intro: sublist_trans sublist_strip_closing_fence sublist_strip_fence
      sublist_strip_json_fence sublist_trim)

lemma lazy_to_fenced_brace_prefix:
  "lazy_to_fenced_brace acc cs = Some (b, c) \<Longrightarrow> prefix b (rev acc @ cs)"
proof (induction cs arbitrary: acc)
  case Nil
  then show ?case by simp
next
  case (Cons x cs)
  show ?case
  proof (cases "x = CHR ''}'' \<and> starts_with fence (dropWhile is_space cs)")
    case True
    with Cons.prems have "b = rev acc @ [x]" by auto
    then show ?thesis by (simp add: prefix_def)
  next
    case False
    with Cons.prems have "lazy_to_fenced_brace (x # acc) cs = Some (b, c)" by auto
    from Cons.IH [OF this] show ?thesis by simp
  qed
qed

lemma lazy_to_brace_prefix: "lazy_to_brace acc cs = Some b \<Longrightarrow> prefix b (rev acc @ cs)"
proof (induction cs arbitrary: acc)
  case Nil
  then show ?case by simp
next
  case (Cons x cs)
  show ?case
  proof (cases "x = CHR ''}''")
    case True
    with Cons.prems have "b = rev acc @ [x]" by auto
    then show ?thesis by (simp add: prefix_def)
  next
    case False
    with Cons.prems have "lazy_to_brace (x # acc) cs = Some b" by auto
    from Cons.IH [OF this] show ?thesis by simp
  qed
qed

lemma starts_with_prefix: "starts_with p s = prefix p s"
  by (auto simp: starts_with_def prefix_def)
     (metis append_eq_conv_conj)

lemma lazy_to_key_prefix: "lazy_to_key acc cs = Some b \<Longrightarrow> prefix b (rev acc @ cs)"
proof (induction cs arbitrary: acc)
  case Nil
  then show ?case by simp
next
  case (Cons x cs)
  let ?k = recommendations_key
  show ?case
  proof (cases "starts_with ?k (x # cs)")
    case True
    then have k: "x # cs = ?k @ drop (length ?k) (x # cs)"
      by (metis append_take_drop_id starts_with_def)
    show ?thesis
    proof (cases "lazy_to_brace [] (drop (length ?k) (x # cs))")
      case None
      with True Cons.prems have "lazy_to_key (x # acc) cs = Some b" by simp
      from Cons.IH [OF this] show ?thesis by simp
    next
      case (Some t)
      with True Cons.prems have b: "b = rev acc @ ?k @ t" by simp
      from lazy_to_brace_prefix [OF Some] have "prefix t (drop (length ?k) (x # cs))"
        by simp
      then have "prefix (?k @ t) (?k @ drop (length ?k) (x # cs))" by simp
      with k have "prefix (?k @ t) (x # cs)" by simp
      with b show ?thesis by simp
    qed
  next
    case False
    with Cons.prems have "lazy_to_key (x # acc) cs = Some b" by simp
    from Cons.IH [OF this] show ?thesis by simp
  qed
qed

lemma codeBlock_body_sublist:
  assumes "codeBlock_body pre r = Some (m0, m1)"
  shows "sublist m1 r"
proof -
  let ?r' = "dropWhile is_space r"
  from assms obtain body closing where ne: "?r' \<noteq> []" and hd: "hd ?r' = CHR ''{''"
    and l: "lazy_to_fenced_brace [] (tl ?r') = Some (body, closing)"
    and m1: "m1 = CHR ''{'' # body"
    by (auto simp: codeBlock_body_def Let_def split: if_splits option.splits)
  from lazy_to_fenced_brace_prefix [OF l] have "prefix body (tl ?r')" by simp
  then have "prefix (CHR ''{'' # body) (CHR ''{'' # tl ?r')" by simp
  with ne hd m1 have "prefix m1 ?r'" by (cases ?r') auto
  then have "sublist m1 ?r'" by (rule prefix_imp_sublist)
  then show ?thesis by (rule sublist_trans) simp
qed

lemma codeBlock_at_sublist: "codeBlock_at s = Some (m0, m1) \<Longrightarrow> sublist m1 s"
proof -
  assume a: "codeBlock_at s = Some (m0, m1)"
  then consider "codeBlock_body (fence @ ''json'') (drop 4 (drop 3 s)) = Some (m0, m1)"
    | "codeBlock_body fence (drop 3 s) = Some (m0, m1)"
    by (auto simp: codeBlock_at_def Let_def split: if_splits option.splits)
  then show ?thesis
  proof cases
    case 1
    from codeBlock_body_sublist [OF 1] have "sublist m1 (drop 7 s)" by simp
    then show ?thesis by (rule sublist_trans) simp
  next
    case 2
    from codeBlock_body_sublist [OF 2] show ?thesis by (rule sublist_trans) simp
  qed
qed

lemma jsonObject_at_sublist: "jsonObject_at s = Some m \<Longrightarrow> sublist m s"
proof -
  assume a: "jsonObject_at s = Some m"
  then obtain t where ne: "s \<noteq> []" and hd: "hd s = CHR ''{''"
    and l: "lazy_to_key [] (tl s) = Some t" and m: "m = CHR ''{'' # t"
    by (auto simp: jsonObject_at_def split: if_splits option.splits)
  from lazy_to_key_prefix [OF l] have "prefix (CHR ''{'' # t) (CHR ''{'' # tl s)" by simp
  with ne hd m have "prefix m s" by (cases s) auto
  then show ?thesis by (rule prefix_imp_sublist)
qed

lemma anyJson_at_sublist: "anyJson_at s = Some m \<Longrightarrow> sublist m s"
proof -
  assume a: "anyJson_at s = Some m"
  then have ne: "s \<noteq> []" and hd: "hd s = CHR ''{''"
    and m: "m = CHR ''{'' # rev (dropWhile (\<lambda>c. c \<noteq> CHR ''}'') (rev (tl s)))"
    by (auto simp: anyJson_at_def split: if_splits)
  have "prefix (rev (dropWhile (\<lambda>c. c \<noteq> CHR ''}'') (rev (tl s)))) (tl s)"
  proof -
    have "rev (tl s) = takeWhile (\<lambda>c. c \<noteq> CHR ''}'') (rev (tl s))
            @ dropWhile (\<lambda>c. c \<noteq> CHR ''}'') (rev (tl s))" by simp
    then have "tl s = rev (dropWhile (\<lambda>c. c \<noteq> CHR ''}'') (rev (tl s)))
            @ rev (takeWhile (\<lambda>c. c \<noteq> CHR ''}'') (rev (tl s)))"
      by (metis rev_append rev_rev_ident)
    then show ?thesis by (rule prefixI)
  qed
  then have "prefix m (CHR ''{'' # tl s)" using m by simp
  with ne hd have "prefix m s" by (cases s) auto
  then show ?thesis by (rule prefix_imp_sublist)
qed

lemma first_match_sublist:
  assumes "first_match f s = Some r" and "\<And>t. f t = Some r \<Longrightarrow> sublist (g r) t"
  shows "sublist (g r) s"
proof -
  from first_match_Some [OF assms(1)] obtain t where "suffix t s" "f t = Some r" by blast
  with assms(2) show ?thesis by (blast intro: sublist_trans suffix_imp_sublist)
qed

text \<open>The candidate is a contiguous part of the reply, before and after cleaning.\<close>

lemma find_json_sublist: "sublist (fst (find_json ai)) ai"
proof -
  have 1: "sublist m1 ai" if "codeBlockPattern ai = Some (m0, m1)" for m0 m1
    using first_match_sublist [of codeBlock_at ai "(m0, m1)" snd] that
    by (auto simp: codeBlockPattern_def dest: codeBlock_at_sublist)
  have 2: "sublist m ai" if "jsonObjectPattern ai = Some m" for m
    using first_match_sublist [of jsonObject_at ai m "\<lambda>m. m"] that
    by (auto simp: jsonObjectPattern_def dest: jsonObject_at_sublist)
  have 3: "sublist m ai" if "anyJsonPattern ai = Some m" for m
    using first_match_sublist [of anyJson_at ai m "\<lambda>m. m"] that
    by (auto simp: anyJsonPattern_def dest: anyJson_at_sublist)
  show ?thesis
    by (auto simp: find_json_order split: option.splits dest: 1 2 3)
qed

lemma candidate_sublist: "sublist (cleanJson (fst (find_json ai))) ai"
  by (rule sublist_trans [OF sublist_cleanJson find_json_sublist])

lemma no_json_degrades:
  assumes "\<forall>s. sublist s ai \<longrightarrow> (\<exists>e. JSON_parse h s = Inl e)"
  shows "extractRecommendations h ai ts = degraded ai"
proof (cases "fst (find_json ai) = []")
  case True
  from extract_try_no_match [OF this, of h ts] show ?thesis
    by (simp add: extractRecommendations_def)
next
  case False
  from assms candidate_sublist [of ai] obtain e where
    "JSON_parse h (cleanJson (fst (find_json ai))) = Inl e" by blast
  from extractRecommendations_error [OF extract_try_parse_error [OF False this]]
  show ?thesis .
qed

text \<open>Claim C1. The extraction step is the total function \<open>extractRecommendations\<close>:
  whatever the body of its \<^verbatim>\<open>try\<close> block throws is caught. When no pattern finds a
  candidate, when \<^verbatim>\<open>JSON.parse\<close> throws on the candidate, whenever anything else in the
  block throws, and so whenever no part of the reply is text that \<^verbatim>\<open>JSON.parse\<close>
  accepts, the result is the degraded success: no recommendation, the raw reply as
  analysis, an empty summary.\<close>

theorem C1_never_raises:
  "(fst (find_json ai) = [] \<longrightarrow>
      extractRecommendations h ai ts = \<lparr> analysis = ai, recommendations = [], summary = [] \<rparr>)
   \<and> (\<forall>e. JSON_parse h (cleanJson (fst (find_json ai))) = Inl e \<longrightarrow>
      extractRecommendations h ai ts = \<lparr> analysis = ai, recommendations = [], summary = [] \<rparr>)
   \<and> (\<forall>e. extract_try h ai ts = Inl e \<longrightarrow>
      extractRecommendations h ai ts = \<lparr> analysis = ai, recommendations = [], summary = [] \<rparr>)
   \<and> ((\<forall>s. sublist s ai \<longrightarrow> isl (JSON_parse h s)) \<longrightarrow>
      extractRecommendations h ai ts = \<lparr> analysis = ai, recommendations = [], summary = [] \<rparr>)"
proof (intro conjI allI impI)
  show "extractRecommendations h ai ts = \<lparr> analysis = ai, recommendations = [], summary = [] \<rparr>"
    if "fst (find_json ai) = []"
    using extract_try_no_match [OF that, of h ts]
    by (simp add: extractRecommendations_def degraded_def)
  show "extractRecommendations h ai ts = \<lparr> analysis = ai, recommendations = [], summary = [] \<rparr>"
    if "extract_try h ai ts = Inl e" for e
    using extractRecommendations_error [OF that] by (simp add: degraded_def)
  show "extractRecommendations h ai ts = \<lparr> analysis = ai, recommendations = [], summary = [] \<rparr>"
    if p: "JSON_parse h (cleanJson (fst (find_json ai))) = Inl e" for e
  proof (cases "fst (find_json ai) = []")
    case True
    then show ?thesis
      using extract_try_no_match [OF True, of h ts]
      by (simp add: extractRecommendations_def degraded_def)
  next
    case False
    then show ?thesis
      using extractRecommendations_error [OF extract_try_parse_error [OF False p]]
      by (simp add: degraded_def)
  qed
  show "extractRecommendations h ai ts = \<lparr> analysis = ai, recommendations = [], summary = [] \<rparr>"
    if "\<forall>s. sublist s ai \<longrightarrow> isl (JSON_parse h s)"
  proof -
    from that have "\<forall>s. sublist s ai \<longrightarrow> (\<exists>e. JSON_parse h s = Inl e)"
      by (auto simp: isl_def)
    from no_json_degrades [OF this] show ?thesis by (simp add: degraded_def)
  qed
qed








lemma recommendations_split_result [simp]:
  "recommendations (split_result ai jm rs) = rs"
  by (auto simp: split_result_def Let_def split: option.splits list.splits)





text \<open>An entry that is \<^verbatim>\<open>null\<close> is not dropped: reading its \<^verbatim>\<open>taskId\<close> throws, and the
  handler of the \<^verbatim>\<open>try\<close> block takes over.\<close>

lemma isValid_null: "isValid h ts JNull = Inl TypeError"
  by (simp add: isValid_def)



lemma plain_parse_error:
  "JSON_parse example_host (cleanJson (fst (find_json reply_plain))) = Inl SyntaxError"
  unfolding reply_plain_def by code_simp

lemma plain_candidate: "fst (find_json reply_plain) \<noteq> []"
  unfolding reply_plain_def by code_simp


lemma none_no_match: "fst (find_json reply_none) = []"
  unfolding reply_none_def by code_simp

lemma no_parts_parse: "list_all (\<lambda>s. isl (JSON_parse example_host s)) (sublists ''no'')"
  by code_simp

theorem C1_witness:
  "fst (find_json reply_none) = []
   \<and> extractRecommendations example_host reply_none [task_A]
       = \<lparr> analysis = reply_none, recommendations = [], summary = [] \<rparr>
   \<and> JSON_parse example_host (cleanJson (fst (find_json reply_plain))) = Inl SyntaxError
   \<and> extractRecommendations example_host reply_plain [task_C]
       = \<lparr> analysis = reply_plain, recommendations = [], summary = [] \<rparr>
   \<and> list_all (\<lambda>s. isl (JSON_parse example_host s)) (sublists ''no'')
   \<and> extractRecommendations example_host ''no'' [task_A]
       = \<lparr> analysis = ''no'', recommendations = [], summary = [] \<rparr>"
proof -
  have a: "extractRecommendations example_host reply_none [task_A]
             = \<lparr> analysis = reply_none, recommendations = [], summary = [] \<rparr>"
    using C1_never_raises [of reply_none example_host "[task_A]"] none_no_match by blast
  have b: "extractRecommendations example_host reply_plain [task_C]
             = \<lparr> analysis = reply_plain, recommendations = [], summary = [] \<rparr>"
    using C1_never_raises [of reply_plain example_host "[task_C]"] plain_parse_error by blast
  have "isl (JSON_parse example_host s)" if "sublist s ''no''" for s
  proof -
    from that have "s \<in> set (sublists ''no'')" by (simp only: in_set_sublists)
    with no_parts_parse show ?thesis unfolding list_all_iff by blast
  qed
  then have c: "extractRecommendations example_host ''no'' [task_A]
             = \<lparr> analysis = ''no'', recommendations = [], summary = [] \<rparr>"
    using C1_never_raises [of "''no''" example_host "[task_A]"] by blast
  from none_no_match a plain_parse_error b no_parts_parse c show ?thesis by (intro conjI)
qed



text \<open>What the second and the third pattern match.\<close>

lemma first_match_leftmost:
  "first_match m s = Some r \<Longrightarrow>
   \<exists>pre t. s = pre @ t \<and> m t = Some r
     \<and> (\<forall>p q. s = p @ q \<and> length p < length pre \<longrightarrow> m q = None)"
proof (induction s)
  case Nil
  then show ?case by simp
next
  case (Cons c cs)
  show ?case
  proof (cases "m (c # cs)")
    case (Some a)
    with Cons.prems have "m (c # cs) = Some r" by simp
    then have "c # cs = [] @ (c # cs) \<and> m (c # cs) = Some r
       \<and> (\<forall>p q. c # cs = p @ q \<and> length p < length ([] :: string) \<longrightarrow> m q = None)"
      by simp
    then show ?thesis by blast
  next
    case None
    with Cons.prems have "first_match m cs = Some r" by simp
    from Cons.IH [OF this] obtain pre t where
      i: "cs = pre @ t" "m t = Some r"
         "\<forall>p q. cs = p @ q \<and> length p < length pre \<longrightarrow> m q = None"
      by blast
    have "m q = None" if "c # cs = p @ q" "length p < length (c # pre)" for p q
    proof (cases p)
      case Nil
      with that None show ?thesis by simp
    next
      case (Cons x p')
      with that have "cs = p' @ q" "length p' < length pre" by simp_all
      with i(3) show ?thesis by blast
    qed
    with i(1,2) have "c # cs = (c # pre) @ t \<and> m t = Some r
       \<and> (\<forall>p q. c # cs = p @ q \<and> length p < length (c # pre) \<longrightarrow> m q = None)"
      by simp
    then show ?thesis by blast
  qed
qed

text \<open>The lazy star before the closing brace stops at the first closing brace.\<close>

lemma lazy_to_brace_shape:
  "lazy_to_brace acc cs = Some r \<Longrightarrow>
   \<exists>b rest. cs = b @ CHR ''}'' # rest \<and> CHR ''}'' \<notin> set b \<and> r = rev acc @ b @ ''}''"
proof (induction cs arbitrary: acc)
  case Nil
  then show ?case by simp
next
  case (Cons c cs)
  show ?case
  proof (cases "c = CHR ''}''")
    case True
    with Cons.prems have "c # cs = [] @ CHR ''}'' # cs \<and> CHR ''}'' \<notin> set ([] :: string)
        \<and> r = rev acc @ [] @ ''}''"
      by simp
    then show ?thesis by blast
  next
    case False
    with Cons.prems have "lazy_to_brace (c # acc) cs = Some r" by simp
    from Cons.IH [OF this] obtain b rest where
      "cs = b @ CHR ''}'' # rest" "CHR ''}'' \<notin> set b" "r = rev (c # acc) @ b @ ''}''"
      by blast
    with False have "c # cs = (c # b) @ CHR ''}'' # rest \<and> CHR ''}'' \<notin> set (c # b)
        \<and> r = rev acc @ (c # b) @ ''}''"
      by simp
    then show ?thesis by blast
  qed
qed

lemma lazy_to_brace_complete:
  "CHR ''}'' \<in> set cs \<Longrightarrow> lazy_to_brace acc cs \<noteq> None"
  by (induction cs arbitrary: acc) auto

lemma key_nonempty: "recommendations_key \<noteq> []"
  by (simp add: recommendations_key_def)

lemma starts_with_append: "starts_with p (p @ s)"
  by (simp add: starts_with_def)

lemma starts_with_split: "starts_with p s \<Longrightarrow> s = p @ drop (length p) s"
  by (metis append_take_drop_id starts_with_def)

text \<open>The second pattern after its opening brace: through the quoted key to the first
  closing brace after it.\<close>

lemma lazy_to_key_shape:
  "lazy_to_key acc cs = Some r \<Longrightarrow>
   \<exists>a b rest. cs = a @ recommendations_key @ b @ CHR ''}'' # rest \<and> CHR ''}'' \<notin> set b
     \<and> r = rev acc @ a @ recommendations_key @ b @ ''}''"
proof (induction cs arbitrary: acc)
  case Nil
  then show ?case by simp
next
  case (Cons c cs)
  let ?k = "recommendations_key"
  show ?case
  proof (cases "starts_with ?k (c # cs)
      \<and> lazy_to_brace [] (drop (length ?k) (c # cs)) \<noteq> None")
    case True
    then obtain t where t: "lazy_to_brace [] (drop (length ?k) (c # cs)) = Some t" by auto
    with True Cons.prems have r: "r = rev acc @ ?k @ t" by simp
    from lazy_to_brace_shape [OF t] obtain b rest where
      b: "drop (length ?k) (c # cs) = b @ CHR ''}'' # rest" "CHR ''}'' \<notin> set b" "t = b @ ''}''"
      by auto
    from True have "c # cs = ?k @ drop (length ?k) (c # cs)"
      by (blast intro: starts_with_split)
    with b r have "c # cs = [] @ ?k @ b @ CHR ''}'' # rest \<and> CHR ''}'' \<notin> set b
        \<and> r = rev acc @ [] @ ?k @ b @ ''}''"
      by simp
    then show ?thesis by blast
  next
    case False
    with Cons.prems have "lazy_to_key (c # acc) cs = Some r"
      by (auto split: if_splits option.splits)
    from Cons.IH [OF this] obtain a b rest where
      "cs = a @ ?k @ b @ CHR ''}'' # rest" "CHR ''}'' \<notin> set b"
      "r = rev (c # acc) @ a @ ?k @ b @ ''}''"
      by blast
    then have "c # cs = (c # a) @ ?k @ b @ CHR ''}'' # rest \<and> CHR ''}'' \<notin> set b
        \<and> r = rev acc @ (c # a) @ ?k @ b @ ''}''"
      by simp
    then show ?thesis by blast
  qed
qed

lemma lazy_to_key_complete:
  "lazy_to_key acc (x @ recommendations_key @ b @ CHR ''}'' # rest) \<noteq> None"
proof (induction x arbitrary: acc)
  case Nil
  let ?k = "recommendations_key"
  obtain c cs where k: "?k @ b @ CHR ''}'' # rest = c # cs"
    using key_nonempty by (cases "?k @ b @ CHR ''}'' # rest") auto
  have s: "starts_with ?k (c # cs)"
    unfolding k [symmetric] by (rule starts_with_append)
  have "drop (length ?k) (c # cs) = b @ CHR ''}'' # rest"
    unfolding k [symmetric] by simp
  then have "lazy_to_brace [] (drop (length ?k) (c # cs)) \<noteq> None"
    by (simp add: lazy_to_brace_complete)
  with s have "lazy_to_key acc (c # cs) \<noteq> None" by auto
  with k show ?case by simp
next
  case (Cons c x)
  from Cons.IH [of "c # acc"] show ?case
    by (auto split: option.splits)
qed

lemma jsonObject_at_shape:
  "jsonObject_at s = Some m \<Longrightarrow>
   \<exists>a b rest. s = CHR ''{'' # a @ recommendations_key @ b @ CHR ''}'' # rest
     \<and> CHR ''}'' \<notin> set b \<and> m = CHR ''{'' # a @ recommendations_key @ b @ ''}''"
proof -
  assume a: "jsonObject_at s = Some m"
  then obtain t where s: "s \<noteq> []" "hd s = CHR ''{''" and t: "lazy_to_key [] (tl s) = Some t"
    and m: "m = CHR ''{'' # t"
    by (auto simp: jsonObject_at_def split: if_splits option.splits)
  from lazy_to_key_shape [OF t] obtain a b rest where
    "tl s = a @ recommendations_key @ b @ CHR ''}'' # rest" "CHR ''}'' \<notin> set b"
    "t = a @ recommendations_key @ b @ ''}''"
    by auto
  with s m have "s = CHR ''{'' # a @ recommendations_key @ b @ CHR ''}'' # rest
     \<and> CHR ''}'' \<notin> set b \<and> m = CHR ''{'' # a @ recommendations_key @ b @ ''}''"
    by (cases s) simp_all
  then show ?thesis by blast
qed

text \<open>What the second pattern matches: from the first opening brace of the reply,
  through the quoted key, to the first closing brace after the key.\<close>

lemma jsonObjectPattern_shape:
  assumes "jsonObjectPattern ai = Some m"
  shows "\<exists>pre a b post. ai = pre @ CHR ''{'' # a @ recommendations_key @ b @ CHR ''}'' # post
     \<and> CHR ''{'' \<notin> set pre \<and> CHR ''}'' \<notin> set b
     \<and> m = CHR ''{'' # a @ recommendations_key @ b @ ''}''"
proof -
  from assms have "first_match jsonObject_at ai = Some m"
    by (simp add: jsonObjectPattern_def)
  from first_match_leftmost [OF this] obtain pre t where
    l: "ai = pre @ t" "jsonObject_at t = Some m"
       "\<forall>p q. ai = p @ q \<and> length p < length pre \<longrightarrow> jsonObject_at q = None"
    by blast
  from jsonObject_at_shape [OF l(2)] obtain a b rest where
    t: "t = CHR ''{'' # a @ recommendations_key @ b @ CHR ''}'' # rest"
       "CHR ''}'' \<notin> set b" "m = CHR ''{'' # a @ recommendations_key @ b @ ''}''"
    by blast
  have "CHR ''{'' \<notin> set pre"
  proof
    assume "CHR ''{'' \<in> set pre"
    then obtain p1 p2 where p: "pre = p1 @ CHR ''{'' # p2"
      by (auto dest: split_list)
    let ?q = "CHR ''{'' # p2 @ t"
    from p l(1) have "ai = p1 @ ?q" "length p1 < length pre" by simp_all
    with l(3) have n: "jsonObject_at ?q = None" by blast
    have "lazy_to_key [] ((p2 @ CHR ''{'' # a) @ recommendations_key @ b @ CHR ''}'' # rest) \<noteq> None"
      by (rule lazy_to_key_complete)
    with t(1) have "lazy_to_key [] (p2 @ t) \<noteq> None" by simp
    then have "jsonObject_at ?q \<noteq> None"
      by (auto simp: jsonObject_at_def)
    with n show False by simp
  qed
  with l(1) t have "ai = pre @ CHR ''{'' # a @ recommendations_key @ b @ CHR ''}'' # rest
     \<and> CHR ''{'' \<notin> set pre \<and> CHR ''}'' \<notin> set b
     \<and> m = CHR ''{'' # a @ recommendations_key @ b @ ''}''"
    by simp
  then show ?thesis by blast
qed

lemma anyJson_at_shape:
  assumes "anyJson_at s = Some m"
  shows "\<exists>mid post. s = CHR ''{'' # mid @ CHR ''}'' # post \<and> CHR ''}'' \<notin> set post
     \<and> m = CHR ''{'' # mid @ ''}''"
proof -
  from assms have s: "s \<noteq> []" "hd s = CHR ''{''" "CHR ''}'' \<in> set (tl s)"
    and m: "m = CHR ''{'' # rev (dropWhile (\<lambda>c. c \<noteq> CHR ''}'') (rev (tl s)))"
    by (auto simp: anyJson_at_def split: if_splits)
  from s(3) obtain mid post where p: "tl s = mid @ CHR ''}'' # post" "CHR ''}'' \<notin> set post"
    by (auto dest: split_list_last)
  from p(2) have "dropWhile (\<lambda>c. c \<noteq> CHR ''}'') (rev post @ CHR ''}'' # rev mid)
      = CHR ''}'' # rev mid"
    by (auto simp: dropWhile_append3)
  with p(1) m have "m = CHR ''{'' # mid @ ''}''" by simp
  with s p have "s = CHR ''{'' # mid @ CHR ''}'' # post \<and> CHR ''}'' \<notin> set post
     \<and> m = CHR ''{'' # mid @ ''}''"
    by (cases s) simp_all
  then show ?thesis by blast
qed

text \<open>What the third pattern matches: from the first opening brace of the reply to its
  last closing brace.\<close>

lemma anyJsonPattern_shape:
  assumes "anyJsonPattern ai = Some m"
  shows "\<exists>pre mid post. ai = pre @ CHR ''{'' # mid @ CHR ''}'' # post
     \<and> CHR ''{'' \<notin> set pre \<and> CHR ''}'' \<notin> set post \<and> m = CHR ''{'' # mid @ ''}''"
proof -
  from assms have "first_match anyJson_at ai = Some m"
    by (simp add: anyJsonPattern_def)
  from first_match_leftmost [OF this] obtain pre t where
    l: "ai = pre @ t" "anyJson_at t = Some m"
       "\<forall>p q. ai = p @ q \<and> length p < length pre \<longrightarrow> anyJson_at q = None"
    by blast
  from anyJson_at_shape [OF l(2)] obtain mid post where
    t: "t = CHR ''{'' # mid @ CHR ''}'' # post" "CHR ''}'' \<notin> set post"
       "m = CHR ''{'' # mid @ ''}''"
    by blast
  have "CHR ''{'' \<notin> set pre"
  proof
    assume "CHR ''{'' \<in> set pre"
    then obtain p1 p2 where p: "pre = p1 @ CHR ''{'' # p2"
      by (auto dest: split_list)
    let ?q = "CHR ''{'' # p2 @ t"
    from p l(1) have "ai = p1 @ ?q" "length p1 < length pre" by simp_all
    with l(3) have n: "anyJson_at ?q = None" by blast
    from t(1) have "anyJson_at ?q \<noteq> None"
      by (simp add: anyJson_at_def)
    with n show False by simp
  qed
  with l(1) t have "ai = pre @ CHR ''{'' # mid @ CHR ''}'' # post
     \<and> CHR ''{'' \<notin> set pre \<and> CHR ''}'' \<notin> set post \<and> m = CHR ''{'' # mid @ ''}''"
    by simp
  then show ?thesis by blast
qed

lemma second_pattern_gate:
  assumes "codeBlockPattern ai = None" and "jsonObjectPattern ai = Some m"
    and "JSON_parse h (cleanJson m) = Inl e"
  shows "extractRecommendations h ai ts = \<lparr> analysis = ai, recommendations = [], summary = [] \<rparr>"
proof -
  from assms(1,2) have f: "find_json ai = (m, Some m)"
    by (simp add: find_json_order)
  from assms(2) have "m \<noteq> []" by (rule jsonObjectPattern_nonempty)
  with f assms(3) have "extract_try h ai ts = Inl e"
    by (simp add: extract_try_parse_error)
  then show ?thesis
    by (simp add: extractRecommendations_error degraded_def)
qed

text \<open>Claim C5, which the code does not meet. The comment of the second pattern says
  that it looks for the object with the key \<^verbatim>\<open>"recommendations"\<close>, but the star before
  its closing brace is lazy: the match runs from the first opening brace of the reply
  through the quoted key to the first closing brace after the key, which is the end of
  the first entry of the array and not the end of the object. The third pattern matches
  from the first opening brace to the last closing brace. A pattern is tried only while
  no earlier one has matched, so when the second one has matched and its match does not
  parse, the third one is not tried and the result is the degraded success. On the bare
  JSON object the prompt asks for, the first pattern finds nothing, the second matches
  up to the first closing brace, which is not JSON, the third would match the whole
  reply, which parses and holds a recommendation for task C, and the result holds no
  recommendation; the same object in a fenced block gives the recommendation.\<close>

theorem C5_bare_json_is_lost:
  \<open>(\<forall>m. jsonObjectPattern ai = Some m \<longrightarrow>
      (\<exists>pre a b post.
          ai = pre @ CHR ''{'' # a @ recommendations_key @ b @ CHR ''}'' # post
          \<and> CHR ''{'' \<notin> set pre \<and> CHR ''}'' \<notin> set b
          \<and> m = CHR ''{'' # a @ recommendations_key @ b @ ''}''))
   \<and> (\<forall>m. anyJsonPattern ai = Some m \<longrightarrow>
      (\<exists>pre mid post.
          ai = pre @ CHR ''{'' # mid @ CHR ''}'' # post
          \<and> CHR ''{'' \<notin> set pre \<and> CHR ''}'' \<notin> set post
          \<and> m = CHR ''{'' # mid @ ''}''))
   \<and> (\<forall>m e. codeBlockPattern ai = None \<and> jsonObjectPattern ai = Some m
          \<and> JSON_parse h (cleanJson m) = Inl e
        \<longrightarrow> extractRecommendations h ai ts
              = \<lparr> analysis = ai, recommendations = [], summary = [] \<rparr>)
   \<and> codeBlockPattern reply_plain = None
   \<and> jsonObjectPattern reply_plain
       = Some ''{"recommendations":[{"taskId":"C","suggestedPriority":"high"}''
   \<and> JSON_parse example_host
         (cleanJson ''{"recommendations":[{"taskId":"C","suggestedPriority":"high"}'')
       = Inl SyntaxError
   \<and> anyJsonPattern reply_plain = Some reply_plain
   \<and> JSON_parse example_host (cleanJson reply_plain)
       = Inr (JObj [(''recommendations'', JArr [entry_C])])
   \<and> mapRecommendations example_host [task_C] [entry_C] = Inr [rec_C]
   \<and> extractRecommendations example_host reply_plain [task_C]
       = \<lparr> analysis = reply_plain, recommendations = [], summary = [] \<rparr>
   \<and> extractRecommendations example_host (fence @ reply_plain @ fence) [task_C]
       = \<lparr> analysis = [], recommendations = [rec_C], summary = [] \<rparr>\<close>
proof -
  have g2: "\<forall>m. jsonObjectPattern ai = Some m \<longrightarrow>
      (\<exists>pre a b post.
          ai = pre @ CHR ''{'' # a @ recommendations_key @ b @ CHR ''}'' # post
          \<and> CHR ''{'' \<notin> set pre \<and> CHR ''}'' \<notin> set b
          \<and> m = CHR ''{'' # a @ recommendations_key @ b @ ''}'')"
    by (blast dest: jsonObjectPattern_shape)
  have g3: "\<forall>m. anyJsonPattern ai = Some m \<longrightarrow>
      (\<exists>pre mid post.
          ai = pre @ CHR ''{'' # mid @ CHR ''}'' # post
          \<and> CHR ''{'' \<notin> set pre \<and> CHR ''}'' \<notin> set post
          \<and> m = CHR ''{'' # mid @ ''}'')"
    by (blast dest: anyJsonPattern_shape)
  have gate: "\<forall>m e. codeBlockPattern ai = None \<and> jsonObjectPattern ai = Some m
          \<and> JSON_parse h (cleanJson m) = Inl e
        \<longrightarrow> extractRecommendations h ai ts
              = \<lparr> analysis = ai, recommendations = [], summary = [] \<rparr>"
    by (blast intro: second_pattern_gate)
  have e: \<open>codeBlockPattern reply_plain = None
   \<and> jsonObjectPattern reply_plain
       = Some ''{"recommendations":[{"taskId":"C","suggestedPriority":"high"}''
   \<and> JSON_parse example_host
         (cleanJson ''{"recommendations":[{"taskId":"C","suggestedPriority":"high"}'')
       = Inl SyntaxError
   \<and> anyJsonPattern reply_plain = Some reply_plain
   \<and> JSON_parse example_host (cleanJson reply_plain)
       = Inr (JObj [(''recommendations'', JArr [entry_C])])
   \<and> mapRecommendations example_host [task_C] [entry_C] = Inr [rec_C]
   \<and> extractRecommendations example_host reply_plain [task_C]
       = \<lparr> analysis = reply_plain, recommendations = [], summary = [] \<rparr>
   \<and> extractRecommendations example_host (fence @ reply_plain @ fence) [task_C]
       = \<lparr> analysis = [], recommendations = [rec_C], summary = [] \<rparr>\<close>
    unfolding reply_plain_def entry_C_def rec_C_def fence_def by code_simp
  show ?thesis
    by (rule conjI [OF g2 conjI [OF g3 conjI [OF gate e]]])
qed

theorem C5_witness:
  \<open>codeBlockPattern reply_plain = None
   \<and> jsonObjectPattern reply_plain
       = Some ''{"recommendations":[{"taskId":"C","suggestedPriority":"high"}''
   \<and> (\<exists>pre a b post.
         reply_plain = pre @ CHR ''{'' # a @ recommendations_key @ b @ CHR ''}'' # post
         \<and> CHR ''{'' \<notin> set pre \<and> CHR ''}'' \<notin> set b
         \<and> ''{"recommendations":[{"taskId":"C","suggestedPriority":"high"}''
             = CHR ''{'' # a @ recommendations_key @ b @ ''}'')
   \<and> anyJsonPattern reply_plain = Some reply_plain
   \<and> (\<exists>pre mid post.
         reply_plain = pre @ CHR ''{'' # mid @ CHR ''}'' # post
         \<and> CHR ''{'' \<notin> set pre \<and> CHR ''}'' \<notin> set post
         \<and> reply_plain = CHR ''{'' # mid @ ''}'')
   \<and> JSON_parse example_host
         (cleanJson ''{"recommendations":[{"taskId":"C","suggestedPriority":"high"}'')
       = Inl SyntaxError
   \<and> extractRecommendations example_host reply_plain [task_C]
       = \<lparr> analysis = reply_plain, recommendations = [], summary = [] \<rparr>\<close>
proof -
  note c = C5_bare_json_is_lost [where ai = reply_plain and h = example_host and ts = "[task_C]"]
  let ?m = \<open>''{"recommendations":[{"taskId":"C","suggestedPriority":"high"}''\<close>
  note e = c [THEN conjunct2, THEN conjunct2, THEN conjunct2]
  note n = e [THEN conjunct1]
  note p2 = e [THEN conjunct2, THEN conjunct1]
  note pe = e [THEN conjunct2, THEN conjunct2, THEN conjunct1]
  note p3 = e [THEN conjunct2, THEN conjunct2, THEN conjunct2, THEN conjunct1]
  from c [THEN conjunct1, rule_format, OF p2]
  have s2: "\<exists>pre a b post.
         reply_plain = pre @ CHR ''{'' # a @ recommendations_key @ b @ CHR ''}'' # post
         \<and> CHR ''{'' \<notin> set pre \<and> CHR ''}'' \<notin> set b
         \<and> ?m = CHR ''{'' # a @ recommendations_key @ b @ ''}''" .
  from c [THEN conjunct2, THEN conjunct1, rule_format, OF p3]
  have s3: "\<exists>pre mid post.
         reply_plain = pre @ CHR ''{'' # mid @ CHR ''}'' # post
         \<and> CHR ''{'' \<notin> set pre \<and> CHR ''}'' \<notin> set post
         \<and> reply_plain = CHR ''{'' # mid @ ''}''" .
  from c [THEN conjunct2, THEN conjunct2, THEN conjunct1, rule_format, of ?m SyntaxError,
      OF conjI, OF n conjI, OF p2 pe]
  have d: "extractRecommendations example_host reply_plain [task_C]
       = \<lparr> analysis = reply_plain, recommendations = [], summary = [] \<rparr>" .
  from n p2 s2 p3 s3 pe d show ?thesis by (intro conjI)
qed

section \<open>Current values and change detection\<close>

lemma bind_err_Some_not_None: "bind_err m (\<lambda>r. Inr (Some r)) \<noteq> Inr None"
  by (cases m) simp_all

text \<open>What decides whether an entry is kept. Without a truthy \<^verbatim>\<open>currentPriority\<close> in the
  entry the stored priority is compared; with one, the entry's own value is, and the
  stored priority plays no part.\<close>

lemma reconcile_without_echo:
  assumes "get_prop rec ''currentPriority'' = Inr cpv" and "\<not> truthy h cpv"
    and "get_prop rec ''suggestedDueDate'' = Inr sdv" and "parse_suggested h sdv = Inr sug"
    and "get_prop rec ''suggestedPriority'' = Inr spv"
    and "truthy h spv \<longrightarrow> ToString h spv = Inr sp"
  shows "(reconcile h t rec = Inr None) =
         (map_option iso_date_part (dueDate t) = map_option iso_date_part sug
          \<and> (truthy h spv \<longrightarrow> toLowerCase (priority_value (priority t)) = toLowerCase sp))"
  using assms
  by (auto simp: reconcile_def hasPriorityChange_of_def hasDateChange_of_def js_or_def
      bind_err_Some_not_None)

lemma reconcile_with_echo:
  assumes "get_prop rec ''currentPriority'' = Inr cpv" and "truthy h cpv"
    and "ToString h cpv = Inr cp"
    and "get_prop rec ''suggestedDueDate'' = Inr sdv" and "parse_suggested h sdv = Inr sug"
    and "get_prop rec ''suggestedPriority'' = Inr spv"
    and "truthy h spv \<longrightarrow> ToString h spv = Inr sp"
  shows "(reconcile h t rec = Inr None) =
         (map_option iso_date_part (dueDate t) = map_option iso_date_part sug
          \<and> (truthy h spv \<longrightarrow> toLowerCase cp = toLowerCase sp))"
  using assms
  by (auto simp: reconcile_def hasPriorityChange_of_def hasDateChange_of_def js_or_def
      bind_err_Some_not_None)

lemma makeRecommendation_current:
  assumes "makeRecommendation h t rec sug = Inr r"
  shows "currentDueDate r = dueDate t"
    and "\<exists>cpv. get_prop rec ''currentPriority'' = Inr cpv
          \<and> ToString h (if truthy h cpv then cpv else JStr (priority_value (priority t)))
              = Inr (currentPriority r)"
proof -
  have ne: "priority_value p \<noteq> []" for p by (cases p) simp_all
  from assms show "currentDueDate r = dueDate t"
    by (auto simp: makeRecommendation_def bind_err_Inr)
  from assms ne show "\<exists>cpv. get_prop rec ''currentPriority'' = Inr cpv
          \<and> ToString h (if truthy h cpv then cpv else JStr (priority_value (priority t)))
              = Inr (currentPriority r)"
    by (auto simp: makeRecommendation_def bind_err_Inr js_or_def)
qed

text \<open>Claim C3, on the reply of the scenario of the spec: task A is urgent and due on
  2024-01-01, and the entry suggests urgent and 2024-01-01. When the entry does not
  restate the current priority it is dropped. When it restates it as low it is kept,
  though it changes neither the due date nor the priority of the task.\<close>

theorem C3_no_change_is_retained:
  \<open>priority task_A = URGENT \<and> dueDate task_A = Some 1704067200000
   \<and> iso_date_part 1704067200000 = ''2024-01-01''
   \<and> extractRecommendations example_host reply_no_echo [task_A, task_B, task_C]
       = \<lparr> analysis = [], recommendations = [], summary = [] \<rparr>
   \<and> extractRecommendations example_host reply_echo_low [task_A, task_B, task_C]
       = \<lparr> analysis = [],
           recommendations =
             [\<lparr> taskId = ''A'', taskTitle = JStr ''Task A'',
                 currentDueDate = Some 1704067200000, suggestedDueDate = Some 1704067200000,
                 currentPriority = ''low'', suggestedPriority = Some ''urgent'',
                 reason = JStr ''Balance workload distribution'' \<rparr>],
           summary = [] \<rparr>\<close>
  unfolding reply_no_echo_def reply_echo_low_def task_A_def task_B_def task_C_def
  by code_simp

text \<open>Claim C4, on task C, which is low and has no due date. The current due date of a
  recommendation is the stored one. The current priority is not: an entry that restates
  it as urgent yields a recommendation whose current priority is urgent, and an entry
  that restates it as high and suggests high is dropped as no change, though the task
  would go from low to high.\<close>

theorem C4_echo_is_trusted:
  \<open>priority task_C = LOW \<and> dueDate task_C = None
   \<and> extractRecommendations example_host reply_echo_urgent [task_A, task_B, task_C]
       = \<lparr> analysis = [],
           recommendations =
             [\<lparr> taskId = ''C'', taskTitle = JStr ''Task C'',
                 currentDueDate = None, suggestedDueDate = Some 1704412800000,
                 currentPriority = ''urgent'', suggestedPriority = None,
                 reason = JStr ''Balance workload distribution'' \<rparr>],
           summary = [] \<rparr>
   \<and> extractRecommendations example_host reply_echo_high [task_A, task_B, task_C]
       = \<lparr> analysis = [], recommendations = [], summary = [] \<rparr>\<close>
  unfolding reply_echo_urgent_def reply_echo_high_def task_A_def task_B_def task_C_def
  by code_simp

section \<open>The Apply Endpoint\<close>

subsection \<open>The store\<close>

lemma Task_findOne_Some:
  "Task_findOne st v uid = Inr (Some t) \<Longrightarrow>
   \<exists>tid. v = JStr tid \<and> docs st tid = Some t \<and> doc_userId t = uid \<and> query_error st v = None"
  by (cases v) (auto simp: Task_findOne_def document_of_def split: option.splits if_splits)

lemma Task_findOne_None:
  "(Task_findOne st (JStr tid) uid = Inr None)
     = (query_error st (JStr tid) = None
        \<and> (docs st tid = None \<or> (\<exists>t. docs st tid = Some t \<and> doc_userId t \<noteq> uid)))"
  by (auto simp: Task_findOne_def document_of_def split: option.splits)

lemma apply_update_eq:
  "apply_update due p t =
     t\<lparr> doc_dueDate := (case due of Some ms \<Rightarrow> Some ms | None \<Rightarrow> doc_dueDate t),
        doc_priority := (case p of Some q \<Rightarrow> q | None \<Rightarrow> doc_priority t) \<rparr>"
  by (simp add: apply_update_def Let_def split: option.splits)

lemma accepted_dueDate_None:
  "accepted_dueDate u = Inr due \<Longrightarrow> (due = None) = (upd_dueDate u = None)"
  by (auto simp: accepted_dueDate_def split: option.splits)

lemma accepted_priority_None:
  "accepted_priority st u = Inr p \<Longrightarrow> (p = None) = (upd_priority u = None)"
  by (auto simp: accepted_priority_def bind_err_Inr split: option.splits jsval.splits)

lemma build_updateData_fields:
  "build_updateData h rec = Inr u \<Longrightarrow>
   (upd_dueDate u \<noteq> None) = supplies h rec ''suggestedDueDate''
   \<and> (upd_priority u \<noteq> None) = supplies h rec ''suggestedPriority''"
  by (auto simp: build_updateData_def bind_err_Inr supplies_def split: if_splits)

lemma Task_findByIdAndUpdate_Inr:
  "Task_findByIdAndUpdate st v u = Inr (st', ut) \<Longrightarrow>
   \<exists>due p. accepted_dueDate u = Inr due \<and> accepted_priority st u = Inr p
     \<and> (st', ut) = (case v of
                JStr tid \<Rightarrow>
                  (case docs st tid of
                     Some t \<Rightarrow> (st\<lparr> docs := (docs st)(tid \<mapsto> apply_update due p t) \<rparr>,
                                Some (apply_update due p t))
                   | None \<Rightarrow> (st, None))
              | _ \<Rightarrow> (st, None))"
  by (auto simp: Task_findByIdAndUpdate_def bind_err_Inr split: option.splits)

text \<open>What one turn of the loop does: it leaves the state as it is (and may throw), or
  adds one error, or writes one document and adds it to the updated tasks.\<close>

lemma apply_one_cases:
  "(\<exists>x. apply_one h uid s rec = (s, x))
   \<or> (\<exists>m. apply_one h uid s rec = (s\<lparr> errors_list := errors_list s @ [m] \<rparr>, None))
   \<or> (\<exists>tid t u due p.
         names rec tid \<and> Task_findOne (store s) (JStr tid) uid = Inr (Some t)
         \<and> build_updateData h rec = Inr u \<and> has_keys u
         \<and> accepted_dueDate u = Inr due \<and> accepted_priority (store s) u = Inr p
         \<and> apply_one h uid s rec
             = (s\<lparr> store := (store s)\<lparr> docs := (docs (store s))(tid \<mapsto> apply_update due p t) \<rparr>,
                   updatedTasks := updatedTasks s @ [Some (apply_update due p t)] \<rparr>, None))"
proof (cases "apply_try h uid s rec")
  case (Inl e)
  then show ?thesis
    by (cases "failure_text h rec e") (auto simp: apply_one_def)
next
  case (Inr s')
  then obtain v task where v: "get_prop rec ''taskId'' = Inr v"
    and f: "Task_findOne (store s) v uid = Inr task"
    by (auto simp: apply_try_def bind_err_Inr)
  show ?thesis
  proof (cases task)
    case None
    with Inr v f show ?thesis
      by (auto simp: apply_one_def apply_try_def bind_err_Inr)
  next
    case (Some t)
    with f obtain tid where tid: "v = JStr tid" "docs (store s) tid = Some t"
      by (auto dest: Task_findOne_Some)
    from Inr v f Some obtain u where u: "build_updateData h rec = Inr u"
      by (auto simp: apply_try_def bind_err_Inr)
    show ?thesis
    proof (cases "has_keys u")
      case False
      with Inr v f Some u show ?thesis
        by (auto simp: apply_one_def apply_try_def)
    next
      case True
      with Inr v f Some u obtain st' ut where
        w: "Task_findByIdAndUpdate (store s) v u = Inr (st', ut)"
        and s': "s' = s\<lparr> store := st', updatedTasks := updatedTasks s @ [ut] \<rparr>"
        by (auto simp: apply_try_def bind_err_Inr)
      from Task_findByIdAndUpdate_Inr [OF w] tid obtain due p where
        a: "accepted_dueDate u = Inr due" "accepted_priority (store s) u = Inr p"
        and r: "st' = (store s)\<lparr> docs := (docs (store s))(tid \<mapsto> apply_update due p t) \<rparr>"
           "ut = Some (apply_update due p t)"
        by auto
      have "names rec tid" using v tid by (simp add: names_def)
      with Inr s' r a u True f Some tid show ?thesis
        by (auto simp: apply_one_def)
    qed
  qed
qed

lemma same_owners_refl: "same_owners st st"
  by (simp add: same_owners_def)

lemma same_owners_trans: "same_owners a b \<Longrightarrow> same_owners b c \<Longrightarrow> same_owners a c"
  by (simp add: same_owners_def)

lemma same_owners_sym: "same_owners a b \<Longrightarrow> same_owners b a"
  by (simp add: same_owners_def)

lemma same_owners_write:
  "docs st tid = Some t \<Longrightarrow>
   same_owners st (st\<lparr> docs := (docs st)(tid \<mapsto> apply_update due p t) \<rparr>)"
  by (simp add: same_owners_def apply_update_eq)

text \<open>The turn does not look at the two lists: it appends to them.\<close>

lemma apply_try_state:
  "apply_try h uid s rec =
     (case apply_try h uid \<lparr> store = store s, updatedTasks = [], errors_list = [] \<rparr> rec of
        Inl e \<Rightarrow> Inl e
      | Inr s1 \<Rightarrow> Inr (s\<lparr> store := store s1,
                          updatedTasks := updatedTasks s @ updatedTasks s1,
                          errors_list := errors_list s @ errors_list s1 \<rparr>))"
  by (auto simp: apply_try_def bind_err_def split: sum.splits option.splits prod.splits)

lemma apply_one_state:
  "apply_one h uid s rec =
     (case apply_one h uid \<lparr> store = store s, updatedTasks = [], errors_list = [] \<rparr> rec of
        (s1, x) \<Rightarrow> (s\<lparr> store := store s1,
                        updatedTasks := updatedTasks s @ updatedTasks s1,
                        errors_list := errors_list s @ errors_list s1 \<rparr>, x))"
proof (cases "apply_try h uid \<lparr> store = store s, updatedTasks = [], errors_list = [] \<rparr> rec")
  case (Inl e)
  with apply_try_state [of h uid s rec] have "apply_try h uid s rec = Inl e" by simp
  with Inl show ?thesis
    by (cases "failure_text h rec e") (simp_all add: apply_one_def)
next
  case (Inr s1)
  with apply_try_state [of h uid s rec]
  have "apply_try h uid s rec
          = Inr (s\<lparr> store := store s1, updatedTasks := updatedTasks s @ updatedTasks s1,
                    errors_list := errors_list s @ errors_list s1 \<rparr>)"
    by simp
  with Inr show ?thesis by (simp add: apply_one_def)
qed

lemma apply_one_alone:
  "fst (apply_one h uid s rec)
     = s\<lparr> store := store (alone h uid (store s) rec),
          updatedTasks := updatedTasks s @ updatedTasks (alone h uid (store s) rec),
          errors_list := errors_list s @ errors_list (alone h uid (store s) rec) \<rparr>"
  "snd (apply_one h uid s rec)
     = snd (apply_one h uid \<lparr> store = store s, updatedTasks = [], errors_list = [] \<rparr> rec)"
  using apply_one_state [of h uid s rec]
  by (simp_all add: alone_def split: prod.splits)

lemma same_owners_findOne:
  assumes "same_owners st st'"
  shows "(Task_findOne st' v uid = Inl e) = (Task_findOne st v uid = Inl e)"
    and "(Task_findOne st' v uid = Inr None) = (Task_findOne st v uid = Inr None)"
    and "(\<exists>t. Task_findOne st' v uid = Inr (Some t)) = (\<exists>t. Task_findOne st v uid = Inr (Some t))"
proof -
  from assms have q: "query_error st' v = query_error st v"
    and d: "map_option doc_userId (document_of st' v) = map_option doc_userId (document_of st v)"
    by (cases v; simp add: same_owners_def document_of_def)+
  show "(Task_findOne st' v uid = Inl e) = (Task_findOne st v uid = Inl e)"
    using q by (auto simp: Task_findOne_def split: option.splits)
  show "(Task_findOne st' v uid = Inr None) = (Task_findOne st v uid = Inr None)"
    using q d by (cases "document_of st v"; cases "document_of st' v")
      (auto simp: Task_findOne_def split: option.splits)
  show "(\<exists>t. Task_findOne st' v uid = Inr (Some t)) = (\<exists>t. Task_findOne st v uid = Inr (Some t))"
    using q d by (cases "document_of st v"; cases "document_of st' v")
      (auto simp: Task_findOne_def split: option.splits)
qed

lemma same_owners_accepted:
  "same_owners st st' \<Longrightarrow> accepted_priority st' u = accepted_priority st u"
  by (simp add: same_owners_def accepted_priority_def split: option.splits jsval.splits)

text \<open>The update of a document that exists is refused for the same reasons in both
  stores, and goes through otherwise.\<close>

lemma update_result:
  assumes "docs st tid = Some t"
  shows "Task_findByIdAndUpdate st (JStr tid) u =
     (case query_error st (JStr tid) of
        Some msg \<Rightarrow> Inl (Error msg)
      | None \<Rightarrow>
          bind_err (accepted_dueDate u) (\<lambda>due.
          bind_err (accepted_priority st u) (\<lambda>p.
          Inr (st\<lparr> docs := (docs st)(tid \<mapsto> apply_update due p t) \<rparr>,
               Some (apply_update due p t)))))"
  using assms by (simp add: Task_findByIdAndUpdate_def split: option.splits)

text \<open>What an entry does alone, when its lookup finds a task.\<close>

lemma alone_found:
  assumes "get_prop rec ''taskId'' = Inr (JStr tid)"
    and "Task_findOne st (JStr tid) uid = Inr (Some t)"
  shows "apply_one h uid \<lparr> store = st, updatedTasks = [], errors_list = [] \<rparr> rec =
     (case bind_err (build_updateData h rec) (\<lambda>u.
             if has_keys u
             then bind_err (accepted_dueDate u) (\<lambda>due.
                  bind_err (accepted_priority st u) (\<lambda>p. Inr (Some (due, p))))
             else Inr None) of
        Inr None \<Rightarrow> (\<lparr> store = st, updatedTasks = [], errors_list = [] \<rparr>, None)
      | Inr (Some (due, p)) \<Rightarrow>
          (\<lparr> store = st\<lparr> docs := (docs st)(tid \<mapsto> apply_update due p t) \<rparr>,
             updatedTasks = [Some (apply_update due p t)], errors_list = [] \<rparr>, None)
      | Inl e \<Rightarrow>
          (case ToString h (JStr tid) of
             Inr shown \<Rightarrow>
               (\<lparr> store = st, updatedTasks = [],
                  errors_list = [''Failed to update task '' @ shown @ '': '' @ error_message e] \<rparr>,
                None)
           | Inl e' \<Rightarrow> (\<lparr> store = st, updatedTasks = [], errors_list = [] \<rparr>, Some e')))"
proof -
  from assms(2) have d: "docs st tid = Some t" and q: "query_error st (JStr tid) = None"
    by (auto dest: Task_findOne_Some)
  show ?thesis
    using assms d q
    by (auto simp: apply_one_def apply_try_def failure_text_def update_result bind_err_def
        split: sum.splits option.splits)
qed

text \<open>What an entry does alone, when its lookup finds no task or throws.\<close>

lemma alone_not_found:
  assumes "get_prop rec ''taskId'' = Inr v"
    and "Task_findOne st v uid = Inr None"
  shows "apply_one h uid \<lparr> store = st, updatedTasks = [], errors_list = [] \<rparr> rec =
     (case ToString h v of
        Inr shown \<Rightarrow>
          (\<lparr> store = st, updatedTasks = [],
             errors_list = [''Task '' @ shown @ '' not found''] \<rparr>, None)
      | Inl e \<Rightarrow> (\<lparr> store = st, updatedTasks = [], errors_list = [] \<rparr>, Some e))"
  using assms
  by (auto simp: apply_one_def apply_try_def failure_text_def bind_err_def split: sum.splits)

lemma alone_lookup_throws:
  assumes "get_prop rec ''taskId'' = Inr v"
    and "Task_findOne st v uid = Inl e"
  shows "apply_one h uid \<lparr> store = st, updatedTasks = [], errors_list = [] \<rparr> rec =
     (case ToString h v of
        Inr shown \<Rightarrow>
          (\<lparr> store = st, updatedTasks = [],
             errors_list = [''Failed to update task '' @ shown @ '': '' @ error_message e] \<rparr>,
           None)
      | Inl e' \<Rightarrow> (\<lparr> store = st, updatedTasks = [], errors_list = [] \<rparr>, Some e'))"
  using assms
  by (auto simp: apply_one_def apply_try_def failure_text_def bind_err_def split: sum.splits)

lemma alone_no_entry:
  assumes "get_prop rec ''taskId'' = Inl e"
  shows "apply_one h uid \<lparr> store = st, updatedTasks = [], errors_list = [] \<rparr> rec =
     (\<lparr> store = st, updatedTasks = [], errors_list = [] \<rparr>, Some e)"
  using assms
  by (auto simp: apply_one_def apply_try_def failure_text_def)

text \<open>Against a store with the same owners an entry gives the same errors, is applied or
  not alike, throws alike, and writes the same document to a task that is the same in
  both.\<close>

lemma alone_same_owners:
  assumes o: "same_owners st st'"
  shows "errors_list (alone h uid st' rec) = errors_list (alone h uid st rec)"
    and "length (updatedTasks (alone h uid st' rec)) = length (updatedTasks (alone h uid st rec))"
    and "snd (apply_one h uid \<lparr> store = st', updatedTasks = [], errors_list = [] \<rparr> rec)
           = snd (apply_one h uid \<lparr> store = st, updatedTasks = [], errors_list = [] \<rparr> rec)"
    and "docs st' tid0 = docs st tid0 \<Longrightarrow>
         docs (store (alone h uid st' rec)) tid0 = docs (store (alone h uid st rec)) tid0"
proof -
  let ?i = "\<lambda>st. apply_one h uid \<lparr> store = st, updatedTasks = [], errors_list = [] \<rparr> rec"
  have "errors_list (fst (?i st')) = errors_list (fst (?i st))
      \<and> length (updatedTasks (fst (?i st'))) = length (updatedTasks (fst (?i st)))
      \<and> snd (?i st') = snd (?i st)
      \<and> (docs st' tid0 = docs st tid0 \<longrightarrow>
           docs (store (fst (?i st'))) tid0 = docs (store (fst (?i st))) tid0)"
  proof (cases "get_prop rec ''taskId''")
    case (Inl e)
    then show ?thesis by (simp add: alone_no_entry)
  next
    case (Inr v)
    consider (err) e where "Task_findOne st v uid = Inl e"
      | (none) "Task_findOne st v uid = Inr None"
      | (some) t where "Task_findOne st v uid = Inr (Some t)"
      by (cases "Task_findOne st v uid") auto
    then show ?thesis
    proof cases
      case err
      with same_owners_findOne(1) [OF o, of v uid e]
      have "Task_findOne st' v uid = Inl e" by simp
      with err Inr show ?thesis
        by (simp add: alone_lookup_throws split: sum.splits)
    next
      case none
      with same_owners_findOne(2) [OF o, of v uid]
      have "Task_findOne st' v uid = Inr None" by simp
      with none Inr show ?thesis
        by (simp add: alone_not_found split: sum.splits)
    next
      case some
      with same_owners_findOne(3) [OF o, of v uid]
      obtain t' where t': "Task_findOne st' v uid = Inr (Some t')" by auto
      from some obtain tid where v: "v = JStr tid" and d: "docs st tid = Some t"
        by (auto dest: Task_findOne_Some)
      from t' v have d': "docs st' tid = Some t'"
        by (auto dest: Task_findOne_Some)
      note a = same_owners_accepted [OF o]
      from v Inr have g: "get_prop rec ''taskId'' = Inr (JStr tid)" by simp
      from some v have f: "Task_findOne st (JStr tid) uid = Inr (Some t)" by simp
      from t' v have f': "Task_findOne st' (JStr tid) uid = Inr (Some t')" by simp
      show ?thesis
        unfolding alone_found [OF g f] alone_found [OF g f'] a
        using d d'
        by (auto split: sum.splits option.splits)
    qed
  qed
  then show "errors_list (alone h uid st' rec) = errors_list (alone h uid st rec)"
    and "length (updatedTasks (alone h uid st' rec)) = length (updatedTasks (alone h uid st rec))"
    and "snd (?i st') = snd (?i st)"
    and "docs st' tid0 = docs st tid0 \<Longrightarrow>
         docs (store (alone h uid st' rec)) tid0 = docs (store (alone h uid st rec)) tid0"
    by (simp_all add: alone_def)
qed

lemma applied_same_owners:
  "same_owners st st' \<Longrightarrow> applied h uid st' rec = applied h uid st rec"
  using alone_same_owners(2) [of st st' h uid rec]
  by (auto simp: applied_def)

text \<open>What an entry does to the store alone: nothing, or one write to the task it
  names, and then it is applied.\<close>

lemma alone_cases:
  "(store (alone h uid st rec) = st \<and> updatedTasks (alone h uid st rec) = [])
   \<or> (\<exists>tid t u due p.
         names rec tid \<and> Task_findOne st (JStr tid) uid = Inr (Some t)
         \<and> build_updateData h rec = Inr u \<and> has_keys u
         \<and> accepted_dueDate u = Inr due \<and> accepted_priority st u = Inr p
         \<and> store (alone h uid st rec) = st\<lparr> docs := (docs st)(tid \<mapsto> apply_update due p t) \<rparr>
         \<and> updatedTasks (alone h uid st rec) = [Some (apply_update due p t)]
         \<and> errors_list (alone h uid st rec) = [])"
  using apply_one_cases [of h uid "\<lparr> store = st, updatedTasks = [], errors_list = [] \<rparr>" rec]
  by (auto simp: alone_def)

lemma names_unique: "names rec a \<Longrightarrow> names rec b \<Longrightarrow> a = b"
  by (simp add: names_def)

lemma alone_untouched:
  "\<not> (applied h uid st rec \<and> names rec tid) \<Longrightarrow>
   docs (store (alone h uid st rec)) tid = docs st tid"
  using alone_cases [of h uid st rec]
  by (auto simp: applied_def dest: names_unique)

lemma alone_updated: "length (updatedTasks (alone h uid st r)) \<le> 1"
  using alone_cases [of h uid st r] by auto

lemma alone_same_owners_store: "same_owners st (store (alone h uid st rec))"
  using alone_cases [of h uid st rec]
  by (auto simp: same_owners_refl dest!: Task_findOne_Some intro: same_owners_write)

lemma applied_found:
  "applied h uid st rec \<Longrightarrow>
   \<exists>tid t. names rec tid \<and> docs st tid = Some t \<and> doc_userId t = uid"
  using alone_cases [of h uid st rec]
  by (auto simp: applied_def dest!: Task_findOne_Some)

text \<open>An entry whose identifier has a string form does not leave the loop.\<close>

lemma printable_no_throw:
  "printable h rec \<Longrightarrow> snd (apply_one h uid s rec) = None"
  by (cases "apply_try h uid s rec")
     (auto simp: printable_def apply_one_def failure_text_def split: sum.splits)

subsection \<open>The loop\<close>

lemma apply_loop_printable:
  "(\<forall>r \<in> set recs. printable h r) \<Longrightarrow>
   apply_loop h uid s recs = (foldl (\<lambda>s r. fst (apply_one h uid s r)) s recs, None)"
proof (induction recs arbitrary: s)
  case Nil
  then show ?case by simp
next
  case (Cons r recs)
  from Cons.prems have "snd (apply_one h uid s r) = None"
    by (simp add: printable_no_throw)
  then obtain s' where "apply_one h uid s r = (s', None)"
    by (cases "apply_one h uid s r") simp
  with Cons show ?case by simp
qed

lemma turn_store: "store (fst (apply_one h uid s r)) = store (alone h uid (store s) r)"
  by (simp add: apply_one_alone(1))

lemma turn_same_owners:
  "same_owners st (store s) \<Longrightarrow> same_owners st (store (fst (apply_one h uid s r)))"
  unfolding turn_store
  using alone_same_owners_store [of "store s" h uid r]
  by (blast intro: same_owners_trans)

lemma alone_count:
  "length (updatedTasks (alone h uid st r)) = (if applied h uid st r then 1 else 0)"
  using alone_updated [of h uid st r]
  by (cases "updatedTasks (alone h uid st r)") (auto simp: applied_def)

text \<open>The errors and the count an entry adds are those it gives alone against the
  store the request started from.\<close>

lemma turn_report:
  assumes "same_owners st (store s)"
  shows "errors_list (fst (apply_one h uid s r)) = errors_list s @ errors_list (alone h uid st r)"
    and "length (updatedTasks (fst (apply_one h uid s r)))
           = length (updatedTasks s) + (if applied h uid st r then 1 else 0)"
  using alone_same_owners(1,2) [OF assms, of h uid r]
  by (simp_all add: apply_one_alone(1) alone_count)

lemma fold_report:
  "same_owners st (store s) \<Longrightarrow>
   errors_list (foldl (\<lambda>s r. fst (apply_one h uid s r)) s recs)
     = errors_list s @ concat (map (\<lambda>r. errors_list (alone h uid st r)) recs)
   \<and> length (updatedTasks (foldl (\<lambda>s r. fst (apply_one h uid s r)) s recs))
     = length (updatedTasks s) + length (filter (applied h uid st) recs)"
proof (induction recs arbitrary: s)
  case Nil
  then show ?case by simp
next
  case (Cons r recs)
  from Cons.IH [OF turn_same_owners [OF Cons.prems, of h uid r]]
    turn_report [OF Cons.prems, of h uid r]
  show ?case by simp
qed

text \<open>A task that no applied entry names is not touched.\<close>

lemma turn_untouched:
  assumes "same_owners st (store s)" and "\<not> (applied h uid st r \<and> names r tid)"
  shows "docs (store (fst (apply_one h uid s r))) tid = docs (store s) tid"
  unfolding turn_store
  using assms applied_same_owners [OF assms(1), of h uid r]
  by (simp add: alone_untouched)

lemma fold_untouched:
  "same_owners st (store s) \<Longrightarrow>
   \<forall>r \<in> set recs. applied h uid st r \<longrightarrow> \<not> names r tid \<Longrightarrow>
   docs (store (foldl (\<lambda>s r. fst (apply_one h uid s r)) s recs)) tid = docs (store s) tid"
proof (induction recs arbitrary: s)
  case Nil
  then show ?case by simp
next
  case (Cons r recs)
  from Cons.prems(2) have "\<not> (applied h uid st r \<and> names r tid)" by simp
  from turn_untouched [OF Cons.prems(1) this]
    Cons.IH [OF turn_same_owners [OF Cons.prems(1), of h uid r]] Cons.prems(2)
  show ?case by simp
qed

text \<open>A task that one applied entry names, and no other, holds what that entry writes
  alone.\<close>

lemma fold_single:
  "same_owners st (store s) \<Longrightarrow> docs (store s) tid = docs st tid \<Longrightarrow>
   r0 \<in> set recs \<Longrightarrow> applied h uid st r0 \<Longrightarrow> names r0 tid \<Longrightarrow>
   distinct (map (\<lambda>r. get_prop r ''taskId'') (filter (applied h uid st) recs)) \<Longrightarrow>
   docs (store (foldl (\<lambda>s r. fst (apply_one h uid s r)) s recs)) tid
     = docs (store (alone h uid st r0)) tid"
proof (induction recs arbitrary: s)
  case Nil
  then show ?case by simp
next
  case (Cons x xs)
  note o = turn_same_owners [OF Cons.prems(1), of h uid x]
  show ?case
  proof (cases "applied h uid st x \<and> names x tid")
    case True
    with Cons.prems(5) have k: "get_prop x ''taskId'' = get_prop r0 ''taskId''"
      by (simp add: names_def)
    from True Cons.prems(6)
    have n: "get_prop x ''taskId'' \<notin> (\<lambda>r. get_prop r ''taskId'') ` {r \<in> set xs. applied h uid st r}"
      by simp
    have "r0 \<notin> set xs"
    proof
      assume "r0 \<in> set xs"
      with Cons.prems(4) have "r0 \<in> {r \<in> set xs. applied h uid st r}" by simp
      then have "get_prop r0 ''taskId'' \<in> (\<lambda>r. get_prop r ''taskId'') ` {r \<in> set xs. applied h uid st r}"
        by (rule imageI)
      with n k show False by simp
    qed
    with Cons.prems(3) have x: "r0 = x" by simp
    have u: "\<forall>r \<in> set xs. applied h uid st r \<longrightarrow> \<not> names r tid"
    proof (intro ballI impI notI)
      fix r assume r: "r \<in> set xs" "applied h uid st r" "names r tid"
      from r(3) True have "get_prop r ''taskId'' = get_prop x ''taskId''"
        by (simp add: names_def)
      moreover from r(1,2)
      have "get_prop r ''taskId'' \<in> (\<lambda>r. get_prop r ''taskId'') ` {r \<in> set xs. applied h uid st r}"
        by blast
      ultimately show False using n by simp
    qed
    have "docs (store (fst (apply_one h uid s x))) tid = docs (store (alone h uid st x)) tid"
      unfolding turn_store
      using alone_same_owners(4) [OF Cons.prems(1), of tid h uid x] Cons.prems(2) by simp
    with fold_untouched [OF o u] x show ?thesis by simp
  next
    case False
    with Cons.prems(4,5) have "r0 \<noteq> x" by blast
    with Cons.prems(3) have m: "r0 \<in> set xs" by simp
    from turn_untouched [OF Cons.prems(1) False] Cons.prems(2)
    have d: "docs (store (fst (apply_one h uid s x))) tid = docs st tid" by simp
    from Cons.prems(6)
    have "distinct (map (\<lambda>r. get_prop r ''taskId'') (filter (applied h uid st) xs))"
      by (simp split: if_splits)
    from Cons.IH [OF o d m Cons.prems(4,5) this] show ?thesis by simp
  qed
qed

subsection \<open>The frame of an update\<close>

lemma get_prop_defined: "get_prop rec k = Inr v \<Longrightarrow> \<exists>w. get_prop rec k' = Inr w"
  by (cases rec) simp_all

lemma record_frame_refl:
  "(t0 :: TaskDoc) = t0\<lparr> doc_dueDate := doc_dueDate t0, doc_priority := doc_priority t0 \<rparr>"
  by simp

lemma apply_one_doc:
  assumes "docs (store s) tid = Some t0"
  shows "\<exists>t1. docs (store (fst (apply_one h uid s rec))) tid = Some t1
     \<and> t1 = t0\<lparr> doc_dueDate := doc_dueDate t1, doc_priority := doc_priority t1 \<rparr>
     \<and> (\<not> names rec tid \<longrightarrow> t1 = t0)
     \<and> (\<not> supplies h rec ''suggestedDueDate'' \<longrightarrow> doc_dueDate t1 = doc_dueDate t0)
     \<and> (\<not> supplies h rec ''suggestedPriority'' \<longrightarrow> doc_priority t1 = doc_priority t0)
     \<and> (doc_dueDate t0 \<noteq> None \<longrightarrow> doc_dueDate t1 \<noteq> None)"
proof -
  consider (same) "store (fst (apply_one h uid s rec)) = store s"
    | (upd) tid' t u due p where "names rec tid'"
        "Task_findOne (store s) (JStr tid') uid = Inr (Some t)"
        "build_updateData h rec = Inr u"
        "accepted_dueDate u = Inr due" "accepted_priority (store s) u = Inr p"
        "store (fst (apply_one h uid s rec))
           = (store s)\<lparr> docs := (docs (store s))(tid' \<mapsto> apply_update due p t) \<rparr>"
    using apply_one_cases [of h uid s rec] by auto
  then show ?thesis
  proof cases
    case same
    with assms show ?thesis by simp
  next
    case upd
    from upd(2) have d: "docs (store s) tid' = Some t"
      by (auto dest: Task_findOne_Some)
    note f = build_updateData_fields [OF upd(3)]
    note a = accepted_dueDate_None [OF upd(4)] accepted_priority_None [OF upd(5)]
    show ?thesis
    proof (cases "tid = tid'")
      case False
      with assms upd(1,6) show ?thesis by (auto dest: names_unique)
    next
      case True
      with assms d have "t = t0" by simp
      with True upd(1,6) f a show ?thesis
        by (cases due; cases p) (auto simp: apply_update_eq)
    qed
  qed
qed

lemma apply_loop_doc:
  "docs (store s) tid = Some t0 \<Longrightarrow>
   \<exists>t1. docs (store (fst (apply_loop h uid s recs))) tid = Some t1
     \<and> t1 = t0\<lparr> doc_dueDate := doc_dueDate t1, doc_priority := doc_priority t1 \<rparr>
     \<and> ((\<forall>r \<in> set recs. names r tid \<longrightarrow> \<not> supplies h r ''suggestedDueDate'')
          \<longrightarrow> doc_dueDate t1 = doc_dueDate t0)
     \<and> ((\<forall>r \<in> set recs. names r tid \<longrightarrow> \<not> supplies h r ''suggestedPriority'')
          \<longrightarrow> doc_priority t1 = doc_priority t0)
     \<and> (doc_dueDate t0 \<noteq> None \<longrightarrow> doc_dueDate t1 \<noteq> None)"
proof (induction recs arbitrary: s t0)
  case Nil
  then show ?case by simp
next
  case (Cons r recs)
  from apply_one_doc [OF Cons.prems, of h uid r] obtain t1 where
    t1: "docs (store (fst (apply_one h uid s r))) tid = Some t1"
    and f1: "t1 = t0\<lparr> doc_dueDate := doc_dueDate t1, doc_priority := doc_priority t1 \<rparr>"
    and o1: "\<not> names r tid \<longrightarrow> t1 = t0"
    and d1: "\<not> supplies h r ''suggestedDueDate'' \<longrightarrow> doc_dueDate t1 = doc_dueDate t0"
    and p1: "\<not> supplies h r ''suggestedPriority'' \<longrightarrow> doc_priority t1 = doc_priority t0"
    and c1: "doc_dueDate t0 \<noteq> None \<longrightarrow> doc_dueDate t1 \<noteq> None"
    by blast
  obtain s' x where a: "apply_one h uid s r = (s', x)"
    by (cases "apply_one h uid s r")
  show ?case
  proof (cases x)
    case (Some e)
    with a have "fst (apply_loop h uid s (r # recs)) = fst (apply_one h uid s r)" by simp
    moreover have "t1 = t0" if "\<not> names r tid" using that o1 by simp
    ultimately show ?thesis
      using t1 f1 d1 p1 c1 by (auto simp del: apply_loop.simps)
  next
    case None
    with a have l: "fst (apply_loop h uid s (r # recs)) = fst (apply_loop h uid s' recs)"
      and s': "s' = fst (apply_one h uid s r)" by simp_all
    from t1 s' have "docs (store s') tid = Some t1" by simp
    from Cons.IH [OF this] obtain t2 where
      t2: "docs (store (fst (apply_loop h uid s' recs))) tid = Some t2"
      and f2: "t2 = t1\<lparr> doc_dueDate := doc_dueDate t2, doc_priority := doc_priority t2 \<rparr>"
      and d2: "(\<forall>r \<in> set recs. names r tid \<longrightarrow> \<not> supplies h r ''suggestedDueDate'')
            \<longrightarrow> doc_dueDate t2 = doc_dueDate t1"
      and p2: "(\<forall>r \<in> set recs. names r tid \<longrightarrow> \<not> supplies h r ''suggestedPriority'')
            \<longrightarrow> doc_priority t2 = doc_priority t1"
      and c2: "doc_dueDate t1 \<noteq> None \<longrightarrow> doc_dueDate t2 \<noteq> None"
      by blast
    have f: "t2 = t0\<lparr> doc_dueDate := doc_dueDate t2, doc_priority := doc_priority t2 \<rparr>"
      by (subst f2, subst f1) simp
    have d: "(\<forall>r' \<in> set (r # recs). names r' tid \<longrightarrow> \<not> supplies h r' ''suggestedDueDate'')
            \<longrightarrow> doc_dueDate t2 = doc_dueDate t0"
      using d1 d2 o1 by (cases "names r tid") auto
    have p: "(\<forall>r' \<in> set (r # recs). names r' tid \<longrightarrow> \<not> supplies h r' ''suggestedPriority'')
            \<longrightarrow> doc_priority t2 = doc_priority t0"
      using p1 p2 o1 by (cases "names r tid") auto
    from t2 f d p c1 c2 l show ?thesis by (auto simp del: apply_loop.simps)
  qed
qed

lemma snd_applyWorkloadOptimization:
  "snd (applyWorkloadOptimization h valid st user body) = st
   \<or> (\<exists>uid. snd (applyWorkloadOptimization h valid st user body)
              = store (fst (apply_loop h uid
                              \<lparr> store = st, updatedTasks = [], errors_list = [] \<rparr>
                              (entries body))))"
proof (cases "\<exists>recs uid. body = JArr recs \<and> valid recs \<and> user = Some uid")
  case True
  then obtain recs uid where b: "body = JArr recs" "valid recs" "user = Some uid" by blast
  obtain s' x where
    l: "apply_loop h uid \<lparr> store = st, updatedTasks = [], errors_list = [] \<rparr> recs = (s', x)"
    by (cases "apply_loop h uid \<lparr> store = st, updatedTasks = [], errors_list = [] \<rparr> recs")
  have "snd (applyWorkloadOptimization h valid st user body) = store s'"
    using b l by (cases x) (simp_all add: applyWorkloadOptimization_def)
  moreover have "s' = fst (apply_loop h uid \<lparr> store = st, updatedTasks = [], errors_list = [] \<rparr>
                              (entries body))"
    using b l by (simp add: entries_def)
  ultimately show ?thesis by blast
next
  case False
  then have "snd (applyWorkloadOptimization h valid st user body) = st"
    by (cases body; cases user) (auto simp: applyWorkloadOptimization_def)
  then show ?thesis by simp
qed

lemma batch_doc:
  assumes "docs st tid = Some t0"
  shows "\<exists>t1. docs (snd (applyWorkloadOptimization h valid st user body)) tid = Some t1
     \<and> t1 = t0\<lparr> doc_dueDate := doc_dueDate t1, doc_priority := doc_priority t1 \<rparr>
     \<and> ((\<forall>r \<in> set (entries body). names r tid \<longrightarrow> \<not> supplies h r ''suggestedDueDate'')
          \<longrightarrow> doc_dueDate t1 = doc_dueDate t0)
     \<and> ((\<forall>r \<in> set (entries body). names r tid \<longrightarrow> \<not> supplies h r ''suggestedPriority'')
          \<longrightarrow> doc_priority t1 = doc_priority t0)
     \<and> (doc_dueDate t0 \<noteq> None \<longrightarrow> doc_dueDate t1 \<noteq> None)"
proof -
  consider (same) "snd (applyWorkloadOptimization h valid st user body) = st"
    | (run) uid where "snd (applyWorkloadOptimization h valid st user body)
              = store (fst (apply_loop h uid
                              \<lparr> store = st, updatedTasks = [], errors_list = [] \<rparr>
                              (entries body)))"
    using snd_applyWorkloadOptimization [of h valid st user body] by blast
  then show ?thesis
  proof cases
    case same
    with assms show ?thesis by simp
  next
    case run
    have "docs (store \<lparr> store = st, updatedTasks = [], errors_list = [] \<rparr>) tid = Some t0"
      using assms by simp
    from apply_loop_doc [OF this, of h uid "entries body"] run show ?thesis by simp
  qed
qed

subsection \<open>Single turns\<close>

lemma not_supplied:
  "get_prop rec k = Inr v \<Longrightarrow> \<not> supplies h rec k' \<Longrightarrow>
   \<exists>w. get_prop rec k' = Inr w \<and> \<not> truthy h w"
  using get_prop_defined [of rec k v k'] by (auto simp: supplies_def)

lemma apply_one_priority_only:
  assumes "get_prop rec ''taskId'' = Inr (JStr tid)"
    and "Task_findOne (store s) (JStr tid) uid = Inr (Some t)"
    and "\<not> supplies h rec ''suggestedDueDate''"
    and "get_prop rec ''suggestedPriority'' = Inr (JStr p)" and "p \<noteq> []"
  shows "apply_one h uid s rec
     = (s\<lparr> store := (store s)\<lparr> docs := (docs (store s))(tid \<mapsto> t\<lparr> doc_priority := p \<rparr>) \<rparr>,
           updatedTasks := updatedTasks s @ [Some (t\<lparr> doc_priority := p \<rparr>)] \<rparr>, None)"
proof -
  from assms(2) have d: "docs (store s) tid = Some t" "query_error (store s) (JStr tid) = None"
    by (auto dest: Task_findOne_Some)
  from not_supplied [OF assms(1,3)] obtain w where
    w: "get_prop rec ''suggestedDueDate'' = Inr w" "\<not> truthy h w" by blast
  with assms(4,5)
  have b: "build_updateData h rec = Inr \<lparr> upd_dueDate = None, upd_priority = Some (JStr p) \<rparr>"
    by (simp add: build_updateData_def)
  show ?thesis
    using assms(1,2) d b
    by (simp add: apply_one_def apply_try_def has_keys_def update_result
        accepted_dueDate_def accepted_priority_def apply_update_def)
qed

lemma apply_one_date_only:
  assumes "get_prop rec ''taskId'' = Inr (JStr tid)"
    and "Task_findOne (store s) (JStr tid) uid = Inr (Some t)"
    and "\<not> supplies h rec ''suggestedPriority''"
    and "get_prop rec ''suggestedDueDate'' = Inr d" and "truthy h d"
    and "Date_new h d = Inr (Some ms)"
  shows "apply_one h uid s rec
     = (s\<lparr> store := (store s)\<lparr> docs := (docs (store s))(tid \<mapsto> t\<lparr> doc_dueDate := Some ms \<rparr>) \<rparr>,
           updatedTasks := updatedTasks s @ [Some (t\<lparr> doc_dueDate := Some ms \<rparr>)] \<rparr>, None)"
proof -
  from assms(2) have d: "docs (store s) tid = Some t" "query_error (store s) (JStr tid) = None"
    by (auto dest: Task_findOne_Some)
  from not_supplied [OF assms(1,3)] obtain w where
    w: "get_prop rec ''suggestedPriority'' = Inr w" "\<not> truthy h w" by blast
  with assms(4-6)
  have b: "build_updateData h rec = Inr \<lparr> upd_dueDate = Some (Some ms), upd_priority = None \<rparr>"
    by (simp add: build_updateData_def)
  show ?thesis
    using assms(1,2) d b
    by (simp add: apply_one_def apply_try_def has_keys_def update_result
        accepted_dueDate_def accepted_priority_def apply_update_def)
qed

lemma apply_one_not_found:
  "get_prop rec ''taskId'' = Inr v \<Longrightarrow> Task_findOne (store s) v uid = Inr None \<Longrightarrow>
   ToString h v = Inr shown \<Longrightarrow>
   apply_one h uid s rec
     = (s\<lparr> errors_list := errors_list s @ [''Task '' @ shown @ '' not found''] \<rparr>, None)"
  by (simp add: apply_one_def apply_try_def)

lemma apply_one_lookup_throws:
  "get_prop rec ''taskId'' = Inr v \<Longrightarrow> Task_findOne (store s) v uid = Inl e \<Longrightarrow>
   ToString h v = Inr shown \<Longrightarrow>
   apply_one h uid s rec
     = (s\<lparr> errors_list := errors_list s
            @ [''Failed to update task '' @ shown @ '': '' @ error_message e] \<rparr>, None)"
  by (simp add: apply_one_def apply_try_def failure_text_def)

lemma apply_one_nothing:
  assumes "get_prop rec ''taskId'' = Inr v"
    and "Task_findOne (store s) v uid = Inr (Some t)"
    and "\<not> supplies h rec ''suggestedDueDate''"
    and "\<not> supplies h rec ''suggestedPriority''"
  shows "apply_one h uid s rec = (s, None)"
proof -
  from not_supplied [OF assms(1,3)] obtain w where
    w: "get_prop rec ''suggestedDueDate'' = Inr w" "\<not> truthy h w" by blast
  from not_supplied [OF assms(1,4)] obtain w' where
    w': "get_prop rec ''suggestedPriority'' = Inr w'" "\<not> truthy h w'" by blast
  from w w' have "build_updateData h rec = Inr \<lparr> upd_dueDate = None, upd_priority = None \<rparr>"
    by (simp add: build_updateData_def)
  with assms(1,2) show ?thesis
    by (simp add: apply_one_def apply_try_def has_keys_def)
qed

text \<open>An identifier that has no string form is no text, so its lookup finds no task;
  the handler of the inner \<^verbatim>\<open>catch\<close> then throws while it builds its text, and the
  exception leaves the loop. So a turn leaves the loop exactly when the identifier of
  its entry cannot be read or has no string form.\<close>

lemma unprintable_never_found:
  "ToString h v = Inl e \<Longrightarrow> Task_findOne st v uid \<noteq> Inr (Some t)"
  by (auto dest: Task_findOne_Some)

lemma apply_one_unprintable:
  assumes "get_prop rec ''taskId'' = Inr v" and "ToString h v = Inl e"
  shows "apply_one h uid s rec = (s, Some e)"
proof (cases "Task_findOne (store s) v uid")
  case (Inl e')
  with assms show ?thesis
    by (simp add: apply_one_def apply_try_def failure_text_def)
next
  case (Inr task)
  with unprintable_never_found [OF assms(2), of "store s" uid] have "task = None"
    by (cases task) auto
  with Inr assms show ?thesis
    by (simp add: apply_one_def apply_try_def failure_text_def)
qed

lemma leaves_loop_iff: "(snd (apply_one h uid s rec) \<noteq> None) = (\<not> printable h rec)"
proof (cases "get_prop rec ''taskId''")
  case (Inl e)
  then show ?thesis
    by (simp add: printable_def apply_one_def apply_try_def failure_text_def)
next
  case (Inr v)
  show ?thesis
  proof (cases "ToString h v")
    case (Inl e)
    with Inr apply_one_unprintable [OF Inr Inl, of uid s] show ?thesis
      by (simp add: printable_def)
  next
    case r: (Inr shown)
    with Inr have "printable h rec" by (simp add: printable_def)
    then show ?thesis by (simp add: printable_no_throw)
  qed
qed

subsection \<open>The report\<close>

lemma applied_iff:
  "applied h uid st rec =
     (\<exists>v t u w. get_prop rec ''taskId'' = Inr v \<and> Task_findOne st v uid = Inr (Some t)
        \<and> build_updateData h rec = Inr u \<and> has_keys u
        \<and> Task_findByIdAndUpdate st v u = Inr w)"
proof
  assume "applied h uid st rec"
  with alone_cases [of h uid st rec] obtain tid t u due p where
    a: "names rec tid" "Task_findOne st (JStr tid) uid = Inr (Some t)"
       "build_updateData h rec = Inr u" "has_keys u"
       "accepted_dueDate u = Inr due" "accepted_priority st u = Inr p"
    by (auto simp: applied_def)
  from a(2) have "docs st tid = Some t" "query_error st (JStr tid) = None"
    by (auto dest: Task_findOne_Some)
  with a(5,6) have "\<exists>w. Task_findByIdAndUpdate st (JStr tid) u = Inr w"
    by (simp add: update_result)
  with a show "\<exists>v t u w. get_prop rec ''taskId'' = Inr v \<and> Task_findOne st v uid = Inr (Some t)
        \<and> build_updateData h rec = Inr u \<and> has_keys u
        \<and> Task_findByIdAndUpdate st v u = Inr w"
    unfolding names_def by blast
next
  assume "\<exists>v t u w. get_prop rec ''taskId'' = Inr v \<and> Task_findOne st v uid = Inr (Some t)
        \<and> build_updateData h rec = Inr u \<and> has_keys u
        \<and> Task_findByIdAndUpdate st v u = Inr w"
  then obtain v t u w where "get_prop rec ''taskId'' = Inr v"
    "Task_findOne st v uid = Inr (Some t)" "build_updateData h rec = Inr u" "has_keys u"
    "Task_findByIdAndUpdate st v u = Inr w"
    by blast
  then show "applied h uid st rec"
    by (cases w) (simp add: applied_def alone_def apply_one_def apply_try_def)
qed

lemma applied_report:
  assumes "valid recs" and "\<forall>r \<in> set recs. printable h r"
  shows "applyWorkloadOptimization h valid st (Some uid) (JArr recs)
     = (Applied (length (filter (applied h uid st) recs))
          (if concat (map (\<lambda>r. errors_list (alone h uid st r)) recs) = [] then None
           else Some (concat (map (\<lambda>r. errors_list (alone h uid st r)) recs)))
          (''Successfully updated ''
             @ int_to_string (int (length (filter (applied h uid st) recs)))
             @ '' task(s)''),
        store (foldl (\<lambda>s r. fst (apply_one h uid s r))
                 \<lparr> store = st, updatedTasks = [], errors_list = [] \<rparr> recs))"
proof -
  let ?i = "\<lparr> store = st, updatedTasks = [], errors_list = [] \<rparr>"
  let ?f = "foldl (\<lambda>s r. fst (apply_one h uid s r)) ?i recs"
  have l: "apply_loop h uid ?i recs = (?f, None)"
    using assms(2) by (rule apply_loop_printable)
  have "same_owners st (store ?i)" by (simp add: same_owners_refl)
  from fold_report [OF this, of h uid recs]
  have e: "errors_list ?f = concat (map (\<lambda>r. errors_list (alone h uid st r)) recs)"
    and u: "length (updatedTasks ?f) = length (filter (applied h uid st) recs)"
    by simp_all
  show ?thesis
    using assms(1)
    by (cases "concat (map (\<lambda>r. errors_list (alone h uid st r)) recs) = []")
       (simp_all add: applyWorkloadOptimization_def l e u)
qed

lemma written_tasks:
  assumes "distinct (map (\<lambda>r. get_prop r ''taskId'') (filter (applied h uid st) recs))"
  shows "length (filter (applied h uid st) recs)
     = card {tid. \<exists>r \<in> set recs. applied h uid st r \<and> names r tid}"
proof -
  let ?W = "filter (applied h uid st) recs"
  let ?g = "\<lambda>r. get_prop r ''taskId''"
  define f where "f r = (case get_prop r ''taskId'' of Inr (JStr tid) \<Rightarrow> tid | _ \<Rightarrow> [])" for r
  have n: "names r tid = (tid = f r)" if "r \<in> set ?W" for r tid
  proof -
    from that have "applied h uid st r" by simp
    from applied_found [OF this] obtain tid' where "names r tid'" by blast
    then show ?thesis by (auto simp: names_def f_def)
  qed
  have "{tid. \<exists>r \<in> set recs. applied h uid st r \<and> names r tid} = f ` set ?W"
  proof (intro set_eqI iffI)
    fix tid assume "tid \<in> {tid. \<exists>r \<in> set recs. applied h uid st r \<and> names r tid}"
    then obtain r where r: "r \<in> set ?W" "names r tid" by auto
    with n [OF r(1), of tid] show "tid \<in> f ` set ?W" by blast
  next
    fix tid assume "tid \<in> f ` set ?W"
    then obtain r where r: "r \<in> set ?W" "tid = f r" by blast
    with n [OF r(1), of tid] show "tid \<in> {tid. \<exists>r \<in> set recs. applied h uid st r \<and> names r tid}"
      by auto
  qed
  moreover have "inj_on f (set ?W)"
  proof (rule inj_onI)
    fix a b assume ab: "a \<in> set ?W" "b \<in> set ?W" "f a = f b"
    from n [OF ab(1), of "f a"] n [OF ab(2), of "f b"] ab(3)
    have "?g a = ?g b" by (simp add: names_def)
    with assms ab(1,2) show "a = b"
      by (meson distinct_map inj_onD)
  qed
  moreover from assms have "distinct ?W" by (simp add: distinct_map)
  then have "card (set ?W) = length ?W" by (rule distinct_card)
  ultimately show ?thesis
    by (simp only: card_image)
qed

lemma applied_store:
  assumes "valid recs" and "\<forall>r \<in> set recs. printable h r"
  shows "\<forall>r \<in> set recs. applied h uid st r \<longrightarrow> \<not> names r tid \<Longrightarrow>
         docs (snd (applyWorkloadOptimization h valid st (Some uid) (JArr recs))) tid = docs st tid"
    and "distinct (map (\<lambda>r. get_prop r ''taskId'') (filter (applied h uid st) recs)) \<Longrightarrow>
         r \<in> set recs \<Longrightarrow> applied h uid st r \<Longrightarrow> names r tid \<Longrightarrow>
         docs (snd (applyWorkloadOptimization h valid st (Some uid) (JArr recs))) tid
           = docs (store (alone h uid st r)) tid"
proof -
  let ?i = "\<lparr> store = st, updatedTasks = [], errors_list = [] \<rparr>"
  have o: "same_owners st (store ?i)" by (simp add: same_owners_refl)
  have d: "docs (store ?i) tid = docs st tid" by simp
  note a = applied_report [where valid = valid and recs = recs and h = h and st = st
      and uid = uid, OF assms]
  show "docs (snd (applyWorkloadOptimization h valid st (Some uid) (JArr recs))) tid = docs st tid"
    if "\<forall>r \<in> set recs. applied h uid st r \<longrightarrow> \<not> names r tid"
    using fold_untouched [OF o that] by (simp add: a)
  show "docs (snd (applyWorkloadOptimization h valid st (Some uid) (JArr recs))) tid
           = docs (store (alone h uid st r)) tid"
    if "distinct (map (\<lambda>r. get_prop r ''taskId'') (filter (applied h uid st) recs))"
      "r \<in> set recs" "applied h uid st r" "names r tid"
    using fold_single [OF o d that(2,3,4,1)] by (simp add: a)
qed

lemma rejected_requests:
  "\<not> valid recs \<Longrightarrow> applyWorkloadOptimization h valid st user (JArr recs) = (BadRequest, st)"
  "valid recs \<Longrightarrow> applyWorkloadOptimization h valid st None (JArr recs) = (Unauthorized, st)"
  by (simp_all add: applyWorkloadOptimization_def)

subsection \<open>The examples\<close>

lemma example_lookups:
  "Task_findOne example_store (JStr ''T1'') ''u1'' = Inr (Some doc_T1)"
  "Task_findOne example_store (JStr ''T2'') ''u1'' = Inr None"
  "Task_findOne example_store (JStr ''T9'') ''u1'' = Inr None"
  "Task_findOne example_store (JNum ''5'') ''u1'' = Inl (Error ''Cast to ObjectId failed'')"
  "Task_findOne example_store (JObj [(''toString'', JNum ''1'')]) ''u1''
     = Inl (Error ''Cast to ObjectId failed'')"
  by (simp_all add: Task_findOne_def document_of_def example_store_def doc_T1_def doc_T2_def)

lemma example_docs:
  "docs example_store ''T1'' = Some doc_T1" "docs example_store ''T2'' = Some doc_T2"
  "docs example_store ''T9'' = None" "query_error example_store (JStr tid) = None"
  by (simp_all add: example_store_def)

lemma example_date: "Date_new example_host (JStr ''2024-01-05'') = Inr (Some 1704412800000)"
  by code_simp

lemma example_members:
  "get_prop item_priority ''taskId'' = Inr (JStr ''T1'')"
  "get_prop item_priority ''suggestedPriority'' = Inr (JStr ''high'')"
  "\<not> supplies h item_priority ''suggestedDueDate''"
  "get_prop item_date ''taskId'' = Inr (JStr ''T1'')"
  "get_prop item_date ''suggestedDueDate'' = Inr (JStr ''2024-01-05'')"
  "\<not> supplies h item_date ''suggestedPriority''"
  "get_prop item_missing ''taskId'' = Inr (JStr ''T9'')"
  "get_prop item_foreign ''taskId'' = Inr (JStr ''T2'')"
  "get_prop item_nothing ''taskId'' = Inr (JStr ''T1'')"
  "\<not> supplies h item_nothing ''suggestedDueDate''"
  "\<not> supplies h item_nothing ''suggestedPriority''"
  "get_prop item_number ''taskId'' = Inr (JNum ''5'')"
  "get_prop item_odd_id ''taskId'' = Inr (JObj [(''toString'', JNum ''1'')])"
  by (simp_all add: item_priority_def item_date_def item_missing_def item_foreign_def
      item_nothing_def item_number_def item_odd_id_def supplies_def)

lemma example_printable:
  "printable example_host item_priority" "printable example_host item_date"
  "printable example_host item_missing" "printable example_host item_number"
  "\<not> printable example_host item_odd_id"
  by (simp_all add: printable_def example_members)

lemma example_valid:
  "example_validator [item_priority, item_missing]"
  "example_validator [item_priority, item_priority, item_date]"
  "example_validator [item_nothing, item_date]"
  "example_validator [item_priority, item_odd_id]"
  "\<not> example_validator [item_priority, item_no_id]"
  unfolding item_priority_def item_missing_def item_date_def item_nothing_def
    item_odd_id_def item_no_id_def
  by code_simp+

lemma turn_priority:
  assumes "docs (store s) ''T1'' = Some t" and "doc_userId t = ''u1''"
    and "query_error (store s) = query_error example_store"
  shows "apply_one example_host ''u1'' s item_priority
     = (s\<lparr> store := (store s)\<lparr> docs := (docs (store s))(''T1'' \<mapsto> t\<lparr> doc_priority := ''high'' \<rparr>) \<rparr>,
           updatedTasks := updatedTasks s @ [Some (t\<lparr> doc_priority := ''high'' \<rparr>)] \<rparr>, None)"
proof -
  from assms have "Task_findOne (store s) (JStr ''T1'') ''u1'' = Inr (Some t)"
    by (simp add: Task_findOne_def document_of_def example_store_def)
  from apply_one_priority_only [OF example_members(1) this example_members(3,2)]
  show ?thesis by simp
qed

lemma turn_date:
  assumes "docs (store s) ''T1'' = Some t" and "doc_userId t = ''u1''"
    and "query_error (store s) = query_error example_store"
  shows "apply_one example_host ''u1'' s item_date
     = (s\<lparr> store := (store s)\<lparr> docs := (docs (store s))(''T1'' \<mapsto> t\<lparr> doc_dueDate := Some 1704412800000 \<rparr>) \<rparr>,
           updatedTasks := updatedTasks s @ [Some (t\<lparr> doc_dueDate := Some 1704412800000 \<rparr>)] \<rparr>,
        None)"
proof -
  from assms have "Task_findOne (store s) (JStr ''T1'') ''u1'' = Inr (Some t)"
    by (simp add: Task_findOne_def document_of_def example_store_def)
  from apply_one_date_only [OF example_members(4) this example_members(6,5) _ example_date]
  show ?thesis by simp
qed

lemma alone_priority:
  "updatedTasks (alone example_host ''u1'' example_store item_priority)
     = [Some (doc_T1\<lparr> doc_priority := ''high'' \<rparr>)]"
  "errors_list (alone example_host ''u1'' example_store item_priority) = []"
  "docs (store (alone example_host ''u1'' example_store item_priority)) ''T1''
     = Some (doc_T1\<lparr> doc_priority := ''high'' \<rparr>)"
  "applied example_host ''u1'' example_store item_priority"
  using turn_priority [of "\<lparr> store = example_store, updatedTasks = [], errors_list = [] \<rparr>" doc_T1]
  by (simp_all add: alone_def applied_def example_docs doc_T1_def)

lemma alone_missing:
  "updatedTasks (alone example_host ''u1'' example_store item_missing) = []"
  "errors_list (alone example_host ''u1'' example_store item_missing) = [''Task T9 not found'']"
  "\<not> applied example_host ''u1'' example_store item_missing"
  using apply_one_not_found [of item_missing "JStr ''T9''"
      "\<lparr> store = example_store, updatedTasks = [], errors_list = [] \<rparr>" "''u1''" example_host "''T9''"]
  by (simp_all add: alone_def applied_def example_members example_lookups)

lemma small_numbers: "int_to_string 1 = ''1''" "int_to_string 3 = ''3''"
  by code_simp+

text \<open>Claim C8. One turn of the loop changes no field of any task other than the due
  date and the priority; it leaves the due date as it is when the entry supplies no
  truthy \<^verbatim>\<open>suggestedDueDate\<close> and the priority as it is when the entry supplies no truthy
  \<^verbatim>\<open>suggestedPriority\<close>, whether the turn ends normally or by an exception. For an owned
  task, an entry with only a priority sets just the priority and an entry with only a
  (valid) date sets just the due date. The same frame holds for a whole request,
  whatever its response.\<close>

theorem C8_partial_update:
  "(\<forall>tid t0. docs (store s) tid = Some t0 \<longrightarrow>
      (\<exists>t1. docs (store (fst (apply_one h uid s rec))) tid = Some t1
         \<and> t1 = t0\<lparr> doc_dueDate := doc_dueDate t1, doc_priority := doc_priority t1 \<rparr>
         \<and> (\<not> supplies h rec ''suggestedDueDate'' \<longrightarrow> doc_dueDate t1 = doc_dueDate t0)
         \<and> (\<not> supplies h rec ''suggestedPriority'' \<longrightarrow> doc_priority t1 = doc_priority t0)))
   \<and> (\<forall>tid t p. get_prop rec ''taskId'' = Inr (JStr tid)
         \<and> Task_findOne (store s) (JStr tid) uid = Inr (Some t)
         \<and> \<not> supplies h rec ''suggestedDueDate''
         \<and> get_prop rec ''suggestedPriority'' = Inr (JStr p) \<and> p \<noteq> []
       \<longrightarrow> docs (store (fst (apply_one h uid s rec))) tid = Some (t\<lparr> doc_priority := p \<rparr>))
   \<and> (\<forall>tid t d ms. get_prop rec ''taskId'' = Inr (JStr tid)
         \<and> Task_findOne (store s) (JStr tid) uid = Inr (Some t)
         \<and> \<not> supplies h rec ''suggestedPriority''
         \<and> get_prop rec ''suggestedDueDate'' = Inr d \<and> truthy h d
         \<and> Date_new h d = Inr (Some ms)
       \<longrightarrow> docs (store (fst (apply_one h uid s rec))) tid = Some (t\<lparr> doc_dueDate := Some ms \<rparr>))
   \<and> (\<forall>tid t0. docs st tid = Some t0 \<longrightarrow>
      (\<exists>t1. docs (snd (applyWorkloadOptimization h valid st user body)) tid = Some t1
         \<and> t1 = t0\<lparr> doc_dueDate := doc_dueDate t1, doc_priority := doc_priority t1 \<rparr>
         \<and> ((\<forall>r \<in> set (entries body). names r tid \<longrightarrow> \<not> supplies h r ''suggestedDueDate'')
              \<longrightarrow> doc_dueDate t1 = doc_dueDate t0)
         \<and> ((\<forall>r \<in> set (entries body). names r tid \<longrightarrow> \<not> supplies h r ''suggestedPriority'')
              \<longrightarrow> doc_priority t1 = doc_priority t0)))"
proof (intro conjI allI impI)
  fix tid t0
  assume "docs (store s) tid = Some t0"
  from apply_one_doc [OF this, of h uid rec]
  show "\<exists>t1. docs (store (fst (apply_one h uid s rec))) tid = Some t1
         \<and> t1 = t0\<lparr> doc_dueDate := doc_dueDate t1, doc_priority := doc_priority t1 \<rparr>
         \<and> (\<not> supplies h rec ''suggestedDueDate'' \<longrightarrow> doc_dueDate t1 = doc_dueDate t0)
         \<and> (\<not> supplies h rec ''suggestedPriority'' \<longrightarrow> doc_priority t1 = doc_priority t0)"
    by blast
next
  fix tid t p
  assume a: "get_prop rec ''taskId'' = Inr (JStr tid)
         \<and> Task_findOne (store s) (JStr tid) uid = Inr (Some t)
         \<and> \<not> supplies h rec ''suggestedDueDate''
         \<and> get_prop rec ''suggestedPriority'' = Inr (JStr p) \<and> p \<noteq> []"
  then have "apply_one h uid s rec
     = (s\<lparr> store := (store s)\<lparr> docs := (docs (store s))(tid \<mapsto> t\<lparr> doc_priority := p \<rparr>) \<rparr>,
           updatedTasks := updatedTasks s @ [Some (t\<lparr> doc_priority := p \<rparr>)] \<rparr>, None)"
    by (intro apply_one_priority_only) simp_all
  then show "docs (store (fst (apply_one h uid s rec))) tid = Some (t\<lparr> doc_priority := p \<rparr>)"
    by simp
next
  fix tid t d ms
  assume a: "get_prop rec ''taskId'' = Inr (JStr tid)
         \<and> Task_findOne (store s) (JStr tid) uid = Inr (Some t)
         \<and> \<not> supplies h rec ''suggestedPriority''
         \<and> get_prop rec ''suggestedDueDate'' = Inr d \<and> truthy h d
         \<and> Date_new h d = Inr (Some ms)"
  then have "apply_one h uid s rec
     = (s\<lparr> store := (store s)\<lparr> docs := (docs (store s))(tid \<mapsto> t\<lparr> doc_dueDate := Some ms \<rparr>) \<rparr>,
           updatedTasks := updatedTasks s @ [Some (t\<lparr> doc_dueDate := Some ms \<rparr>)] \<rparr>, None)"
    by (intro apply_one_date_only [where d = d]) simp_all
  then show "docs (store (fst (apply_one h uid s rec))) tid = Some (t\<lparr> doc_dueDate := Some ms \<rparr>)"
    by simp
next
  fix tid t0
  assume "docs st tid = Some t0"
  from batch_doc [OF this, of h valid user body]
  show "\<exists>t1. docs (snd (applyWorkloadOptimization h valid st user body)) tid = Some t1
         \<and> t1 = t0\<lparr> doc_dueDate := doc_dueDate t1, doc_priority := doc_priority t1 \<rparr>
         \<and> ((\<forall>r \<in> set (entries body). names r tid \<longrightarrow> \<not> supplies h r ''suggestedDueDate'')
              \<longrightarrow> doc_dueDate t1 = doc_dueDate t0)
         \<and> ((\<forall>r \<in> set (entries body). names r tid \<longrightarrow> \<not> supplies h r ''suggestedPriority'')
              \<longrightarrow> doc_priority t1 = doc_priority t0)"
    by blast
qed

theorem C8_witness:
  "get_prop item_priority ''taskId'' = Inr (JStr ''T1'')
   \<and> Task_findOne (store start) (JStr ''T1'') ''u1'' = Inr (Some doc_T1)
   \<and> \<not> supplies example_host item_priority ''suggestedDueDate''
   \<and> get_prop item_priority ''suggestedPriority'' = Inr (JStr ''high'')
   \<and> docs (store (fst (apply_one example_host ''u1'' start item_priority))) ''T1''
       = Some (doc_T1\<lparr> doc_priority := ''high'' \<rparr>)
   \<and> doc_dueDate (doc_T1\<lparr> doc_priority := ''high'' \<rparr>) = doc_dueDate doc_T1
   \<and> get_prop item_date ''taskId'' = Inr (JStr ''T1'')
   \<and> \<not> supplies example_host item_date ''suggestedPriority''
   \<and> get_prop item_date ''suggestedDueDate'' = Inr (JStr ''2024-01-05'')
   \<and> Date_new example_host (JStr ''2024-01-05'') = Inr (Some 1704412800000)
   \<and> docs (store (fst (apply_one example_host ''u1'' start item_date))) ''T1''
       = Some (doc_T1\<lparr> doc_dueDate := Some 1704412800000 \<rparr>)
   \<and> doc_priority (doc_T1\<lparr> doc_dueDate := Some 1704412800000 \<rparr>) = doc_priority doc_T1"
proof -
  have f: "Task_findOne (store start) (JStr ''T1'') ''u1'' = Inr (Some doc_T1)"
    by (simp add: start_def example_lookups)
  have p: "docs (store (fst (apply_one example_host ''u1'' start item_priority))) ''T1''
       = Some (doc_T1\<lparr> doc_priority := ''high'' \<rparr>)"
    using C8_partial_update [where s = start and rec = item_priority and uid = "''u1''"
        and h = example_host] f example_members(1,2,3) by blast
  have t: "truthy example_host (JStr ''2024-01-05'')" by simp
  have d: "docs (store (fst (apply_one example_host ''u1'' start item_date))) ''T1''
       = Some (doc_T1\<lparr> doc_dueDate := Some 1704412800000 \<rparr>)"
    using C8_partial_update [where s = start and rec = item_date and uid = "''u1''"
        and h = example_host] f example_members(4,5,6) t example_date by blast
  from f p d example_members example_date show ?thesis by simp
qed

text \<open>Claim C9, as amended. An entry whose lookup finds no task of the requesting user
  (the identifier names no task, or a task of someone else) adds the error
  \<^verbatim>\<open>Task <id> not found\<close>, leaves the store and the list of updated tasks as they are,
  and the loop goes on; so does an entry whose lookup throws, with the error
  \<^verbatim>\<open>Failed to update task <id>: <message>\<close>. An entry is applied when its lookup finds
  an owned task, it has something to set and the store accepts the update. A request
  that passes validation, of an authenticated user, in which every identifier has a
  string form, gets the report with \<^verbatim>\<open>success: true\<close>: \<^verbatim>\<open>updated\<close> is the number of
  applied entries and \<^verbatim>\<open>errors\<close> holds the errors of the entries in order, each entry
  contributing what it would alone. In the store it leaves, a task that no applied entry
  names is as before; and when no two applied entries have the same identifier,
  \<^verbatim>\<open>updated\<close> is the number of tasks written and each of them holds what its entry
  writes. A request that fails validation is rejected with nothing applied.\<close>

theorem C9_per_item_report:
  "(\<forall>v shown. get_prop rec ''taskId'' = Inr v \<and> Task_findOne (store s) v uid = Inr None
         \<and> ToString h v = Inr shown
       \<longrightarrow> apply_one h uid s rec
             = (s\<lparr> errors_list := errors_list s @ [''Task '' @ shown @ '' not found''] \<rparr>, None))
   \<and> ((Task_findOne st (JStr tid) uid = Inr None)
        = (query_error st (JStr tid) = None
           \<and> (docs st tid = None \<or> (\<exists>t. docs st tid = Some t \<and> doc_userId t \<noteq> uid))))
   \<and> (\<forall>v e shown. get_prop rec ''taskId'' = Inr v \<and> Task_findOne (store s) v uid = Inl e
         \<and> ToString h v = Inr shown
       \<longrightarrow> apply_one h uid s rec
             = (s\<lparr> errors_list := errors_list s
                    @ [''Failed to update task '' @ shown @ '': '' @ error_message e] \<rparr>, None))
   \<and> (applied h uid st rec
        = (\<exists>v t u w. get_prop rec ''taskId'' = Inr v \<and> Task_findOne st v uid = Inr (Some t)
             \<and> build_updateData h rec = Inr u \<and> has_keys u
             \<and> Task_findByIdAndUpdate st v u = Inr w))
   \<and> (valid recs \<and> (\<forall>r \<in> set recs. printable h r) \<longrightarrow>
        fst (applyWorkloadOptimization h valid st (Some uid) (JArr recs))
          = Applied (length (filter (applied h uid st) recs))
              (if concat (map (\<lambda>r. errors_list (alone h uid st r)) recs) = [] then None
               else Some (concat (map (\<lambda>r. errors_list (alone h uid st r)) recs)))
              (''Successfully updated ''
                 @ int_to_string (int (length (filter (applied h uid st) recs)))
                 @ '' task(s)'')
        \<and> (\<forall>tid. (\<forall>r \<in> set recs. applied h uid st r \<longrightarrow> \<not> names r tid) \<longrightarrow>
              docs (snd (applyWorkloadOptimization h valid st (Some uid) (JArr recs))) tid
                = docs st tid)
        \<and> (distinct (map (\<lambda>r. get_prop r ''taskId'') (filter (applied h uid st) recs)) \<longrightarrow>
              length (filter (applied h uid st) recs)
                = card {tid. \<exists>r \<in> set recs. applied h uid st r \<and> names r tid}
              \<and> (\<forall>r \<in> set recs. \<forall>tid. applied h uid st r \<and> names r tid \<longrightarrow>
                    docs (snd (applyWorkloadOptimization h valid st (Some uid) (JArr recs))) tid
                      = docs (store (alone h uid st r)) tid)))
   \<and> (\<not> valid recs \<longrightarrow>
        applyWorkloadOptimization h valid st user (JArr recs) = (BadRequest, st))"
proof (intro conjI allI impI ballI)
  show "apply_one h uid s rec
          = (s\<lparr> errors_list := errors_list s @ [''Task '' @ shown @ '' not found''] \<rparr>, None)"
    if "get_prop rec ''taskId'' = Inr v \<and> Task_findOne (store s) v uid = Inr None
         \<and> ToString h v = Inr shown" for v shown
    using that by (intro apply_one_not_found [where v = v]) simp_all
  show "(Task_findOne st (JStr tid) uid = Inr None)
        = (query_error st (JStr tid) = None
           \<and> (docs st tid = None \<or> (\<exists>t. docs st tid = Some t \<and> doc_userId t \<noteq> uid)))"
    by (rule Task_findOne_None)
  show "apply_one h uid s rec
          = (s\<lparr> errors_list := errors_list s
                 @ [''Failed to update task '' @ shown @ '': '' @ error_message e] \<rparr>, None)"
    if "get_prop rec ''taskId'' = Inr v \<and> Task_findOne (store s) v uid = Inl e
         \<and> ToString h v = Inr shown" for v e shown
    using that by (intro apply_one_lookup_throws [where v = v]) simp_all
  show "applied h uid st rec
        = (\<exists>v t u w. get_prop rec ''taskId'' = Inr v \<and> Task_findOne st v uid = Inr (Some t)
             \<and> build_updateData h rec = Inr u \<and> has_keys u
             \<and> Task_findByIdAndUpdate st v u = Inr w)"
    by (rule applied_iff)
next
  assume a: "valid recs \<and> (\<forall>r \<in> set recs. printable h r)"
  then have v: "valid recs" and p: "\<forall>r \<in> set recs. printable h r" by simp_all
  from applied_report [where valid = valid and recs = recs and h = h and st = st and uid = uid,
      OF v p]
  show "fst (applyWorkloadOptimization h valid st (Some uid) (JArr recs))
          = Applied (length (filter (applied h uid st) recs))
              (if concat (map (\<lambda>r. errors_list (alone h uid st r)) recs) = [] then None
               else Some (concat (map (\<lambda>r. errors_list (alone h uid st r)) recs)))
              (''Successfully updated ''
                 @ int_to_string (int (length (filter (applied h uid st) recs)))
                 @ '' task(s)'')"
    by simp
next
  fix tid
  assume a: "valid recs \<and> (\<forall>r \<in> set recs. printable h r)"
    and u: "\<forall>r \<in> set recs. applied h uid st r \<longrightarrow> \<not> names r tid"
  from a have v: "valid recs" and p: "\<forall>r \<in> set recs. printable h r" by simp_all
  from applied_store(1) [where valid = valid and recs = recs and h = h, OF v p u]
  show "docs (snd (applyWorkloadOptimization h valid st (Some uid) (JArr recs))) tid = docs st tid" .
next
  assume "distinct (map (\<lambda>r. get_prop r ''taskId'') (filter (applied h uid st) recs))"
  then show "length (filter (applied h uid st) recs)
                = card {tid. \<exists>r \<in> set recs. applied h uid st r \<and> names r tid}"
    by (rule written_tasks)
next
  fix r tid
  assume a: "valid recs \<and> (\<forall>r \<in> set recs. printable h r)"
    and d: "distinct (map (\<lambda>r. get_prop r ''taskId'') (filter (applied h uid st) recs))"
    and r: "r \<in> set recs" "applied h uid st r \<and> names r tid"
  from a have v: "valid recs" and p: "\<forall>r \<in> set recs. printable h r" by simp_all
  from r(2) have r': "applied h uid st r" "names r tid" by simp_all
  from applied_store(2) [where valid = valid and recs = recs and h = h, OF v p d r(1) r']
  show "docs (snd (applyWorkloadOptimization h valid st (Some uid) (JArr recs))) tid
          = docs (store (alone h uid st r)) tid" .
next
  assume "\<not> valid recs"
  then show "applyWorkloadOptimization h valid st user (JArr recs) = (BadRequest, st)"
    by (rule rejected_requests(1))
qed

theorem C9_witness:
  "get_prop item_missing ''taskId'' = Inr (JStr ''T9'')
   \<and> Task_findOne (store start) (JStr ''T9'') ''u1'' = Inr None
   \<and> ToString example_host (JStr ''T9'') = Inr ''T9''
   \<and> apply_one example_host ''u1'' start item_missing
       = (start\<lparr> errors_list := [''Task T9 not found''] \<rparr>, None)
   \<and> query_error example_store (JStr ''T2'') = None
   \<and> docs example_store ''T2'' = Some doc_T2 \<and> doc_userId doc_T2 \<noteq> ''u1''
   \<and> Task_findOne example_store (JStr ''T2'') ''u1'' = Inr None
   \<and> get_prop item_number ''taskId'' = Inr (JNum ''5'')
   \<and> Task_findOne (store start) (JNum ''5'') ''u1'' = Inl (Error ''Cast to ObjectId failed'')
   \<and> ToString example_host (JNum ''5'') = Inr ''5''
   \<and> apply_one example_host ''u1'' start item_number
       = (start\<lparr> errors_list := [''Failed to update task 5: Cast to ObjectId failed''] \<rparr>, None)
   \<and> example_validator [item_priority, item_missing]
   \<and> printable example_host item_priority \<and> printable example_host item_missing
   \<and> fst (applyWorkloadOptimization example_host example_validator example_store (Some ''u1'')
            (JArr [item_priority, item_missing]))
       = Applied 1 (Some [''Task T9 not found'']) ''Successfully updated 1 task(s)''
   \<and> docs (snd (applyWorkloadOptimization example_host example_validator example_store
                  (Some ''u1'') (JArr [item_priority, item_missing]))) ''T1''
       = Some (doc_T1\<lparr> doc_priority := ''high'' \<rparr>)
   \<and> docs (snd (applyWorkloadOptimization example_host example_validator example_store
                  (Some ''u1'') (JArr [item_priority, item_missing]))) ''T2''
       = Some doc_T2
   \<and> \<not> example_validator [item_priority, item_no_id]
   \<and> applyWorkloadOptimization example_host example_validator example_store (Some ''u1'')
        (JArr [item_priority, item_no_id])
       = (BadRequest, example_store)"
proof -
  let ?recs = "[item_priority, item_missing]"
  let ?r = "applyWorkloadOptimization example_host example_validator example_store (Some ''u1'')
              (JArr ?recs)"
  have f: "Task_findOne (store start) (JStr ''T9'') ''u1'' = Inr None"
    "Task_findOne (store start) (JNum ''5'') ''u1'' = Inl (Error ''Cast to ObjectId failed'')"
    by (simp_all add: start_def example_lookups)
  have t: "ToString example_host (JStr ''T9'') = Inr ''T9''"
    "ToString example_host (JNum ''5'') = Inr ''5''"
    by (simp_all add: example_host_def)
  note found = C9_per_item_report [where s = start and rec = item_missing and uid = "''u1''"
      and h = example_host, THEN conjunct1, rule_format, of "JStr ''T9''" "''T9''"]
  have a: "apply_one example_host ''u1'' start item_missing
       = (start\<lparr> errors_list := [''Task T9 not found''] \<rparr>, None)"
    using found example_members(7) f(1) t(1) by (simp add: start_def)
  have o: "doc_userId doc_T2 \<noteq> ''u1''" by (simp add: doc_T2_def)
  note lookup = C9_per_item_report [where st = example_store and tid = "''T2''"
      and uid = "''u1''", THEN conjunct2, THEN conjunct1]
  have l: "Task_findOne example_store (JStr ''T2'') ''u1'' = Inr None"
    using lookup example_docs(2,4) o by simp
  note throws = C9_per_item_report [where s = start and rec = item_number and uid = "''u1''"
      and h = example_host, THEN conjunct2, THEN conjunct2, THEN conjunct1, rule_format,
      of "JNum ''5''" "Error ''Cast to ObjectId failed''" "''5''"]
  have n: "apply_one example_host ''u1'' start item_number
       = (start\<lparr> errors_list := [''Failed to update task 5: Cast to ObjectId failed''] \<rparr>, None)"
    using throws example_members(12) f(2) t(2) by (simp add: start_def)
  have p: "\<forall>r \<in> set ?recs. printable example_host r"
    by (simp add: example_printable)
  note report = C9_per_item_report [where valid = example_validator and recs = ?recs
      and h = example_host and st = example_store and uid = "''u1''",
      THEN conjunct2, THEN conjunct2, THEN conjunct2, THEN conjunct2, THEN conjunct1,
      rule_format, OF conjI, OF example_valid(1) p]
  from report [THEN conjunct1]
  have r1: "fst ?r = Applied 1 (Some [''Task T9 not found'']) ''Successfully updated 1 task(s)''"
    by (simp add: alone_priority alone_missing small_numbers)
  have d: "distinct (map (\<lambda>r. get_prop r ''taskId'')
             (filter (applied example_host ''u1'' example_store) ?recs))"
    by (simp add: alone_priority alone_missing)
  have m: "item_priority \<in> set ?recs" by simp
  have nm: "names item_priority ''T1''" by (simp add: names_def example_members)
  from report [THEN conjunct2, THEN conjunct2, rule_format, OF d, THEN conjunct2, rule_format,
      OF m conjI, OF alone_priority(4) nm]
  have r2: "docs (snd ?r) ''T1'' = Some (doc_T1\<lparr> doc_priority := ''high'' \<rparr>)"
    by (simp add: alone_priority)
  have u: "\<forall>r \<in> set ?recs. applied example_host ''u1'' example_store r \<longrightarrow> \<not> names r ''T2''"
    by (simp add: alone_missing names_def example_members)
  from report [THEN conjunct2, THEN conjunct1, rule_format, of "''T2''"] u
  have r3: "docs (snd ?r) ''T2'' = Some doc_T2" by (simp add: example_docs)
  note rejected = C9_per_item_report [where valid = example_validator
      and recs = "[item_priority, item_no_id]" and st = example_store and user = "Some ''u1''"
      and h = example_host,
      THEN conjunct2, THEN conjunct2, THEN conjunct2, THEN conjunct2, THEN conjunct2,
      rule_format, OF example_valid(5)]
  from example_members(7,12) f t a example_docs(2,4) o l n example_valid(1,5)
    example_printable(1,3) r1 r2 r3 rejected
  show ?thesis by (intro conjI)
qed

text \<open>An entry whose identifier has no string form ends the request: the outer
  \<^verbatim>\<open>catch\<close> answers 500. What earlier entries wrote stays.\<close>

lemma unprintable_ends_request:
  assumes "valid (xs @ rec # ys)" and "\<forall>r \<in> set xs. printable h r"
    and "get_prop rec ''taskId'' = Inr v" and "ToString h v = Inl e"
  shows "applyWorkloadOptimization h valid st (Some uid) (JArr (xs @ rec # ys))
     = (ServerError (error_message e),
        store (foldl (\<lambda>s r. fst (apply_one h uid s r))
                 \<lparr> store = st, updatedTasks = [], errors_list = [] \<rparr> xs))"
proof -
  have l: "apply_loop h uid s (xs @ rec # ys)
             = (foldl (\<lambda>s r. fst (apply_one h uid s r)) s xs, Some e)" for s
    using assms(2)
  proof (induction xs arbitrary: s)
    case Nil
    from apply_one_unprintable [OF assms(3,4), of uid s] show ?case by simp
  next
    case (Cons x xs)
    from Cons.prems have "snd (apply_one h uid s x) = None"
      by (simp add: printable_no_throw)
    then obtain s' where "apply_one h uid s x = (s', None)"
      by (cases "apply_one h uid s x") simp
    with Cons show ?case by simp
  qed
  from assms(1) show ?thesis
    by (simp add: applyWorkloadOptimization_def l)
qed

text \<open>Claim C9 as stated fails on three requests of user u1. With the entry for T1
  twice and a third one for T1, \<^verbatim>\<open>updated\<close> is 3 though one task is updated. With an
  entry that has an empty identifier after a good one, the whole request is rejected
  and the good entry is not applied. With an entry whose identifier has no string form
  after a good one, the request ends with the 500 response and no report, the good
  entry having been applied.\<close>

theorem C9_counterexample:
  "applyWorkloadOptimization example_host example_validator example_store (Some ''u1'')
     (JArr [item_priority, item_priority, item_date])
     = (Applied 3 None ''Successfully updated 3 task(s)'',
        example_store\<lparr> docs := (docs example_store)
          (''T1'' \<mapsto> doc_T1\<lparr> doc_priority := ''high'', doc_dueDate := Some 1704412800000 \<rparr>) \<rparr>)
   \<and> applied example_host ''u1'' example_store item_priority
   \<and> applyWorkloadOptimization example_host example_validator example_store (Some ''u1'')
        (JArr [item_priority, item_no_id])
       = (BadRequest, example_store)
   \<and> applyWorkloadOptimization example_host example_validator example_store (Some ''u1'')
        (JArr [item_priority, item_odd_id])
       = (ServerError ''TypeError'',
          example_store\<lparr> docs := (docs example_store)
            (''T1'' \<mapsto> doc_T1\<lparr> doc_priority := ''high'' \<rparr>) \<rparr>)"
proof -
  let ?i = "\<lparr> store = example_store, updatedTasks = [], errors_list = [] \<rparr>"
  let ?a = "doc_T1\<lparr> doc_priority := ''high'' \<rparr>"
  let ?b = "doc_T1\<lparr> doc_priority := ''high'', doc_dueDate := Some 1704412800000 \<rparr>"
  let ?s1 = "\<lparr> store = example_store\<lparr> docs := (docs example_store)(''T1'' \<mapsto> ?a) \<rparr>,
               updatedTasks = [Some ?a], errors_list = [] \<rparr>"
  let ?s2 = "\<lparr> store = example_store\<lparr> docs := (docs example_store)(''T1'' \<mapsto> ?a) \<rparr>,
               updatedTasks = [Some ?a, Some ?a], errors_list = [] \<rparr>"
  let ?s3 = "\<lparr> store = example_store\<lparr> docs := (docs example_store)(''T1'' \<mapsto> ?b) \<rparr>,
               updatedTasks = [Some ?a, Some ?a, Some ?b], errors_list = [] \<rparr>"
  have u: "doc_userId doc_T1 = ''u1''" by (simp add: doc_T1_def)
  have t1: "apply_one example_host ''u1'' ?i item_priority = (?s1, None)"
    using turn_priority [of ?i doc_T1] u by (simp add: example_docs)
  have t2: "apply_one example_host ''u1'' ?s1 item_priority = (?s2, None)"
    using turn_priority [of ?s1 ?a] u by simp
  have t3: "apply_one example_host ''u1'' ?s2 item_date = (?s3, None)"
    using turn_date [of ?s2 ?a] u by simp
  have l3: "apply_loop example_host ''u1'' ?i [item_priority, item_priority, item_date] = (?s3, None)"
    by (simp add: t1 t2 t3)
  have c1: "applyWorkloadOptimization example_host example_validator example_store
      (Some ''u1'') (JArr [item_priority, item_priority, item_date])
     = (Applied 3 None ''Successfully updated 3 task(s)'',
        example_store\<lparr> docs := (docs example_store)
          (''T1'' \<mapsto> doc_T1\<lparr> doc_priority := ''high'', doc_dueDate := Some 1704412800000 \<rparr>) \<rparr>)"
    by (simp add: applyWorkloadOptimization_def example_valid small_numbers l3
        del: apply_loop.simps)
  have c3: "applyWorkloadOptimization example_host example_validator example_store (Some ''u1'')
        (JArr [item_priority, item_no_id]) = (BadRequest, example_store)"
    by (simp add: applyWorkloadOptimization_def example_valid)
  have "ToString example_host (JObj [(''toString'', JNum ''1'')]) = Inl TypeError" by simp
  from apply_one_unprintable [OF example_members(13) this, of "''u1''" ?s1]
  have t4: "apply_one example_host ''u1'' ?s1 item_odd_id = (?s1, Some TypeError)" .
  have l4: "apply_loop example_host ''u1'' ?i [item_priority, item_odd_id] = (?s1, Some TypeError)"
    by (simp add: t1 t4)
  have c4: "applyWorkloadOptimization example_host example_validator example_store
      (Some ''u1'') (JArr [item_priority, item_odd_id])
       = (ServerError ''TypeError'',
          example_store\<lparr> docs := (docs example_store)
            (''T1'' \<mapsto> doc_T1\<lparr> doc_priority := ''high'' \<rparr>) \<rparr>)"
    by (simp add: applyWorkloadOptimization_def example_valid l4 del: apply_loop.simps)
  from c1 alone_priority(4) c3 c4 show ?thesis by (intro conjI)
qed

text \<open>Claim C10. An entry that finds an owned task but supplies neither a truthy
  \<^verbatim>\<open>suggestedDueDate\<close> nor a truthy \<^verbatim>\<open>suggestedPriority\<close> leaves the whole state of the
  loop as it is and the loop goes on: no update, no error, nothing added to the list
  that is counted. No request clears a due date: a task that has one has one
  afterwards.\<close>

theorem C10_empty_entry_is_skipped:
  "(\<forall>v t. get_prop rec ''taskId'' = Inr v
        \<and> Task_findOne (store s) v uid = Inr (Some t)
        \<and> \<not> supplies h rec ''suggestedDueDate''
        \<and> \<not> supplies h rec ''suggestedPriority''
      \<longrightarrow> apply_one h uid s rec = (s, None))
   \<and> (\<forall>tid t0. docs st tid = Some t0 \<and> doc_dueDate t0 \<noteq> None \<longrightarrow>
        (\<exists>t1. docs (snd (applyWorkloadOptimization h valid st user body)) tid = Some t1
           \<and> doc_dueDate t1 \<noteq> None))"
proof (intro conjI allI impI)
  fix v t
  assume "get_prop rec ''taskId'' = Inr v
        \<and> Task_findOne (store s) v uid = Inr (Some t)
        \<and> \<not> supplies h rec ''suggestedDueDate''
        \<and> \<not> supplies h rec ''suggestedPriority''"
  then show "apply_one h uid s rec = (s, None)"
    by (intro apply_one_nothing [where v = v and t = t]) simp_all
next
  fix tid t0
  assume a: "docs st tid = Some t0 \<and> doc_dueDate t0 \<noteq> None"
  then have "docs st tid = Some t0" by simp
  from batch_doc [OF this, of h valid user body] a
  show "\<exists>t1. docs (snd (applyWorkloadOptimization h valid st user body)) tid = Some t1
           \<and> doc_dueDate t1 \<noteq> None"
    by blast
qed

theorem C10_witness:
  "get_prop item_nothing ''taskId'' = Inr (JStr ''T1'')
   \<and> Task_findOne (store start) (JStr ''T1'') ''u1'' = Inr (Some doc_T1)
   \<and> \<not> supplies example_host item_nothing ''suggestedDueDate''
   \<and> \<not> supplies example_host item_nothing ''suggestedPriority''
   \<and> apply_one example_host ''u1'' start item_nothing = (start, None)
   \<and> docs example_store ''T1'' = Some doc_T1 \<and> doc_dueDate doc_T1 \<noteq> None
   \<and> (case docs (snd (applyWorkloadOptimization example_host example_validator example_store
                        (Some ''u1'') (JArr [item_nothing, item_date]))) ''T1'' of
         Some t1 \<Rightarrow> doc_dueDate t1 \<noteq> None
       | None \<Rightarrow> False)"
proof -
  have f: "Task_findOne (store start) (JStr ''T1'') ''u1'' = Inr (Some doc_T1)"
    by (simp add: start_def example_lookups)
  have n: "apply_one example_host ''u1'' start item_nothing = (start, None)"
    using C10_empty_entry_is_skipped [where s = start and rec = item_nothing and uid = "''u1''"
        and h = example_host] f example_members(9,10,11) by blast
  have d: "doc_dueDate doc_T1 \<noteq> None" by (simp add: doc_T1_def)
  have "\<exists>t1. docs (snd (applyWorkloadOptimization example_host example_validator example_store
                        (Some ''u1'') (JArr [item_nothing, item_date]))) ''T1'' = Some t1
          \<and> doc_dueDate t1 \<noteq> None"
    using C10_empty_entry_is_skipped [where st = example_store and h = example_host
        and valid = example_validator and user = "Some ''u1''"
        and body = "JArr [item_nothing, item_date]"] example_docs(1) d
    by blast
  then have "(case docs (snd (applyWorkloadOptimization example_host example_validator
                example_store (Some ''u1'') (JArr [item_nothing, item_date]))) ''T1'' of
         Some t1 \<Rightarrow> doc_dueDate t1 \<noteq> None
       | None \<Rightarrow> False)"
    by auto
  with f n d example_docs(1) example_members(9,10,11) show ?thesis by simp
qed

end
